(* ===== verification/Prelude.thy ===== *)
theory Prelude
  imports Complex_Main "HOL-Library.AList"
begin

text \<open>
  Shared vocabulary of the development: the errors of the program as values, computations
  that may throw and change a state, JavaScript's insertion-ordered \<open>Map\<close> as an
  association list, and the small facts about them that the component theories use.
\<close>

section \<open>Fact collections\<close>

named_theorems exec_simps \<open>unfolding equations of throwing, state-passing computations\<close>
named_theorems jsmap_simps \<open>facts about insertion-ordered maps\<close>

section \<open>Errors\<close>

text \<open>
  The errors the program throws. \<open>JsError\<close> is a plain \<open>Error\<close> with its message; the
  named classes of shared/messaging/src/messageErrors.ts and
  shared/runtime/src/configuration.ts have a constructor each, and \<open>DatabaseError\<close> is what
  PostgreSQL rejects a statement with (a violated constraint, a lost connection).
\<close>

datatype js_error =
    JsError string
  | PermanentMessageError string
  | PublishTimeoutError string
  | UnroutableMessageError string string int string
  | AbortError string
  | ConfigurationError string
  | DatabaseError string

section \<open>Computations that may throw\<close>

text \<open>A throwing step after another, without state.\<close>

definition and_then :: "'e + 'a \<Rightarrow> ('a \<Rightarrow> 'e + 'b) \<Rightarrow> 'e + 'b" where
  "and_then r f = (case r of Inl e \<Rightarrow> Inl e | Inr x \<Rightarrow> f x)"

lemma and_then_Inr [simp]: "and_then (Inr x) f = f x"
  by (simp add: and_then_def)

text \<open>
  \<open>('s, 'a) tx\<close> is a computation on a state that either throws (the state it had reached
  is what a caller sees only if it keeps it) or returns a value with the new state.
\<close>

type_synonym ('s, 'a) tx = "'s \<Rightarrow> js_error + 'a \<times> 's"

definition returnE :: "'a \<Rightarrow> ('s, 'a) tx" where
  "returnE x s = Inr (x, s)"

definition throwE :: "js_error \<Rightarrow> ('s, 'a) tx" where
  "throwE e s = Inl e"

definition bindE :: "('s, 'a) tx \<Rightarrow> ('a \<Rightarrow> ('s, 'b) tx) \<Rightarrow> ('s, 'b) tx" where
  "bindE m f s = (case m s of Inl e \<Rightarrow> Inl e | Inr (x, s') \<Rightarrow> f x s')"

lemma returnE_simp [simp, exec_simps]: "returnE x s = Inr (x, s)"
  by (simp add: returnE_def)

lemma throwE_simp [simp, exec_simps]: "throwE e s = Inl e"
  by (simp add: throwE_def)

lemma bindE_Inl [exec_simps]: "m s = Inl e \<Longrightarrow> bindE m f s = Inl e"
  by (simp add: bindE_def)

lemma bindE_Inr [exec_simps]: "m s = Inr (x, s') \<Longrightarrow> bindE m f s = f x s'"
  by (simp add: bindE_def)

lemma bindE_eq_Inr:
  "bindE m f s = Inr (y, t) \<longleftrightarrow> (\<exists>x s'. m s = Inr (x, s') \<and> f x s' = Inr (y, t))"
  by (auto simp: bindE_def split: sum.splits)

lemma bindE_InrE [elim!]:
  assumes "bindE m f s = Inr r"
  obtains x s' where "m s = Inr (x, s')" "f x s' = Inr r"
  using assms by (auto simp: bindE_def split: sum.splits)

lemma bindE_assoc: "bindE (bindE m f) g = bindE m (\<lambda>x. bindE (f x) g)"
  by (rule ext) (auto simp: bindE_def split: sum.splits)

text \<open>A loop over a list whose body may throw: the first throw ends it.\<close>

fun forEachE :: "('a \<Rightarrow> ('s, unit) tx) \<Rightarrow> 'a list \<Rightarrow> ('s, unit) tx" where
  "forEachE f [] = returnE ()"
| "forEachE f (x # xs) = bindE (f x) (\<lambda>_. forEachE f xs)"

text \<open>
  \<open>('s, 'a) io\<close> is a computation that may throw and whose effects up to the throw stay.
\<close>

type_synonym ('s, 'a) io = "'s \<Rightarrow> (js_error + 'a) \<times> 's"

definition io_return :: "'a \<Rightarrow> ('s, 'a) io" where
  "io_return x s = (Inr x, s)"

definition io_bind :: "('s, 'a) io \<Rightarrow> ('a \<Rightarrow> ('s, 'b) io) \<Rightarrow> ('s, 'b) io" where
  "io_bind m f s = (case m s of (Inl e, s') \<Rightarrow> (Inl e, s') | (Inr x, s') \<Rightarrow> f x s')"

text \<open>\<open>try m catch h\<close>.\<close>

definition io_catch :: "('s, 'a) io \<Rightarrow> (js_error \<Rightarrow> ('s, 'a) io) \<Rightarrow> ('s, 'a) io" where
  "io_catch m h s = (case m s of (Inl e, s') \<Rightarrow> h e s' | (Inr x, s') \<Rightarrow> (Inr x, s'))"

lemma io_return_simp [simp, exec_simps]: "io_return x s = (Inr x, s)"
  by (simp add: io_return_def)

text \<open>
  An invariant that every step keeps, whether it returns or throws, is kept by the sequence.
\<close>

definition io_keeps :: "('s \<Rightarrow> bool) \<Rightarrow> ('s, 'a) io \<Rightarrow> bool" where
  "io_keeps P m \<longleftrightarrow> (\<forall>s. P s \<longrightarrow> P (snd (m s)))"

lemma io_keepsD: "io_keeps P m \<Longrightarrow> P s \<Longrightarrow> P (snd (m s))"
  by (simp add: io_keeps_def)

lemma io_keeps_return [simp, intro]: "io_keeps P (io_return x)"
  by (simp add: io_keeps_def)

lemma io_keeps_bind [intro]: "io_keeps P m \<Longrightarrow> (\<And>x. io_keeps P (f x)) \<Longrightarrow> io_keeps P (io_bind m f)"
  by (auto simp: io_keeps_def io_bind_def split: prod.split sum.split)

lemma io_keeps_catch [intro]: "io_keeps P m \<Longrightarrow> (\<And>e. io_keeps P (h e)) \<Longrightarrow> io_keeps P (io_catch m h)"
  by (auto simp: io_keeps_def io_catch_def split: prod.split sum.split)

fun io_forEach :: "('a \<Rightarrow> ('s, unit) io) \<Rightarrow> 'a list \<Rightarrow> ('s, unit) io" where
  "io_forEach f [] = io_return ()"
| "io_forEach f (x # xs) = io_bind (f x) (\<lambda>_. io_forEach f xs)"

lemma io_keeps_forEach [intro]: "(\<And>x. io_keeps P (f x)) \<Longrightarrow> io_keeps P (io_forEach f xs)"
  by (induction xs) auto

text \<open>A computation that handles its own errors never throws.\<close>

lemma io_forEach_returns:
  "(\<And>x s. \<exists>s'. f x s = (Inr (), s')) \<Longrightarrow> \<exists>s'. io_forEach f xs s = (Inr (), s')"
proof (induction xs arbitrary: s)
  case (Cons x xs)
  then obtain s1 where "f x s = (Inr (), s1)" by blast
  with Cons show ?case by (simp add: io_bind_def)
qed simp

text \<open>
  A statement can be lost on the way: the connection breaks before it ran, or after it ran and
  before its result arrived.
\<close>

datatype db_fault = NoFault | FailBefore js_error | FailAfter js_error

section \<open>Insertion-ordered maps\<close>

text \<open>
  A JavaScript \<open>Map\<close> iterates in the order in which its keys were first set; setting a key
  again keeps its place. \<open>AList.update\<close> does exactly that on association lists.
\<close>

type_synonym ('k, 'v) jsmap = "('k \<times> 'v) list"

abbreviation map_get :: "('k, 'v) jsmap \<Rightarrow> 'k \<Rightarrow> 'v option" where
  "map_get m k \<equiv> map_of m k"

abbreviation map_set :: "'k \<Rightarrow> 'v \<Rightarrow> ('k, 'v) jsmap \<Rightarrow> ('k, 'v) jsmap" where
  "map_set k v m \<equiv> AList.update k v m"

abbreviation map_keys :: "('k, 'v) jsmap \<Rightarrow> 'k list" where
  "map_keys m \<equiv> map fst m"

definition map_or :: "'v \<Rightarrow> ('k, 'v) jsmap \<Rightarrow> 'k \<Rightarrow> 'v" where
  "map_or d m k = (case map_of m k of None \<Rightarrow> d | Some v \<Rightarrow> v)"

lemma map_get_set [simp, jsmap_simps]:
  "map_get (map_set k v m) k' = (if k' = k then Some v else map_get m k')"
  by (simp add: update_conv')

lemma set_keys_map_set [jsmap_simps]: "set (map_keys (map_set k v m)) = insert k (set (map_keys m))"
  by (simp add: dom_update)

lemma map_keys_map_set:
  "map_keys (map_set k v m) = (if k \<in> set (map_keys m) then map_keys m else map_keys m @ [k])"
  by (simp add: update_keys)

lemma distinct_map_set [simp, jsmap_simps]:
  "distinct (map_keys m) \<Longrightarrow> distinct (map_keys (map_set k v m))"
  by (rule distinct_update)

lemma map_or_set [simp, jsmap_simps]:
  "map_or d (map_set k v m) k' = (if k' = k then v else map_or d m k')"
  by (simp add: map_or_def)

lemma map_of_in_keys: "k \<in> set (map_keys m) \<longleftrightarrow> (\<exists>v. map_of m k = Some v)"
  by (induction m) auto

section \<open>Lists\<close>

text \<open>\<open>xs.find(p)\<close> is the library's \<open>List.find\<close>; these are the facts the proofs need.\<close>

lemma find_Some_mem: "List.find p xs = Some x \<Longrightarrow> x \<in> set xs \<and> p x"
  by (induction xs) (auto split: if_splits)

lemma find_None_iff': "List.find p xs = None \<longleftrightarrow> (\<forall>x \<in> set xs. \<not> p x)"
  by (induction xs) auto

lemma find_append:
  "List.find p (xs @ ys) = (case List.find p xs of None \<Rightarrow> List.find p ys | Some x \<Rightarrow> Some x)"
  by (induction xs) auto

lemma foldl_invariant:
  assumes "P a" and "\<And>a x. x \<in> set xs \<Longrightarrow> P a \<Longrightarrow> P (f a x)"
  shows "P (foldl f a xs)"
  using assms by (induction xs arbitrary: a) auto

lemma sum_list_nonneg': "(\<And>x. x \<in> set xs \<Longrightarrow> 0 \<le> f x) \<Longrightarrow> 0 \<le> sum_list (map f xs)"
  for f :: "'a \<Rightarrow> int"
  by (induction xs) auto

end
