(* ===== verification/JsNumber.thy ===== *)
theory JsNumber
  imports Prelude
begin

text \<open>
  JavaScript numbers. A number is an IEEE 754 double: a finite value (a rational), an
  infinity or NaN; the sign of zero is not modelled, because no operation of the program
  can observe it. Every arithmetic operation rounds the exact result to the nearest
  double, ties to even (\<open>fl\<close>); overflow gives an infinity. The operations here are the ones
  the order total uses (addition, multiplication, \<open>toFixed(2)\<close>) and the integer addition
  the inventory uses.
\<close>

section \<open>The number type\<close>

datatype jsnum = Fin rat | PosInf | NegInf | NaN

definition isFinite :: "jsnum \<Rightarrow> bool" where
  "isFinite x = (case x of Fin _ \<Rightarrow> True | _ \<Rightarrow> False)"

lemma isFinite_simps [simp]:
  "isFinite (Fin r)" "\<not> isFinite PosInf" "\<not> isFinite NegInf" "\<not> isFinite NaN"
  by (simp_all add: isFinite_def)

section \<open>Rounding to the nearest double\<close>

definition pow2 :: "int \<Rightarrow> rat" where
  "pow2 e = (if 0 \<le> e then 2 ^ nat e else 1 / 2 ^ nat (- e))"

fun ilog2 :: "nat \<Rightarrow> nat" where
  "ilog2 n = (if n < 2 then 0 else Suc (ilog2 (n div 2)))"

declare ilog2.simps [simp del]

text \<open>The exponent of a positive rational: \<open>2 ^ k \<le> r < 2 ^ (k + 1)\<close>.\<close>

definition exponent :: "rat \<Rightarrow> int" where
  "exponent r =
     (let (p, q) = quotient_of r;
          k = int (ilog2 (nat p)) - int (ilog2 (nat q))
      in if pow2 k \<le> r then k else k - 1)"

definition roundHalfEven :: "rat \<Rightarrow> int" where
  "roundHalfEven x =
     (let n = \<lfloor>x\<rfloor>; d = x - of_int n
      in if d < 1 / 2 then n
         else if d > 1 / 2 then n + 1
         else if even n then n else n + 1)"

text \<open>
  A positive rational is written as \<open>m * 2 ^ e\<close> with a significand of at most 53 bits; the
  least exponent is -1074 (subnormals), and values of \<open>2 ^ 1024\<close> and above overflow.
\<close>

definition ulp_exponent :: "rat \<Rightarrow> int" where
  "ulp_exponent r = max (- 1074) (exponent r - 52)"

definition fl_pos :: "rat \<Rightarrow> rat" where
  "fl_pos r = of_int (roundHalfEven (r / pow2 (ulp_exponent r))) * pow2 (ulp_exponent r)"

definition fl :: "rat \<Rightarrow> jsnum" where
  "fl r =
     (if r = 0 then Fin 0
      else if 0 < r then (if fl_pos r \<ge> 2 ^ 1024 then PosInf else Fin (fl_pos r))
      else (if fl_pos (- r) \<ge> 2 ^ 1024 then NegInf else Fin (- fl_pos (- r))))"

section \<open>Operations\<close>

fun js_add :: "jsnum \<Rightarrow> jsnum \<Rightarrow> jsnum" where
  "js_add (Fin a) (Fin b) = fl (a + b)"
| "js_add NaN _ = NaN"
| "js_add _ NaN = NaN"
| "js_add PosInf NegInf = NaN"
| "js_add NegInf PosInf = NaN"
| "js_add PosInf _ = PosInf"
| "js_add _ PosInf = PosInf"
| "js_add NegInf _ = NegInf"
| "js_add _ NegInf = NegInf"

definition inf_of_sign :: "rat \<Rightarrow> jsnum \<Rightarrow> jsnum \<Rightarrow> jsnum" where
  "inf_of_sign r pos neg = (if r = 0 then NaN else if 0 < r then pos else neg)"

fun js_mul :: "jsnum \<Rightarrow> jsnum \<Rightarrow> jsnum" where
  "js_mul (Fin a) (Fin b) = fl (a * b)"
| "js_mul NaN _ = NaN"
| "js_mul _ NaN = NaN"
| "js_mul PosInf PosInf = PosInf"
| "js_mul PosInf NegInf = NegInf"
| "js_mul NegInf PosInf = NegInf"
| "js_mul NegInf NegInf = PosInf"
| "js_mul PosInf (Fin b) = inf_of_sign b PosInf NegInf"
| "js_mul NegInf (Fin b) = inf_of_sign b NegInf PosInf"
| "js_mul (Fin a) PosInf = inf_of_sign a PosInf NegInf"
| "js_mul (Fin a) NegInf = inf_of_sign a NegInf PosInf"

text \<open>
  \<open>Number(x.toFixed(2))\<close>. Below \<open>10 ^ 21\<close> in magnitude, \<open>toFixed(2)\<close> prints the integer
  number of hundredths nearest to the exact value, the larger one on a tie, and \<open>Number\<close>
  reads the decimal back to the nearest double; from \<open>10 ^ 21\<close> on (and for the infinities
  and NaN) it prints the number itself, which reads back unchanged.
\<close>

definition hundredths :: "rat \<Rightarrow> int" where
  "hundredths r = \<lfloor>100 * r + 1 / 2\<rfloor>"

definition number_toFixed2 :: "jsnum \<Rightarrow> jsnum" where
  "number_toFixed2 x =
     (case x of
        Fin r \<Rightarrow>
          if \<bar>r\<bar> \<ge> 10 ^ 21 then Fin r
          else if 0 \<le> r then fl (of_int (hundredths r) / 100)
          else fl (- (of_int (hundredths (- r)) / 100))
      | _ \<Rightarrow> x)"

text \<open>
  Addition of numbers that hold integers, as the inventory adds quantities. Exact up to
  \<open>2 ^ 53\<close>, rounded to even significands above; a sum that large never reaches the overflow
  threshold here, because each summand of an accepted event is at most \<open>2 ^ 53 - 1\<close>.
\<close>

definition int_add :: "int \<Rightarrow> int \<Rightarrow> int" where
  "int_add a b =
     (if \<bar>a + b\<bar> \<le> 2 ^ 53 then a + b
      else if 0 \<le> a + b then \<lfloor>fl_pos (of_int (a + b))\<rfloor>
      else - \<lfloor>fl_pos (- of_int (a + b))\<rfloor>)"

section \<open>Facts about rounding\<close>

lemma pow2_pos [simp]: "0 < pow2 e"
  by (simp add: pow2_def)

lemma pow2_add: "pow2 (a + b) = pow2 a * pow2 b"
proof -
  have "pow2 e = 2 powi e" for e
    by (simp add: pow2_def power_int_def field_simps)
  then show ?thesis by (simp add: power_int_add)
qed

lemma pow2_le_mono: "a \<le> b \<Longrightarrow> pow2 a \<le> pow2 b"
proof -
  assume "a \<le> b"
  then have "pow2 b = pow2 a * 2 ^ nat (b - a)"
    using pow2_add [of a "b - a"] by (simp add: pow2_def)
  moreover have "(1::rat) \<le> 2 ^ nat (b - a)" by simp
  ultimately show ?thesis
    using mult_left_mono [of 1 "2 ^ nat (b - a)" "pow2 a"] by simp
qed

lemma ilog2_bounds: "0 < n \<Longrightarrow> 2 ^ ilog2 n \<le> n \<and> n < 2 ^ Suc (ilog2 n)"
proof (induction n rule: ilog2.induct)
  case (1 n)
  show ?case
  proof (cases "n < 2")
    case True
    with "1.prems" show ?thesis by (simp add: ilog2.simps [of n])
  next
    case False
    with "1.IH" have "2 ^ ilog2 (n div 2) \<le> n div 2 \<and> n div 2 < 2 ^ Suc (ilog2 (n div 2))"
      by simp
    with False show ?thesis by (simp add: ilog2.simps [of n]) linarith
  qed
qed

lemma roundHalfEven_nonneg: "0 \<le> x \<Longrightarrow> 0 \<le> roundHalfEven x"
  by (simp add: roundHalfEven_def Let_def)

lemma roundHalfEven_le: "x \<le> of_int n \<Longrightarrow> roundHalfEven x \<le> n"
proof (cases "x = of_int n")
  case True
  then show ?thesis by (simp add: roundHalfEven_def)
next
  case False
  assume "x \<le> of_int n"
  with False have "x < of_int n" by simp
  then have "\<lfloor>x\<rfloor> < n" by (simp add: floor_less_iff)
  then show ?thesis by (auto simp: roundHalfEven_def Let_def)
qed

lemma roundHalfEven_int [simp]: "roundHalfEven (of_int n) = n"
  by (simp add: roundHalfEven_def)

lemma fl_pos_nonneg: "0 < r \<Longrightarrow> 0 \<le> fl_pos r"
  by (simp add: fl_pos_def roundHalfEven_nonneg less_imp_le)

text \<open>\<open>exponent\<close> is the binary exponent.\<close>

lemma quotient_ilog2:
  assumes "0 < r" "quotient_of r = (p, q)"
  shows "pow2 (int (ilog2 (nat p)) - int (ilog2 (nat q)) - 1) \<le> r"
    and "r < pow2 (int (ilog2 (nat p)) - int (ilog2 (nat q)) + 1)"
proof -
  let ?i = "ilog2 (nat p)" and ?j = "ilog2 (nat q)"
  have q: "0 < q" and r: "r = of_int p / of_int q"
    using assms quotient_of_denom_pos quotient_of_div by auto
  have p: "0 < p" using assms q r by (simp add: zero_less_divide_iff)
  have bound: "of_int (2 ^ ilog2 (nat a)) \<le> (of_int a :: rat)"
    "(of_int a :: rat) < of_int (2 ^ Suc (ilog2 (nat a)))" if a: "0 < a" for a
  proof -
    have "2 ^ ilog2 (nat a) \<le> nat a" "nat a < 2 ^ Suc (ilog2 (nat a))"
      using ilog2_bounds [of "nat a"] a by auto
    then have "2 ^ ilog2 (nat a) \<le> a" "a < 2 ^ Suc (ilog2 (nat a))"
      using a nat_less_iff [of a "2 ^ Suc (ilog2 (nat a))"] le_nat_iff [of a "2 ^ ilog2 (nat a)"]
      by simp_all
    then show "of_int (2 ^ ilog2 (nat a)) \<le> (of_int a :: rat)"
      "(of_int a :: rat) < of_int (2 ^ Suc (ilog2 (nat a)))"
      by (simp_all only: of_int_le_iff of_int_less_iff)
  qed
  have "(2 :: rat) ^ ?i / 2 ^ Suc ?j \<le> r"
    unfolding r using bound [OF p] bound [OF q] p q by (intro frac_le) simp_all
  also have "(2 :: rat) ^ ?i / 2 ^ Suc ?j = pow2 (int ?i - int ?j - 1)"
    using pow2_add [of "int ?i - int ?j - 1" "int (Suc ?j)"]
    by (simp add: pow2_def field_simps nat_add_distrib)
  finally show "pow2 (int ?i - int ?j - 1) \<le> r" .
  have "r < 2 ^ Suc ?i / 2 ^ ?j"
    unfolding r using bound [OF p] bound [OF q] p q by (intro frac_less) simp_all
  also have "(2 :: rat) ^ Suc ?i / 2 ^ ?j = pow2 (int ?i - int ?j + 1)"
    using pow2_add [of "int ?i - int ?j + 1" "int ?j"]
    by (simp add: pow2_def field_simps nat_add_distrib)
  finally show "r < pow2 (int ?i - int ?j + 1)" .
qed

lemma exponent_bounds:
  assumes "0 < r"
  shows "pow2 (exponent r) \<le> r" and "r < pow2 (exponent r + 1)"
proof -
  obtain p q where pq: "quotient_of r = (p, q)" by (cases "quotient_of r")
  show "pow2 (exponent r) \<le> r" "r < pow2 (exponent r + 1)"
    using quotient_ilog2 [OF assms pq] pq by (auto simp: exponent_def Let_def)
qed

lemma pow2_less_imp: "pow2 a < pow2 b \<Longrightarrow> a < b"
  using pow2_le_mono [of b a] by force

lemma pow2_nat: "pow2 (int n) = 2 ^ n"
  by (simp add: pow2_def)

lemma exponent_le:
  assumes "0 < r" "r \<le> 2 ^ n" shows "exponent r \<le> int n"
proof -
  have "(2 :: rat) ^ n < 2 * 2 ^ n" by simp
  also have "\<dots> = pow2 (int n + 1)"
    unfolding pow2_add pow2_nat by (simp add: pow2_def)
  finally have "pow2 (exponent r) < pow2 (int n + 1)"
    using exponent_bounds(1) [OF assms(1)] assms(2) by simp
  then show ?thesis using pow2_less_imp by fastforce
qed

text \<open>No overflow below \<open>2 ^ 1022\<close>: the significand rounds to at most \<open>2 ^ 53\<close>.\<close>

lemma fl_pos_bound:
  assumes "0 < r" "r \<le> 2 ^ n" "n \<le> 1022"
  shows "fl_pos r < 2 ^ 1024"
proof -
  let ?e = "ulp_exponent r"
  have e: "?e \<le> 970" "exponent r + 1 \<le> 53 + ?e"
    using exponent_le [OF assms(1,2)] assms(3) by (auto simp: ulp_exponent_def)
  have "r \<le> pow2 (53 + ?e)"
    using exponent_bounds(2) [OF assms(1)] pow2_le_mono [OF e(2)] by simp
  then have "r / pow2 ?e \<le> of_int (2 ^ 53)"
    using pow2_add [of 53 ?e] pow2_nat [of 53] by (simp add: pos_divide_le_eq)
  then have "roundHalfEven (r / pow2 ?e) \<le> 2 ^ 53" by (rule roundHalfEven_le)
  then have "fl_pos r \<le> of_int (2 ^ 53) * pow2 ?e"
    unfolding fl_pos_def by (intro mult_right_mono) (simp_all add: less_imp_le del: of_int_power)
  also have "\<dots> \<le> pow2 (53 + 970)"
    using pow2_add [of 53 ?e] pow2_nat [of 53] pow2_le_mono [of "53 + ?e" "53 + 970"] e(1) by simp
  also have "\<dots> < 2 ^ 1024" by (simp add: pow2_def)
  finally show ?thesis .
qed

lemma fl_nonneg: "0 \<le> r \<Longrightarrow> fl r = PosInf \<or> (\<exists>v \<ge> 0. fl r = Fin v)"
  by (auto simp: fl_def fl_pos_nonneg)

lemma fl_finite:
  assumes "0 \<le> r" "r \<le> 2 ^ n" "n \<le> 1022"
  shows "\<exists>v \<ge> 0. fl r = Fin v"
proof (cases "r = 0")
  case True
  then show ?thesis by (simp add: fl_def)
next
  case False
  with assms have "0 < r" by simp
  then show ?thesis
    using fl_pos_bound [OF _ assms(2,3)] fl_pos_nonneg by (auto simp: fl_def not_le)
qed

text \<open>Integers up to \<open>2 ^ 53\<close> are doubles.\<close>

lemma fl_pos_int:
  assumes "0 < n" "n \<le> 2 ^ 53" shows "fl_pos (of_int n) = of_int n"
proof -
  let ?r = "of_int n :: rat" and ?e = "ulp_exponent (of_int n)"
  have r: "0 < ?r" "?r \<le> 2 ^ 53"
    using assms by (simp, metis of_int_le_iff of_int_numeral of_int_power)
  have k: "exponent ?r \<le> 53" using exponent_le [OF r] by simp
  have "\<exists>m. ?r / pow2 ?e = of_int m"
  proof (cases "exponent ?r \<le> 52")
    case True
    then have "?e \<le> 0" by (simp add: ulp_exponent_def)
    then have "?r / pow2 ?e = of_int (n * 2 ^ nat (- ?e))" by (simp add: pow2_def)
    then show ?thesis by blast
  next
    case False
    with k have ex: "exponent ?r = 53" by simp
    then have "?r = 2 ^ 53" using exponent_bounds(1) [OF r(1)] r(2) by (simp add: pow2_def)
    with ex have "?r / pow2 ?e = of_int (2 ^ 52)" by (simp add: ulp_exponent_def pow2_def)
    then show ?thesis by blast
  qed
  then obtain m where m: "?r / pow2 ?e = of_int m" by blast
  then have "fl_pos ?r = of_int m * pow2 ?e" by (simp add: fl_pos_def)
  also have "\<dots> = ?r" using m by (simp add: field_simps less_imp_neq [OF pow2_pos, symmetric])
  finally show ?thesis .
qed

lemma fl_int_exact:
  assumes "0 \<le> n" "n \<le> 2 ^ 53" shows "fl (of_int n) = Fin (of_int n)"
proof (cases "n = 0")
  case True
  then show ?thesis by (simp add: fl_def)
next
  case False
  have le: "(of_int n :: rat) \<le> 2 ^ 53"
    using assms(2) by (metis of_int_le_iff of_int_numeral of_int_power)
  have "fl_pos (of_int n) < 2 ^ 1024" using fl_pos_bound [OF _ le] False assms by simp
  with False assms show ?thesis by (simp add: fl_def fl_pos_int)
qed

section \<open>Facts about the operations\<close>

definition nonneg :: "jsnum \<Rightarrow> bool" where
  "nonneg x = (case x of Fin r \<Rightarrow> 0 \<le> r | PosInf \<Rightarrow> True | _ \<Rightarrow> False)"

lemma nonneg_simps [simp]:
  "nonneg (Fin r) \<longleftrightarrow> 0 \<le> r" "nonneg PosInf" "\<not> nonneg NegInf" "\<not> nonneg NaN"
  by (simp_all add: nonneg_def)

lemma nonneg_fl [simp]: "0 \<le> r \<Longrightarrow> nonneg (fl r)"
  using fl_nonneg by fastforce

lemma nonneg_js_add: "nonneg x \<Longrightarrow> nonneg y \<Longrightarrow> nonneg (js_add x y)"
  by (cases x; cases y) auto

lemma nonneg_js_mul: "0 \<le> a \<Longrightarrow> 0 \<le> b \<Longrightarrow> nonneg (js_mul (Fin a) (Fin b))"
  by simp

lemma number_toFixed2_nonneg: "nonneg x \<Longrightarrow> nonneg (number_toFixed2 x)"
  by (cases x) (auto simp: number_toFixed2_def hundredths_def)

text \<open>Rounding a finite amount to cents stays finite: it grows by less than one unit.\<close>

lemma number_toFixed2_finite:
  assumes "nonneg x" "isFinite x" shows "isFinite (number_toFixed2 x)"
proof (cases x)
  case (Fin r)
  with assms have r: "0 \<le> r" by simp
  show ?thesis
  proof (cases "10 ^ 21 \<le> r")
    case True
    with Fin r show ?thesis by (simp add: number_toFixed2_def)
  next
    case False
    let ?h = "of_int (hundredths r) / 100 :: rat"
    have "of_int (hundredths r) \<le> 100 * r + 1 / 2"
      unfolding hundredths_def by (rule of_int_floor_le)
    then have "?h \<le> 10 ^ 21 + 1" using False by simp
    also have "(10 ^ 21 + 1 :: rat) \<le> 2 ^ 80" by simp
    finally have h2: "?h \<le> 2 ^ 80" .
    have "0 \<le> ?h" using r by (simp add: hundredths_def)
    from fl_finite [OF this h2] obtain v where "fl ?h = Fin v" by auto
    with Fin r False show ?thesis by (simp add: number_toFixed2_def)
  qed
qed (use assms in auto)

lemma int_add_exact: "\<bar>a + b\<bar> \<le> 2 ^ 53 \<Longrightarrow> int_add a b = a + b"
  by (simp add: int_add_def)

lemma int_add_nonneg: "0 \<le> a \<Longrightarrow> 0 \<le> b \<Longrightarrow> 0 \<le> int_add a b"
  by (auto simp: int_add_def intro!: fl_pos_nonneg)

lemma roundHalfEven_ge_1: "1 \<le> x \<Longrightarrow> 1 \<le> roundHalfEven x"
  by (simp add: roundHalfEven_def Let_def le_floor_iff)

lemma fl_pos_ge_1:
  assumes "2 ^ 53 < r" shows "1 \<le> fl_pos r"
proof -
  have r: "0 < r" using assms less_trans [of 0 "2 ^ 53" r] by simp
  have "pow2 53 < pow2 (exponent r + 1)"
    using assms exponent_bounds(2) [OF r] pow2_nat [of 53] by simp
  then have e: "ulp_exponent r = exponent r - 52" "1 \<le> ulp_exponent r"
    using pow2_less_imp by (fastforce simp: ulp_exponent_def)+
  have "pow2 (ulp_exponent r) \<le> r"
    using pow2_le_mono [of "ulp_exponent r" "exponent r"] exponent_bounds(1) [OF r] e by simp
  then have "1 \<le> roundHalfEven (r / pow2 (ulp_exponent r))"
    by (intro roundHalfEven_ge_1) simp
  moreover have "1 \<le> pow2 (ulp_exponent r)"
    using pow2_le_mono [of 0 "ulp_exponent r"] e(2) by (simp add: pow2_def)
  ultimately show ?thesis unfolding fl_pos_def
    using mult_mono [of 1 "of_int (roundHalfEven (r / pow2 (ulp_exponent r)))" 1 "pow2 (ulp_exponent r)"]
    by simp
qed

lemma int_add_pos: "0 \<le> a \<Longrightarrow> 0 < b \<Longrightarrow> 0 < int_add a b"
proof -
  assume ab: "0 \<le> a" "0 < b"
  show ?thesis
  proof (cases "a + b \<le> 2 ^ 53")
    case True
    with ab show ?thesis by (simp add: int_add_def)
  next
    case False
    then have "(2 :: rat) ^ 53 < of_int (a + b)"
      by (metis not_le of_int_less_iff of_int_numeral of_int_power)
    from fl_pos_ge_1 [OF this] False ab show ?thesis
      by (simp add: int_add_def zero_less_floor)
  qed
qed

text \<open>Rounding stays between representable bounds.\<close>

lemma roundHalfEven_ge: "of_int k \<le> x \<Longrightarrow> k \<le> roundHalfEven x"
proof -
  assume "of_int k \<le> x"
  then have "k \<le> \<lfloor>x\<rfloor>" by (simp add: le_floor_iff)
  then show ?thesis by (auto simp: roundHalfEven_def Let_def)
qed

lemma fl_pos_le_int:
  assumes "0 < x" "x \<le> of_int n" "n \<le> 2 ^ 52" shows "fl_pos x \<le> of_int n"
proof -
  let ?e = "ulp_exponent x"
  have "(of_int n :: rat) \<le> 2 ^ 52" using assms(3) by (metis of_int_le_iff of_int_numeral of_int_power)
  then have "exponent x \<le> 52" using exponent_le [OF assms(1), of 52] assms(2) by simp
  then have "?e \<le> 0" by (simp add: ulp_exponent_def)
  then have n: "of_int n / pow2 ?e = of_int (n * 2 ^ nat (- ?e))" by (simp add: pow2_def)
  have "x / pow2 ?e \<le> of_int n / pow2 ?e" using assms(2) by (simp add: divide_right_mono less_imp_le)
  then have "roundHalfEven (x / pow2 ?e) \<le> n * 2 ^ nat (- ?e)" unfolding n by (rule roundHalfEven_le)
  then have "of_int (roundHalfEven (x / pow2 ?e)) \<le> of_int n / pow2 ?e" unfolding n of_int_le_iff .
  then show ?thesis by (simp add: fl_pos_def pos_le_divide_eq)
qed

lemma fl_pos_ge_half:
  assumes "0 < x" "of_int n / 2 \<le> x" "x \<le> of_int m" "m \<le> 2 ^ 51" shows "of_int n / 2 \<le> fl_pos x"
proof -
  let ?e = "ulp_exponent x"
  have "(of_int m :: rat) \<le> 2 ^ 51" using assms(4) by (metis of_int_le_iff of_int_numeral of_int_power)
  then have "exponent x \<le> 51" using exponent_le [OF assms(1), of 51] assms(3) by simp
  then have e: "?e \<le> - 1" by (simp add: ulp_exponent_def)
  then obtain k where k: "nat (- ?e) = Suc k" by (cases "nat (- ?e)") auto
  with e have n: "of_int n / 2 / pow2 ?e = of_int (n * 2 ^ k)" by (simp add: pow2_def)
  have "of_int n / 2 / pow2 ?e \<le> x / pow2 ?e"
    by (rule divide_right_mono [OF assms(2)]) (simp add: less_imp_le)
  then have "n * 2 ^ k \<le> roundHalfEven (x / pow2 ?e)" unfolding n by (rule roundHalfEven_ge)
  then have "of_int n / 2 / pow2 ?e \<le> of_int (roundHalfEven (x / pow2 ?e))" unfolding n of_int_le_iff .
  then show ?thesis by (simp add: fl_pos_def pos_divide_le_eq)
qed

lemma fl_between:
  assumes "0 \<le> x" "of_int n / 2 \<le> x" "x \<le> of_int m" "m \<le> 2 ^ 51" "0 \<le> n"
  shows "\<exists>v. fl x = Fin v \<and> 0 \<le> v \<and> of_int n / 2 \<le> v \<and> v \<le> of_int m"
proof (cases "x = 0")
  case True
  with assms show ?thesis by (simp add: fl_def)
next
  case False
  with assms have x: "0 < x" by simp
  have "(of_int m :: rat) \<le> 2 ^ 51" using assms(4) by (metis of_int_le_iff of_int_numeral of_int_power)
  then have "fl_pos x < 2 ^ 1024" using fl_pos_bound [OF x, of 51] assms(3) by simp
  moreover have "fl_pos x \<le> of_int m" using x assms(3,4) by (intro fl_pos_le_int) auto
  ultimately show ?thesis
    using x fl_pos_ge_half [OF x assms(2-4)] fl_pos_nonneg [OF x] by (simp add: fl_def not_le)
qed

end
