(* ===== verification/JsValue.thy ===== *)
theory JsValue
  imports JsNumber
begin

text \<open>
  JavaScript values as the program meets them at its boundaries (JSON bodies, message
  contents, log contexts), the string operations the source uses, and \<open>JSON.stringify\<close>.

  A string is a list of characters, each standing for one UTF-16 code unit below 256; the
  code never inspects a code unit above that range in a way these functions could tell apart.
\<close>

section \<open>Values\<close>

datatype js =
    JUndefined
  | JNull
  | JBool bool
  | JNum jsnum
  | JStr string
  | JArr "js list"
  | JObj "(string \<times> js) list"

text \<open>\<open>Reflect.get(value, key)\<close> on an object; \<open>undefined\<close> for anything without the property.\<close>

definition js_get :: "js \<Rightarrow> string \<Rightarrow> js" where
  "js_get v k =
     (case v of JObj fs \<Rightarrow> (case map_of fs k of Some x \<Rightarrow> x | None \<Rightarrow> JUndefined)
      | _ \<Rightarrow> JUndefined)"

text \<open>\<open>typeof v === "object" && v !== null && !Array.isArray(v)\<close>.\<close>

definition isRecord :: "js \<Rightarrow> bool" where
  "isRecord v = (case v of JObj _ \<Rightarrow> True | _ \<Rightarrow> False)"

definition js_string :: "js \<Rightarrow> string option" where
  "js_string v = (case v of JStr s \<Rightarrow> Some s | _ \<Rightarrow> None)"

lemma js_get_simps [simp]:
  "js_get (JObj fs) k = (case map_of fs k of Some x \<Rightarrow> x | None \<Rightarrow> JUndefined)"
  "js_get JUndefined k = JUndefined" "js_get JNull k = JUndefined"
  "js_get (JBool b) k = JUndefined" "js_get (JNum n) k = JUndefined"
  "js_get (JStr s) k = JUndefined" "js_get (JArr vs) k = JUndefined"
  by (simp_all add: js_get_def)

lemma isRecord_simps [simp]:
  "isRecord (JObj fs)" "\<not> isRecord JUndefined" "\<not> isRecord JNull" "\<not> isRecord (JBool b)"
  "\<not> isRecord (JNum n)" "\<not> isRecord (JStr s)" "\<not> isRecord (JArr vs)"
  by (simp_all add: isRecord_def)

lemma js_string_simps [simp]:
  "js_string (JStr s) = Some s" "js_string JUndefined = None" "js_string JNull = None"
  "js_string (JBool b) = None" "js_string (JNum n) = None" "js_string (JArr vs) = None"
  "js_string (JObj fs) = None"
  by (simp_all add: js_string_def)

section \<open>Strings\<close>

text \<open>White space and line terminators, as \<open>trim\<close> and the class \<open>\s\<close> of regular expressions see them.\<close>

definition is_space :: "char \<Rightarrow> bool" where
  "is_space c = ((of_char c :: nat) \<in> {9, 10, 11, 12, 13, 32, 160})"

definition trim :: "string \<Rightarrow> string" where
  "trim s = rev (dropWhile is_space (rev (dropWhile is_space s)))"

definition endsWith :: "string \<Rightarrow> string \<Rightarrow> bool" where
  "endsWith s suffix =
     (length suffix \<le> length s \<and> drop (length s - length suffix) s = suffix)"

definition startsWith :: "string \<Rightarrow> string \<Rightarrow> bool" where
  "startsWith s prefix = (take (length prefix) s = prefix)"

text \<open>\<open>s.slice(0, -n)\<close> for \<open>n > 0\<close>.\<close>

definition dropEnd :: "nat \<Rightarrow> string \<Rightarrow> string" where
  "dropEnd n s = take (length s - n) s"

fun join :: "string \<Rightarrow> string list \<Rightarrow> string" where
  "join sep [] = []"
| "join sep [s] = s"
| "join sep (s # t # ss) = s @ sep @ join sep (t # ss)"

definition digit_char :: "nat \<Rightarrow> char" where
  "digit_char d = char_of (48 + d)"

fun nat_text :: "nat \<Rightarrow> string" where
  "nat_text n = (if n < 10 then [digit_char n] else nat_text (n div 10) @ [digit_char (n mod 10)])"

declare nat_text.simps [simp del]

definition int_text :: "int \<Rightarrow> string" where
  "int_text i = (if i < 0 then ''-'' @ nat_text (nat (- i)) else nat_text (nat i))"

lemma endsWith_append [simp]: "endsWith (s @ t) t"
  by (simp add: endsWith_def)

lemma dropEnd_append [simp]: "dropEnd (length t) (s @ t) = s"
  by (simp add: dropEnd_def)

lemma endsWith_dropEnd: "endsWith s t \<Longrightarrow> dropEnd (length t) s @ t = s"
  by (metis append_take_drop_id dropEnd_def endsWith_def)

lemma dropWhile_none: "(\<forall>c \<in> set s. \<not> p c) \<Longrightarrow> dropWhile p s = s"
  by (cases s) auto

lemma trim_id: "(\<forall>c \<in> set s. \<not> is_space c) \<Longrightarrow> trim s = s"
  by (simp add: trim_def dropWhile_none)

text \<open>\<open>BigInt(text)\<close> of a decimal text.\<close>

definition BigInt_of :: "string \<Rightarrow> int" where
  "BigInt_of s = foldl (\<lambda>n c. 10 * n + (int (of_char c) - 48)) 0 s"

lemma digit_char_value: "d < 10 \<Longrightarrow> int (of_char (digit_char d)) - 48 = int d"
  by (simp add: digit_char_def)

lemma BigInt_of_snoc: "BigInt_of (s @ [c]) = 10 * BigInt_of s + (int (of_char c) - 48)"
  by (simp add: BigInt_of_def)

lemma BigInt_of_nat_text [simp]: "BigInt_of (nat_text n) = int n"
proof (induction n rule: nat_text.induct)
  case (1 n)
  show ?case
  proof (cases "n < 10")
    case True
    then show ?thesis using digit_char_value [OF True]
      by (simp add: nat_text.simps [of n] BigInt_of_def)
  next
    case False
    then have "BigInt_of (nat_text n) = 10 * int (n div 10) + int (n mod 10)"
      using 1 digit_char_value [of "n mod 10"]
      by (simp add: nat_text.simps [of n] BigInt_of_snoc del: digit_char_value)
    then show ?thesis by (metis mult_div_mod_eq of_nat_add of_nat_mult of_nat_numeral)
  qed
qed

lemma nat_text_inj: "nat_text m = nat_text n \<longleftrightarrow> m = n"
  by (metis BigInt_of_nat_text of_nat_eq_iff)

lemma nat_text_chars: "c \<in> set (nat_text n) \<Longrightarrow> 48 \<le> (of_char c :: nat) \<and> (of_char c :: nat) \<le> 57"
proof (induction n rule: nat_text.induct)
  case (1 n)
  have digit: "48 \<le> (of_char (digit_char d) :: nat) \<and> (of_char (digit_char d) :: nat) \<le> 57" if "d < 10" for d
    using that by (simp add: digit_char_def)
  from 1 show ?case
    by (subst (asm) (2) nat_text.simps) (auto simp: digit split: if_splits)
qed

lemma nat_text_nonempty [simp]: "nat_text n \<noteq> []"
  by (subst nat_text.simps) simp

lemma int_text_inj: "int_text m = int_text n \<longleftrightarrow> m = n"
proof -
  have minus: "nat_text k \<noteq> CHR ''-'' # s" for k s
    using nat_text_chars [of "CHR ''-''" k] by auto
  show ?thesis using minus minus [symmetric] by (auto simp: int_text_def nat_text_inj)
qed

lemma int_text_chars:
  "c \<in> set (int_text n) \<Longrightarrow> c = CHR ''-'' \<or> (48 \<le> (of_char c :: nat) \<and> (of_char c :: nat) \<le> 57)"
  by (auto simp: int_text_def dest: nat_text_chars split: if_splits)

section \<open>JSON.stringify\<close>

text \<open>
  The text of a value. Infinities and NaN print as \<open>null\<close>, an undefined property is left out
  and an undefined array element prints as \<open>null\<close>. How a finite number prints
  (\<open>Number::toString\<close>) is the argument \<open>num_text\<close>.
\<close>

definition escape_char :: "char \<Rightarrow> string" where
  "escape_char c =
     (let n = (of_char c :: nat)
      in if c = CHR 0x22 then [CHR 0x5C, CHR 0x22]
         else if c = CHR 0x5C then [CHR 0x5C, CHR 0x5C]
         else if n = 8 then CHR 0x5C # ''b''
         else if n = 9 then CHR 0x5C # ''t''
         else if n = 10 then CHR 0x5C # ''n''
         else if n = 12 then CHR 0x5C # ''f''
         else if n = 13 then CHR 0x5C # ''r''
         else if n < 32 then
           CHR 0x5C # ''u00'' @ [''0123456789abcdef'' ! (n div 16), ''0123456789abcdef'' ! (n mod 16)]
         else [c])"

definition quote_text :: "string \<Rightarrow> string" where
  "quote_text s = [CHR 0x22] @ concat (map escape_char s) @ [CHR 0x22]"

fun json_text :: "(rat \<Rightarrow> string) \<Rightarrow> js \<Rightarrow> string" where
  "json_text num_text JUndefined = ''null''"
| "json_text num_text JNull = ''null''"
| "json_text num_text (JBool b) = (if b then ''true'' else ''false'')"
| "json_text num_text (JNum n) = (case n of Fin r \<Rightarrow> num_text r | _ \<Rightarrow> ''null'')"
| "json_text num_text (JStr s) = quote_text s"
| "json_text num_text (JArr vs) = ''['' @ join '','' (map (json_text num_text) vs) @ '']''"
| "json_text num_text (JObj fs) =
     CHR 0x7B #
     join '','' (map (\<lambda>(k, v). quote_text k @ '':'' @ json_text num_text v)
       (filter (\<lambda>(k, v). v \<noteq> JUndefined) fs)) @
     [CHR 0x7D]"

text \<open>
  The value a consumer's \<open>JSON.parse\<close> gives back for \<open>JSON.stringify v\<close>: the text goes
  through unchanged except that non-finite numbers have become \<open>null\<close> and undefined
  properties are gone.
\<close>

fun json_wire :: "js \<Rightarrow> js" where
  "json_wire JUndefined = JNull"
| "json_wire (JNum n) = (if isFinite n then JNum n else JNull)"
| "json_wire (JArr vs) = JArr (map json_wire vs)"
| "json_wire (JObj fs) =
     JObj (map (\<lambda>(k, v). (k, json_wire v)) (filter (\<lambda>(k, v). v \<noteq> JUndefined) fs))"
| "json_wire v = v"

section \<open>Reading quoted text back\<close>

text \<open>
  The reading direction for strings, as \<open>JSON.parse\<close> does it: one escaped character, then a
  whole quoted string with the text that follows it. It shows that quoting loses nothing.
\<close>

definition hex_digits :: string where
  "hex_digits = ''0123456789abcdef''"

definition hex_value :: "char \<Rightarrow> nat" where
  "hex_value c = (let n = of_char c in if n < 58 then n - 48 else n - 87)"

fun unescape :: "string \<Rightarrow> (char \<times> string) option" where
  "unescape [] = None"
| "unescape (c # cs) =
     (if c \<noteq> CHR 0x5C then Some (c, cs)
      else case cs of
        [] \<Rightarrow> None
      | d # ds \<Rightarrow>
          if d = CHR ''b'' then Some (char_of (8 :: nat), ds)
          else if d = CHR ''t'' then Some (char_of (9 :: nat), ds)
          else if d = CHR ''n'' then Some (char_of (10 :: nat), ds)
          else if d = CHR ''f'' then Some (char_of (12 :: nat), ds)
          else if d = CHR ''r'' then Some (char_of (13 :: nat), ds)
          else if d = CHR ''u'' then
            (case ds of
               z1 # z2 # x # y # es \<Rightarrow> Some (char_of (16 * hex_value x + hex_value y), es)
             | _ \<Rightarrow> None)
          else Some (d, ds))"

fun unquote :: "nat \<Rightarrow> string \<Rightarrow> (string \<times> string) option" where
  "unquote 0 cs = None"
| "unquote (Suc n) cs =
     (case cs of
        [] \<Rightarrow> None
      | c # ds \<Rightarrow>
          if c = CHR 0x22 then Some ([], ds)
          else case unescape cs of
            None \<Rightarrow> None
          | Some (x, es) \<Rightarrow>
              (case unquote n es of None \<Rightarrow> None | Some (s, fs) \<Rightarrow> Some (x # s, fs)))"

lemma hex_value_nth: "i < 16 \<Longrightarrow> hex_value (''0123456789abcdef'' ! i) = i"
proof -
  have "\<forall>i \<in> set [0 ..< 16]. hex_value (''0123456789abcdef'' ! i) = i"
    by code_simp
  then show "i < 16 \<Longrightarrow> ?thesis" by simp
qed

lemma unescape_escape: "unescape (escape_char c @ xs) = Some (c, xs)"
proof -
  let ?n = "of_char c :: nat"
  have c: "char_of ?n = c" by simp
  have hex: "?n < 32 \<Longrightarrow> 16 * hex_value (''0123456789abcdef'' ! (?n div 16)) +
      hex_value (''0123456789abcdef'' ! (?n mod 16)) = ?n"
    by (subst (1 2) hex_value_nth) auto
  consider "c = CHR 0x22" | "c = CHR 0x5C" | "?n = 8" | "?n = 9" | "?n = 10" | "?n = 12" | "?n = 13"
    | "c \<noteq> CHR 0x22" "c \<noteq> CHR 0x5C" "?n < 32" "?n \<noteq> 8" "?n \<noteq> 9" "?n \<noteq> 10" "?n \<noteq> 12" "?n \<noteq> 13"
    | "c \<noteq> CHR 0x22" "c \<noteq> CHR 0x5C" "\<not> ?n < 32"
    by blast
  then show ?thesis
  proof cases
    case 8
    with hex show ?thesis by (simp add: escape_char_def Let_def)
  next
    case 9
    then show ?thesis by (simp add: escape_char_def Let_def)
  qed (use c in \<open>auto simp: escape_char_def Let_def\<close>)
qed

lemma escape_head: "\<exists>x xs. escape_char c = x # xs \<and> x \<noteq> CHR 0x22"
  by (auto simp: escape_char_def Let_def)

lemma unquote_escaped:
  "length s < n \<Longrightarrow> unquote n (concat (map escape_char s) @ CHR 0x22 # rest) = Some (s, rest)"
proof (induction s arbitrary: n)
  case Nil
  then show ?case by (cases n) auto
next
  case (Cons c s)
  then obtain m where n: "n = Suc m" "length s < m" by (cases n) auto
  obtain x xs where h: "escape_char c = x # xs" "x \<noteq> CHR 0x22" using escape_head by blast
  have u: "unescape (x # xs @ concat (map escape_char s) @ CHR 0x22 # rest) =
      Some (c, concat (map escape_char s) @ CHR 0x22 # rest)"
    using unescape_escape [of c "concat (map escape_char s) @ CHR 0x22 # rest"] h by simp
  show ?case using h n u Cons.IH [OF n(2)] by (simp del: unescape.simps)
qed

text \<open>A quoted string determines its content and where it ends.\<close>

lemma quote_text_cancel:
  assumes "quote_text s @ xs = quote_text t @ ys" shows "s = t \<and> xs = ys"
proof -
  let ?n = "Suc (length s + length t)"
  have "unquote ?n (concat (map escape_char s) @ CHR 0x22 # xs) = Some (s, xs)"
    by (rule unquote_escaped) simp
  moreover have "unquote ?n (concat (map escape_char t) @ CHR 0x22 # ys) = Some (t, ys)"
    by (rule unquote_escaped) simp
  moreover have "concat (map escape_char s) @ CHR 0x22 # xs = concat (map escape_char t) @ CHR 0x22 # ys"
    using assms by (simp add: quote_text_def)
  ultimately show ?thesis by simp
qed

lemma quote_text_inj: "quote_text s = quote_text t \<Longrightarrow> s = t"
  using quote_text_cancel [of s "[]" t "[]"] by simp

text \<open>So the text of an array of strings determines the array.\<close>

lemma quote_text_head: "quote_text s = CHR 0x22 # concat (map escape_char s) @ [CHR 0x22]"
  by (simp add: quote_text_def)

lemma join_quote_cancel:
  "join '','' (map quote_text ss) @ '']'' = join '','' (map quote_text ts) @ '']'' \<Longrightarrow> ss = ts"
proof (induction ss arbitrary: ts)
  case Nil
  then show ?case
    by (cases ts; cases "tl ts") (auto simp: quote_text_head)
next
  case (Cons s ss)
  have split: "join '','' (map quote_text (x # xs)) @ '']'' =
      quote_text x @ (if xs = [] then '']'' else CHR '','' # join '','' (map quote_text xs) @ '']'')" for x xs
    by (cases xs) auto
  from Cons.prems obtain t tt where ts: "ts = t # tt"
    by (cases ts; cases ss) (auto simp: quote_text_head)
  have "quote_text s @ (if ss = [] then '']'' else CHR '','' # join '','' (map quote_text ss) @ '']'') =
      quote_text t @ (if tt = [] then '']'' else CHR '','' # join '','' (map quote_text tt) @ '']'')"
    using Cons.prems unfolding ts split .
  from quote_text_cancel [OF this] Cons.IH [of tt] show ?case
    unfolding ts by (auto split: if_splits)
qed

lemma json_text_strings_inj:
  "json_text nt (JArr (map JStr ss)) = json_text nt (JArr (map JStr ts)) \<Longrightarrow> ss = ts"
proof -
  assume eq: "json_text nt (JArr (map JStr ss)) = json_text nt (JArr (map JStr ts))"
  have "map (json_text nt) (map JStr xs) = map quote_text xs" for xs
    by simp
  with eq have "join '','' (map quote_text ss) = join '','' (map quote_text ts)"
    by (simp del: map_map)
  then show ?thesis by (intro join_quote_cancel) simp
qed

end
