(* ===== verification/Contracts.thy ===== *)
theory Contracts
  imports JsValue
begin

text \<open>
  shared/contracts/src/events.ts and routing.ts: the event types, the envelope and the data
  of each event, the routing keys and the topology of consumer queues.
\<close>

section \<open>Events\<close>

datatype EventType =
    OrderCreated
  | PaymentAuthorized
  | InventoryReserved
  | InventoryReservationFailed
  | DeliveryBooked

fun eventType_text :: "EventType \<Rightarrow> string" where
  "eventType_text OrderCreated = ''OrderCreated''"
| "eventType_text PaymentAuthorized = ''PaymentAuthorized''"
| "eventType_text InventoryReserved = ''InventoryReserved''"
| "eventType_text InventoryReservationFailed = ''InventoryReservationFailed''"
| "eventType_text DeliveryBooked = ''DeliveryBooked''"

text \<open>The envelope, \<open>DomainEvent<TEventType, TData>\<close>.\<close>

record 'd DomainEvent =
  eventId :: string
  eventType :: EventType
  occurredAt :: string
  correlationId :: string
  event_data :: 'd

text \<open>
  A quantity has passed \<open>.int()\<close> and is an integer; a price is any JavaScript number.
\<close>

record OrderItem =
  productId :: string
  quantity :: int
  unitPrice :: jsnum

record OrderCreatedData =
  oc_orderId :: string
  oc_customerId :: string
  oc_items :: "OrderItem list"
  oc_totalAmount :: jsnum

type_synonym OrderCreatedEvent = "OrderCreatedData DomainEvent"

record PaymentAuthorizedData =
  pa_orderId :: string
  pa_paymentId :: string
  pa_amount :: jsnum
  pa_items :: "OrderItem list"

type_synonym PaymentAuthorizedEvent = "PaymentAuthorizedData DomainEvent"

record InventoryReservedData =
  ir_orderId :: string
  ir_reservationId :: string
  ir_items :: "OrderItem list"

type_synonym InventoryReservedEvent = "InventoryReservedData DomainEvent"

record UnavailableItem =
  ui_productId :: string
  requestedQuantity :: int
  availableQuantity :: int

record InventoryReservationFailedData =
  rf_orderId :: string
  rf_reason :: string
  unavailableItems :: "UnavailableItem list"

type_synonym InventoryReservationFailedEvent = "InventoryReservationFailedData DomainEvent"

record DeliveryBookedData =
  db_orderId :: string
  db_deliveryId :: string
  db_carrier :: string
  db_estimatedDeliveryDate :: string

type_synonym DeliveryBookedEvent = "DeliveryBookedData DomainEvent"

datatype CommerceEvent =
    OrderCreatedE OrderCreatedEvent
  | PaymentAuthorizedE PaymentAuthorizedEvent
  | InventoryReservedE InventoryReservedEvent
  | InventoryReservationFailedE InventoryReservationFailedEvent
  | DeliveryBookedE DeliveryBookedEvent

section \<open>Routing\<close>

text \<open>\<open>ROUTING_KEYS\<close> and \<open>getRoutingKey\<close>.\<close>

fun ROUTING_KEYS :: "EventType \<Rightarrow> string" where
  "ROUTING_KEYS OrderCreated = ''order.created''"
| "ROUTING_KEYS PaymentAuthorized = ''payment.authorized''"
| "ROUTING_KEYS InventoryReserved = ''inventory.reserved''"
| "ROUTING_KEYS InventoryReservationFailed = ''inventory.reservation.failed''"
| "ROUTING_KEYS DeliveryBooked = ''delivery.booked''"

definition getRoutingKey :: "EventType \<Rightarrow> string" where
  "getRoutingKey t = ROUTING_KEYS t"

record QueueBinding =
  queueName :: string
  routingKeys :: "string list"

definition paymentOrderCreated :: QueueBinding where
  "paymentOrderCreated =
     \<lparr>queueName = ''payment-service.order-created'', routingKeys = [ROUTING_KEYS OrderCreated]\<rparr>"

definition inventoryPaymentAuthorized :: QueueBinding where
  "inventoryPaymentAuthorized =
     \<lparr>queueName = ''inventory-service.payment-authorized'',
      routingKeys = [ROUTING_KEYS PaymentAuthorized]\<rparr>"

definition deliveryInventoryReserved :: QueueBinding where
  "deliveryInventoryReserved =
     \<lparr>queueName = ''delivery-service.inventory-reserved'',
      routingKeys = [ROUTING_KEYS InventoryReserved]\<rparr>"

definition notificationCustomerEvents :: QueueBinding where
  "notificationCustomerEvents =
     \<lparr>queueName = ''notification-service.customer-events'',
      routingKeys = [ROUTING_KEYS DeliveryBooked, ROUTING_KEYS InventoryReservationFailed]\<rparr>"

definition orderWorkflowEvents :: QueueBinding where
  "orderWorkflowEvents =
     \<lparr>queueName = ''order-service.order-events'',
      routingKeys =
        [ROUTING_KEYS PaymentAuthorized, ROUTING_KEYS InventoryReserved,
         ROUTING_KEYS InventoryReservationFailed, ROUTING_KEYS DeliveryBooked]\<rparr>"

definition COMMERCE_TOPOLOGY :: "QueueBinding list" where
  "COMMERCE_TOPOLOGY =
     [paymentOrderCreated, inventoryPaymentAuthorized, deliveryInventoryReserved,
      notificationCustomerEvents, orderWorkflowEvents]"

lemmas queue_defs =
  paymentOrderCreated_def inventoryPaymentAuthorized_def deliveryInventoryReserved_def
  notificationCustomerEvents_def orderWorkflowEvents_def

text \<open>
  The queues a message with routing key \<open>k\<close> is routed to. The exchange is a topic exchange,
  and none of the bound keys contains a wildcard, so a binding matches exactly its own key.
\<close>

definition queues_of_key :: "string \<Rightarrow> string list" where
  "queues_of_key k = map queueName (filter (\<lambda>q. k \<in> set (routingKeys q)) COMMERCE_TOPOLOGY)"

text \<open>Every service that consumes an event type, by queue (the table in the README).\<close>

fun consumer_queues :: "EventType \<Rightarrow> string list" where
  "consumer_queues OrderCreated = [''payment-service.order-created'']"
| "consumer_queues PaymentAuthorized =
     [''inventory-service.payment-authorized'', ''order-service.order-events'']"
| "consumer_queues InventoryReserved =
     [''delivery-service.inventory-reserved'', ''order-service.order-events'']"
| "consumer_queues InventoryReservationFailed =
     [''notification-service.customer-events'', ''order-service.order-events'']"
| "consumer_queues DeliveryBooked =
     [''notification-service.customer-events'', ''order-service.order-events'']"

lemma eventType_text_inj: "eventType_text s = eventType_text t \<longleftrightarrow> s = t"
  by (cases s; cases t) simp_all

lemma getRoutingKey_inj: "getRoutingKey s = getRoutingKey t \<longleftrightarrow> s = t"
  by (cases s; cases t) (simp_all add: getRoutingKey_def)

lemma topology_queueNames_distinct: "distinct (map queueName COMMERCE_TOPOLOGY)"
  by (simp add: COMMERCE_TOPOLOGY_def queue_defs)

end
