(* ===== verification/Zod.thy ===== *)
theory Zod
  imports JsValue
begin

text \<open>
  The schema language of zod as the source uses it. A schema is data: the constructors are
  the combinators the source calls. What zod does with a schema is an argument of the
  definitions that parse (\<open>zod_parse\<close>, with the two ISO string checks), and
  \<open>zod_documented\<close> states the documented behaviour the code relies on. \<open>zod_ref\<close> is
  an interpreter that behaves as documented; it shows that the hypothesis can hold and serves
  the witnesses.
\<close>

section \<open>Schemas\<close>

datatype zcheck = ZInt | ZPositive | ZNonnegative | ZMaxValue int

datatype zschema =
    ZString "nat option" "nat option"
  | ZLiteral string
  | ZIsoDatetime
  | ZIsoDate
  | ZNumber "zcheck list"
  | ZArray zschema "nat option" "nat option"
  | ZObject "(string \<times> zschema) list"
  | ZRefine zschema "js \<Rightarrow> bool"

record zod_lib =
  zod_parse :: "zschema \<Rightarrow> js \<Rightarrow> js option"
  iso_datetime :: "string \<Rightarrow> bool"
  iso_date :: "string \<Rightarrow> bool"

section \<open>Documented behaviour\<close>

definition len_within :: "nat option \<Rightarrow> nat option \<Rightarrow> nat \<Rightarrow> bool" where
  "len_within mn mx n =
     ((case mn of None \<Rightarrow> True | Some a \<Rightarrow> a \<le> n) \<and> (case mx of None \<Rightarrow> True | Some b \<Rightarrow> n \<le> b))"

text \<open>\<open>.int()\<close> accepts safe integers; every number schema refuses infinities and NaN.\<close>

fun check_number :: "zcheck \<Rightarrow> rat \<Rightarrow> bool" where
  "check_number ZInt r = (of_int \<lfloor>r\<rfloor> = r \<and> \<bar>r\<bar> \<le> 2 ^ 53 - 1)"
| "check_number ZPositive r = (0 < r)"
| "check_number ZNonnegative r = (0 \<le> r)"
| "check_number (ZMaxValue m) r = (r \<le> of_int m)"

fun mapM_option :: "('a \<Rightarrow> 'b option) \<Rightarrow> 'a list \<Rightarrow> 'b list option" where
  "mapM_option f [] = Some []"
| "mapM_option f (x # xs) =
     (case f x of None \<Rightarrow> None
      | Some y \<Rightarrow> (case mapM_option f xs of None \<Rightarrow> None | Some ys \<Rightarrow> Some (y # ys)))"

text \<open>
  An object schema reads each of its own keys, and only those: unknown properties are dropped.
\<close>

definition zod_documented :: "zod_lib \<Rightarrow> bool" where
  "zod_documented z \<longleftrightarrow>
     (\<forall>mn mx v. zod_parse z (ZString mn mx) v =
        (case v of JStr s \<Rightarrow> if len_within mn mx (length s) then Some v else None | _ \<Rightarrow> None)) \<and>
     (\<forall>l v. zod_parse z (ZLiteral l) v = (if v = JStr l then Some v else None)) \<and>
     (\<forall>v. zod_parse z ZIsoDatetime v =
        (case v of JStr s \<Rightarrow> if iso_datetime z s then Some v else None | _ \<Rightarrow> None)) \<and>
     (\<forall>v. zod_parse z ZIsoDate v =
        (case v of JStr s \<Rightarrow> if iso_date z s then Some v else None | _ \<Rightarrow> None)) \<and>
     (\<forall>cs v. zod_parse z (ZNumber cs) v =
        (case v of JNum (Fin r) \<Rightarrow> if list_all (\<lambda>c. check_number c r) cs then Some v else None
         | _ \<Rightarrow> None)) \<and>
     (\<forall>s mn mx v. zod_parse z (ZArray s mn mx) v =
        (case v of JArr xs \<Rightarrow>
           if len_within mn mx (length xs) then map_option JArr (mapM_option (zod_parse z s) xs) else None
         | _ \<Rightarrow> None)) \<and>
     (\<forall>fs v. zod_parse z (ZObject fs) v =
        (case v of JObj _ \<Rightarrow>
           map_option JObj
             (mapM_option (\<lambda>(k, s). map_option (Pair k) (zod_parse z s (js_get v k))) fs)
         | _ \<Rightarrow> None)) \<and>
     (\<forall>s p v. zod_parse z (ZRefine s p) v =
        (case zod_parse z s v of None \<Rightarrow> None | Some w \<Rightarrow> if p w then Some w else None))"

named_theorems zod_simps \<open>the documented equations of zod\<close>

lemma zod_documented_eqs [zod_simps]:
  assumes "zod_documented z"
  shows "zod_parse z (ZString mn mx) v =
      (case v of JStr s \<Rightarrow> if len_within mn mx (length s) then Some v else None | _ \<Rightarrow> None)"
    and "zod_parse z (ZLiteral l) v = (if v = JStr l then Some v else None)"
    and "zod_parse z ZIsoDatetime v =
      (case v of JStr s \<Rightarrow> if iso_datetime z s then Some v else None | _ \<Rightarrow> None)"
    and "zod_parse z ZIsoDate v =
      (case v of JStr s \<Rightarrow> if iso_date z s then Some v else None | _ \<Rightarrow> None)"
    and "zod_parse z (ZNumber cs) v =
      (case v of JNum (Fin r) \<Rightarrow> if list_all (\<lambda>c. check_number c r) cs then Some v else None
       | _ \<Rightarrow> None)"
    and "zod_parse z (ZArray s mn mx) v =
      (case v of JArr xs \<Rightarrow>
         if len_within mn mx (length xs) then map_option JArr (mapM_option (zod_parse z s) xs) else None
       | _ \<Rightarrow> None)"
    and "zod_parse z (ZObject fs) v =
      (case v of JObj _ \<Rightarrow>
         map_option JObj (mapM_option (\<lambda>(k, s). map_option (Pair k) (zod_parse z s (js_get v k))) fs)
       | _ \<Rightarrow> None)"
    and "zod_parse z (ZRefine s p) v =
      (case zod_parse z s v of None \<Rightarrow> None | Some w \<Rightarrow> if p w then Some w else None)"
  using assms unfolding zod_documented_def by blast+

section \<open>An interpreter with the documented behaviour\<close>

fun zod_ref :: "(string \<Rightarrow> bool) \<Rightarrow> (string \<Rightarrow> bool) \<Rightarrow> zschema \<Rightarrow> js \<Rightarrow> js option"
  and zod_fields :: "(string \<Rightarrow> bool) \<Rightarrow> (string \<Rightarrow> bool) \<Rightarrow> (string \<times> zschema) list \<Rightarrow> js \<Rightarrow>
    (string \<times> js) list option" where
  "zod_ref dt d (ZString mn mx) v =
     (case v of JStr s \<Rightarrow> if len_within mn mx (length s) then Some v else None | _ \<Rightarrow> None)"
| "zod_ref dt d (ZLiteral l) v = (if v = JStr l then Some v else None)"
| "zod_ref dt d ZIsoDatetime v = (case v of JStr s \<Rightarrow> if dt s then Some v else None | _ \<Rightarrow> None)"
| "zod_ref dt d ZIsoDate v = (case v of JStr s \<Rightarrow> if d s then Some v else None | _ \<Rightarrow> None)"
| "zod_ref dt d (ZNumber cs) v =
     (case v of JNum (Fin r) \<Rightarrow> if list_all (\<lambda>c. check_number c r) cs then Some v else None | _ \<Rightarrow> None)"
| "zod_ref dt d (ZArray s mn mx) v =
     (case v of JArr xs \<Rightarrow>
        if len_within mn mx (length xs) then map_option JArr (mapM_option (zod_ref dt d s) xs) else None
      | _ \<Rightarrow> None)"
| "zod_ref dt d (ZObject fs) v =
     (case v of JObj _ \<Rightarrow> map_option JObj (zod_fields dt d fs v) | _ \<Rightarrow> None)"
| "zod_ref dt d (ZRefine s p) v =
     (case zod_ref dt d s v of None \<Rightarrow> None | Some w \<Rightarrow> if p w then Some w else None)"
| "zod_fields dt d [] v = Some []"
| "zod_fields dt d ((k, s) # fs) v =
     (case zod_ref dt d s (js_get v k) of None \<Rightarrow> None
      | Some x \<Rightarrow> (case zod_fields dt d fs v of None \<Rightarrow> None | Some xs \<Rightarrow> Some ((k, x) # xs)))"

definition zod_lib_ref :: "(string \<Rightarrow> bool) \<Rightarrow> (string \<Rightarrow> bool) \<Rightarrow> zod_lib" where
  "zod_lib_ref dt d = \<lparr>zod_parse = zod_ref dt d, iso_datetime = dt, iso_date = d\<rparr>"

lemma zod_fields_mapM:
  "zod_fields dt d fs v =
     mapM_option (\<lambda>(k, s). map_option (Pair k) (zod_ref dt d s (js_get v k))) fs"
  by (induction fs) (auto split: option.splits)

lemma zod_lib_ref_documented: "zod_documented (zod_lib_ref dt d)"
  unfolding zod_documented_def zod_lib_ref_def
  by (intro conjI allI) (simp_all add: zod_fields_mapM split: js.split)

section \<open>Facts\<close>

lemma len_within_simps [simp]:
  "len_within None None n" "len_within (Some a) None n \<longleftrightarrow> a \<le> n" "len_within None (Some b) n \<longleftrightarrow> n \<le> b"
  "len_within (Some a) (Some b) n \<longleftrightarrow> a \<le> n \<and> n \<le> b"
  by (simp_all add: len_within_def)

lemma mapM_option_map:
  "(\<And>x. x \<in> set xs \<Longrightarrow> f (g x) = Some (h x)) \<Longrightarrow> mapM_option f (map g xs) = Some (map h xs)"
  by (induction xs) auto

lemma mapM_option_mono:
  assumes "mapM_option f xs = Some ys" and "\<And>x y. x \<in> set xs \<Longrightarrow> f x = Some y \<Longrightarrow> P y"
  shows "\<forall>y \<in> set ys. P y"
  using assms
proof (induction xs arbitrary: ys)
  case (Cons a xs)
  then obtain b bs where b: "f a = Some b" "mapM_option f xs = Some bs" "ys = b # bs"
    by (auto split: option.splits)
  with Cons show ?case by (metis list.set_intros set_ConsD)
qed simp

lemma mapM_option_if:
  assumes "\<And>x. f (g x) = (if P x then Some (h x) else None)"
  shows "mapM_option f (map g xs) = (if list_all P xs then Some (map h xs) else None)"
  using assms by (induction xs) auto

lemma mapM_option_image:
  assumes "mapM_option f xs = Some ys" and "\<And>x y. f x = Some y \<Longrightarrow> \<exists>i. P i \<and> y = g i"
  shows "\<exists>is. list_all P is \<and> ys = map g is \<and> length is = length xs"
  using assms(1)
proof (induction xs arbitrary: ys)
  case (Cons a xs)
  then obtain b bs where b: "f a = Some b" "mapM_option f xs = Some bs" "ys = b # bs"
    by (auto split: option.splits)
  obtain i where "P i" "b = g i" using assms(2) [OF b(1)] by blast
  moreover obtain js where "list_all P js" "bs = map g js" "length js = length xs"
    using Cons.IH [OF b(2)] by blast
  ultimately have "list_all P (i # js) \<and> ys = map g (i # js) \<and> length (i # js) = length (a # xs)"
    using b(3) by simp
  then show ?case by blast
qed simp

end
