(* ===== verification/Schemas.thy ===== *)
theory Schemas
  imports Contracts Zod
begin

text \<open>
  shared/contracts/src/schemas.ts: the runtime schemas of the five events and their parsers,
  with the JSON form of each event (what \<open>JSON.stringify\<close> of the producer's object literal
  holds) and the reading of a parsed value as a typed record.
\<close>

section \<open>Schemas\<close>

definition EVENT_IDENTIFIER_MAX_LENGTH :: nat where
  "EVENT_IDENTIFIER_MAX_LENGTH = 200"

definition identifierSchema :: zschema where
  "identifierSchema = ZString (Some 1) (Some EVENT_IDENTIFIER_MAX_LENGTH)"

definition orderItemSchema :: zschema where
  "orderItemSchema = ZObject
     [(''productId'', identifierSchema),
      (''quantity'', ZNumber [ZInt, ZPositive]),
      (''unitPrice'', ZNumber [ZNonnegative])]"

definition eventEnvelope :: "string \<Rightarrow> zschema \<Rightarrow> zschema" where
  "eventEnvelope event_type data_schema = ZObject
     [(''eventId'', identifierSchema),
      (''eventType'', ZLiteral event_type),
      (''occurredAt'', ZIsoDatetime),
      (''correlationId'', identifierSchema),
      (''data'', data_schema)]"

definition orderCreatedEventSchema :: zschema where
  "orderCreatedEventSchema = eventEnvelope ''OrderCreated'' (ZObject
     [(''orderId'', identifierSchema),
      (''customerId'', identifierSchema),
      (''items'', ZArray orderItemSchema (Some 1) None),
      (''totalAmount'', ZNumber [ZNonnegative])])"

definition paymentAuthorizedEventSchema :: zschema where
  "paymentAuthorizedEventSchema = eventEnvelope ''PaymentAuthorized'' (ZObject
     [(''orderId'', identifierSchema),
      (''paymentId'', identifierSchema),
      (''amount'', ZNumber [ZNonnegative]),
      (''items'', ZArray orderItemSchema (Some 1) None)])"

definition inventoryReservedEventSchema :: zschema where
  "inventoryReservedEventSchema = eventEnvelope ''InventoryReserved'' (ZObject
     [(''orderId'', identifierSchema),
      (''reservationId'', identifierSchema),
      (''items'', ZArray orderItemSchema (Some 1) None)])"

definition unavailableItemSchema :: zschema where
  "unavailableItemSchema = ZObject
     [(''productId'', identifierSchema),
      (''requestedQuantity'', ZNumber [ZInt, ZPositive]),
      (''availableQuantity'', ZNumber [ZInt, ZNonnegative])]"

definition inventoryReservationFailedEventSchema :: zschema where
  "inventoryReservationFailedEventSchema = eventEnvelope ''InventoryReservationFailed'' (ZObject
     [(''orderId'', identifierSchema),
      (''reason'', ZString None None),
      (''unavailableItems'', ZArray unavailableItemSchema None None)])"

definition deliveryBookedEventSchema :: zschema where
  "deliveryBookedEventSchema = eventEnvelope ''DeliveryBooked'' (ZObject
     [(''orderId'', identifierSchema),
      (''deliveryId'', identifierSchema),
      (''carrier'', ZString (Some 1) None),
      (''estimatedDeliveryDate'', ZIsoDate)])"

lemmas schema_defs =
  EVENT_IDENTIFIER_MAX_LENGTH_def identifierSchema_def orderItemSchema_def eventEnvelope_def
  orderCreatedEventSchema_def paymentAuthorizedEventSchema_def inventoryReservedEventSchema_def
  unavailableItemSchema_def inventoryReservationFailedEventSchema_def deliveryBookedEventSchema_def

section \<open>Events as JSON\<close>

definition int_js :: "int \<Rightarrow> js" where
  "int_js n = JNum (Fin (of_int n))"

definition item_js :: "OrderItem \<Rightarrow> js" where
  "item_js i = JObj
     [(''productId'', JStr (productId i)), (''quantity'', int_js (quantity i)),
      (''unitPrice'', JNum (unitPrice i))]"

definition envelope_js :: "('d \<Rightarrow> js) \<Rightarrow> 'd DomainEvent \<Rightarrow> js" where
  "envelope_js data_js e = JObj
     [(''eventId'', JStr (eventId e)), (''eventType'', JStr (eventType_text (eventType e))),
      (''occurredAt'', JStr (occurredAt e)), (''correlationId'', JStr (correlationId e)),
      (''data'', data_js (event_data e))]"

definition orderCreated_js :: "OrderCreatedEvent \<Rightarrow> js" where
  "orderCreated_js = envelope_js (\<lambda>d. JObj
     [(''orderId'', JStr (oc_orderId d)), (''customerId'', JStr (oc_customerId d)),
      (''items'', JArr (map item_js (oc_items d))), (''totalAmount'', JNum (oc_totalAmount d))])"

definition paymentAuthorized_js :: "PaymentAuthorizedEvent \<Rightarrow> js" where
  "paymentAuthorized_js = envelope_js (\<lambda>d. JObj
     [(''orderId'', JStr (pa_orderId d)), (''paymentId'', JStr (pa_paymentId d)),
      (''amount'', JNum (pa_amount d)), (''items'', JArr (map item_js (pa_items d)))])"

definition inventoryReserved_js :: "InventoryReservedEvent \<Rightarrow> js" where
  "inventoryReserved_js = envelope_js (\<lambda>d. JObj
     [(''orderId'', JStr (ir_orderId d)), (''reservationId'', JStr (ir_reservationId d)),
      (''items'', JArr (map item_js (ir_items d)))])"

definition unavailable_js :: "UnavailableItem \<Rightarrow> js" where
  "unavailable_js u = JObj
     [(''productId'', JStr (ui_productId u)), (''requestedQuantity'', int_js (requestedQuantity u)),
      (''availableQuantity'', int_js (availableQuantity u))]"

definition reservationFailed_js :: "InventoryReservationFailedEvent \<Rightarrow> js" where
  "reservationFailed_js = envelope_js (\<lambda>d. JObj
     [(''orderId'', JStr (rf_orderId d)), (''reason'', JStr (rf_reason d)),
      (''unavailableItems'', JArr (map unavailable_js (unavailableItems d)))])"

definition deliveryBooked_js :: "DeliveryBookedEvent \<Rightarrow> js" where
  "deliveryBooked_js = envelope_js (\<lambda>d. JObj
     [(''orderId'', JStr (db_orderId d)), (''deliveryId'', JStr (db_deliveryId d)),
      (''carrier'', JStr (db_carrier d)),
      (''estimatedDeliveryDate'', JStr (db_estimatedDeliveryDate d))])"

lemmas event_js_defs =
  int_js_def item_js_def envelope_js_def orderCreated_js_def paymentAuthorized_js_def
  inventoryReserved_js_def unavailable_js_def reservationFailed_js_def deliveryBooked_js_def

section \<open>Reading parsed values\<close>

text \<open>
  A parsed value has the type its schema declares; these readers are that typing. They are
  applied to successfully parsed values only, and the other cases are never reached.
\<close>

definition read_string :: "js \<Rightarrow> string" where
  "read_string v = (case v of JStr s \<Rightarrow> s | _ \<Rightarrow> [])"

definition read_num :: "js \<Rightarrow> jsnum" where
  "read_num v = (case v of JNum n \<Rightarrow> n | _ \<Rightarrow> NaN)"

definition read_int :: "js \<Rightarrow> int" where
  "read_int v = (case v of JNum (Fin r) \<Rightarrow> \<lfloor>r\<rfloor> | _ \<Rightarrow> 0)"

definition read_list :: "(js \<Rightarrow> 'a) \<Rightarrow> js \<Rightarrow> 'a list" where
  "read_list f v = (case v of JArr xs \<Rightarrow> map f xs | _ \<Rightarrow> [])"

definition read_item :: "js \<Rightarrow> OrderItem" where
  "read_item v = \<lparr>productId = read_string (js_get v ''productId''),
     quantity = read_int (js_get v ''quantity''), unitPrice = read_num (js_get v ''unitPrice'')\<rparr>"

definition read_unavailable :: "js \<Rightarrow> UnavailableItem" where
  "read_unavailable v = \<lparr>ui_productId = read_string (js_get v ''productId''),
     requestedQuantity = read_int (js_get v ''requestedQuantity''),
     availableQuantity = read_int (js_get v ''availableQuantity'')\<rparr>"

definition read_envelope :: "EventType \<Rightarrow> (js \<Rightarrow> 'd) \<Rightarrow> js \<Rightarrow> 'd DomainEvent" where
  "read_envelope t read_data v = \<lparr>eventId = read_string (js_get v ''eventId''), eventType = t,
     occurredAt = read_string (js_get v ''occurredAt''),
     correlationId = read_string (js_get v ''correlationId''),
     event_data = read_data (js_get v ''data'')\<rparr>"

lemmas read_defs =
  read_string_def read_num_def read_int_def read_list_def read_item_def read_unavailable_def
  read_envelope_def

section \<open>The parsers\<close>

text \<open>\<open>schema.parse\<close> throws a \<open>ZodError\<close> when the value does not match.\<close>

definition parse_or_throw :: "zod_lib \<Rightarrow> zschema \<Rightarrow> (js \<Rightarrow> 'e) \<Rightarrow> js \<Rightarrow> js_error + 'e" where
  "parse_or_throw z schema read_event v =
     (case zod_parse z schema v of
        None \<Rightarrow> Inl (JsError ''ZodError'')
      | Some w \<Rightarrow> Inr (read_event w))"

definition parseOrderCreatedEvent :: "zod_lib \<Rightarrow> js \<Rightarrow> js_error + OrderCreatedEvent" where
  "parseOrderCreatedEvent z = parse_or_throw z orderCreatedEventSchema
     (read_envelope OrderCreated (\<lambda>d.
        \<lparr>oc_orderId = read_string (js_get d ''orderId''),
         oc_customerId = read_string (js_get d ''customerId''),
         oc_items = read_list read_item (js_get d ''items''),
         oc_totalAmount = read_num (js_get d ''totalAmount'')\<rparr>))"

definition parsePaymentAuthorizedEvent :: "zod_lib \<Rightarrow> js \<Rightarrow> js_error + PaymentAuthorizedEvent" where
  "parsePaymentAuthorizedEvent z = parse_or_throw z paymentAuthorizedEventSchema
     (read_envelope PaymentAuthorized (\<lambda>d.
        \<lparr>pa_orderId = read_string (js_get d ''orderId''),
         pa_paymentId = read_string (js_get d ''paymentId''),
         pa_amount = read_num (js_get d ''amount''),
         pa_items = read_list read_item (js_get d ''items'')\<rparr>))"

definition parseInventoryReservedEvent :: "zod_lib \<Rightarrow> js \<Rightarrow> js_error + InventoryReservedEvent" where
  "parseInventoryReservedEvent z = parse_or_throw z inventoryReservedEventSchema
     (read_envelope InventoryReserved (\<lambda>d.
        \<lparr>ir_orderId = read_string (js_get d ''orderId''),
         ir_reservationId = read_string (js_get d ''reservationId''),
         ir_items = read_list read_item (js_get d ''items'')\<rparr>))"

definition parseInventoryReservationFailedEvent ::
    "zod_lib \<Rightarrow> js \<Rightarrow> js_error + InventoryReservationFailedEvent" where
  "parseInventoryReservationFailedEvent z = parse_or_throw z inventoryReservationFailedEventSchema
     (read_envelope InventoryReservationFailed (\<lambda>d.
        \<lparr>rf_orderId = read_string (js_get d ''orderId''),
         rf_reason = read_string (js_get d ''reason''),
         unavailableItems = read_list read_unavailable (js_get d ''unavailableItems'')\<rparr>))"

definition parseDeliveryBookedEvent :: "zod_lib \<Rightarrow> js \<Rightarrow> js_error + DeliveryBookedEvent" where
  "parseDeliveryBookedEvent z = parse_or_throw z deliveryBookedEventSchema
     (read_envelope DeliveryBooked (\<lambda>d.
        \<lparr>db_orderId = read_string (js_get d ''orderId''),
         db_deliveryId = read_string (js_get d ''deliveryId''),
         db_carrier = read_string (js_get d ''carrier''),
         db_estimatedDeliveryDate = read_string (js_get d ''estimatedDeliveryDate'')\<rparr>))"

lemmas parser_defs =
  parseOrderCreatedEvent_def parsePaymentAuthorizedEvent_def parseInventoryReservedEvent_def
  parseInventoryReservationFailedEvent_def parseDeliveryBookedEvent_def

section \<open>Which events a consumer accepts\<close>

definition valid_identifier :: "string \<Rightarrow> bool" where
  "valid_identifier s = (1 \<le> length s \<and> length s \<le> 200)"

definition valid_amount :: "jsnum \<Rightarrow> bool" where
  "valid_amount n = (nonneg n \<and> isFinite n)"

definition valid_item :: "OrderItem \<Rightarrow> bool" where
  "valid_item i = (valid_identifier (productId i) \<and> 0 < quantity i \<and> quantity i \<le> 2 ^ 53 - 1
     \<and> valid_amount (unitPrice i))"

definition valid_items :: "OrderItem list \<Rightarrow> bool" where
  "valid_items is = (is \<noteq> [] \<and> list_all valid_item is)"

definition valid_unavailable :: "UnavailableItem \<Rightarrow> bool" where
  "valid_unavailable u = (valid_identifier (ui_productId u)
     \<and> 0 < requestedQuantity u \<and> requestedQuantity u \<le> 2 ^ 53 - 1
     \<and> 0 \<le> availableQuantity u \<and> availableQuantity u \<le> 2 ^ 53 - 1)"

definition valid_envelope :: "zod_lib \<Rightarrow> EventType \<Rightarrow> 'd DomainEvent \<Rightarrow> bool" where
  "valid_envelope z t e = (eventType e = t \<and> valid_identifier (eventId e)
     \<and> iso_datetime z (occurredAt e) \<and> valid_identifier (correlationId e))"

definition valid_OrderCreated :: "zod_lib \<Rightarrow> OrderCreatedEvent \<Rightarrow> bool" where
  "valid_OrderCreated z e = (valid_envelope z OrderCreated e
     \<and> valid_identifier (oc_orderId (event_data e)) \<and> valid_identifier (oc_customerId (event_data e))
     \<and> valid_items (oc_items (event_data e)) \<and> valid_amount (oc_totalAmount (event_data e)))"

definition valid_PaymentAuthorized :: "zod_lib \<Rightarrow> PaymentAuthorizedEvent \<Rightarrow> bool" where
  "valid_PaymentAuthorized z e = (valid_envelope z PaymentAuthorized e
     \<and> valid_identifier (pa_orderId (event_data e)) \<and> valid_identifier (pa_paymentId (event_data e))
     \<and> valid_amount (pa_amount (event_data e)) \<and> valid_items (pa_items (event_data e)))"

definition valid_InventoryReserved :: "zod_lib \<Rightarrow> InventoryReservedEvent \<Rightarrow> bool" where
  "valid_InventoryReserved z e = (valid_envelope z InventoryReserved e
     \<and> valid_identifier (ir_orderId (event_data e)) \<and> valid_identifier (ir_reservationId (event_data e))
     \<and> valid_items (ir_items (event_data e)))"

definition valid_ReservationFailed :: "zod_lib \<Rightarrow> InventoryReservationFailedEvent \<Rightarrow> bool" where
  "valid_ReservationFailed z e = (valid_envelope z InventoryReservationFailed e
     \<and> valid_identifier (rf_orderId (event_data e))
     \<and> list_all valid_unavailable (unavailableItems (event_data e)))"

definition valid_DeliveryBooked :: "zod_lib \<Rightarrow> DeliveryBookedEvent \<Rightarrow> bool" where
  "valid_DeliveryBooked z e = (valid_envelope z DeliveryBooked e
     \<and> valid_identifier (db_orderId (event_data e)) \<and> valid_identifier (db_deliveryId (event_data e))
     \<and> db_carrier (event_data e) \<noteq> [] \<and> iso_date z (db_estimatedDeliveryDate (event_data e)))"

lemmas valid_defs = valid_envelope_def valid_OrderCreated_def valid_PaymentAuthorized_def
  valid_InventoryReserved_def valid_ReservationFailed_def valid_DeliveryBooked_def

text \<open>Reading an encoded field back.\<close>

lemma read_simps [simp]:
  "read_string (JStr s) = s" "read_num (JNum n) = n" "read_int (int_js i) = i"
  by (simp_all add: read_string_def read_num_def read_int_def int_js_def)

lemma read_item_js [simp]: "read_item (item_js i) = i"
  by (simp add: read_item_def item_js_def)

lemma read_unavailable_js [simp]: "read_unavailable (unavailable_js u) = u"
  by (simp add: read_unavailable_def unavailable_js_def)

lemma read_list_map [simp]: "(\<And>x. f (g x) = x) \<Longrightarrow> read_list f (JArr (map g xs)) = xs"
  by (simp add: read_list_def comp_def)

lemma encoded_defined [simp]:
  "int_js n \<noteq> JUndefined" "item_js i \<noteq> JUndefined" "unavailable_js u \<noteq> JUndefined"
  by (simp_all add: int_js_def item_js_def unavailable_js_def)

lemma json_wire_int [simp]: "json_wire (int_js n) = int_js n"
  by (simp add: int_js_def)

section \<open>Parsing against a zod that behaves as documented\<close>

locale documented_zod =
  fixes z :: zod_lib
  assumes doc: "zod_documented z"
begin

lemmas zod_eqs = zod_documented_eqs [OF doc]

lemma zod_identifier:
  "zod_parse z identifierSchema (JStr s) = (if valid_identifier s then Some (JStr s) else None)"
  by (simp add: identifierSchema_def zod_eqs valid_identifier_def EVENT_IDENTIFIER_MAX_LENGTH_def)

lemma zod_amount:
  "zod_parse z (ZNumber [ZNonnegative]) (json_wire (JNum n)) =
     (if valid_amount n then Some (JNum n) else None)"
  by (cases n) (simp_all add: zod_eqs valid_amount_def)

lemma zod_positive_int:
  "zod_parse z (ZNumber [ZInt, ZPositive]) (int_js n) =
     (if 0 < n \<and> n \<le> 2 ^ 53 - 1 then Some (int_js n) else None)"
proof -
  have "\<bar>of_int n\<bar> \<le> (2 ^ 53 - 1 :: rat) \<longleftrightarrow> \<bar>n\<bar> \<le> 2 ^ 53 - 1"
    by (metis (mono_tags, opaque_lifting) of_int_1 of_int_abs of_int_diff of_int_le_iff of_int_numeral of_int_power)
  then show ?thesis by (auto simp: zod_eqs int_js_def)
qed

lemma zod_nonneg_int:
  "zod_parse z (ZNumber [ZInt, ZNonnegative]) (int_js n) =
     (if 0 \<le> n \<and> n \<le> 2 ^ 53 - 1 then Some (int_js n) else None)"
proof -
  have "\<bar>of_int n\<bar> \<le> (2 ^ 53 - 1 :: rat) \<longleftrightarrow> \<bar>n\<bar> \<le> 2 ^ 53 - 1"
    by (metis (mono_tags, opaque_lifting) of_int_1 of_int_abs of_int_diff of_int_le_iff of_int_numeral of_int_power)
  then show ?thesis by (auto simp: zod_eqs int_js_def)
qed

lemma zod_item:
  "zod_parse z orderItemSchema (json_wire (item_js i)) = (if valid_item i then Some (item_js i) else None)"
  unfolding orderItemSchema_def item_js_def
  by (simp add: zod_eqs(7) zod_identifier zod_positive_int zod_amount valid_item_def
      del: json_wire.simps(2) split del: if_split split: if_split)

lemma zod_unavailable:
  "zod_parse z unavailableItemSchema (json_wire (unavailable_js u)) =
     (if valid_unavailable u then Some (unavailable_js u) else None)"
  unfolding unavailableItemSchema_def unavailable_js_def
  by (simp add: zod_eqs(7) zod_identifier zod_positive_int zod_nonneg_int valid_unavailable_def
      del: json_wire.simps(2) split del: if_split split: if_split)

lemma zod_items:
  "zod_parse z (ZArray orderItemSchema (Some 1) None) (JArr (map (json_wire \<circ> item_js) is)) =
     (if valid_items is then Some (JArr (map item_js is)) else None)"
proof -
  have "mapM_option (zod_parse z orderItemSchema) (map (json_wire \<circ> item_js) is) =
      (if list_all valid_item is then Some (map item_js is) else None)"
    by (rule mapM_option_if) (simp add: zod_item)
  then show ?thesis by (cases "is") (auto simp: zod_eqs(6) valid_items_def)
qed

lemma zod_unavailables:
  "zod_parse z (ZArray unavailableItemSchema None None) (JArr (map (json_wire \<circ> unavailable_js) us)) =
     (if list_all valid_unavailable us then Some (JArr (map unavailable_js us)) else None)"
proof -
  have "mapM_option (zod_parse z unavailableItemSchema) (map (json_wire \<circ> unavailable_js) us) =
      (if list_all valid_unavailable us then Some (map unavailable_js us) else None)"
    by (rule mapM_option_if) (simp add: zod_unavailable)
  then show ?thesis by (simp add: zod_eqs(6))
qed

lemma zod_envelope:
  assumes "dj (event_data e) \<noteq> JUndefined"
  shows "zod_parse z (eventEnvelope (eventType_text t) ds) (json_wire (envelope_js dj e)) =
    (if valid_envelope z t e then
       map_option (\<lambda>d. envelope_js (\<lambda>_. d) e) (zod_parse z ds (json_wire (dj (event_data e))))
     else None)"
  using assms unfolding eventEnvelope_def envelope_js_def
  by (simp add: zod_eqs(2,3,7) zod_identifier valid_envelope_def eventType_text_inj
      split: option.split)

lemma read_envelope_js:
  "eventType e = t \<Longrightarrow> read_envelope t rd (envelope_js (\<lambda>_. d) e) = e \<lparr>event_data := rd d\<rparr>"
  by (simp add: read_envelope_def envelope_js_def)

lemma parse_envelope:
  assumes "dj (event_data e) \<noteq> JUndefined"
    and "zod_parse z ds (json_wire (dj (event_data e))) = (if ok then Some (dj (event_data e)) else None)"
    and "rd (dj (event_data e)) = event_data e"
  shows "parse_or_throw z (eventEnvelope (eventType_text t) ds) (read_envelope t rd)
      (json_wire (envelope_js dj e)) =
    (if valid_envelope z t e \<and> ok then Inr e else Inl (JsError ''ZodError''))"
  using assms
  by (simp add: parse_or_throw_def zod_envelope read_envelope_js valid_envelope_def)

lemma OrderCreated_wire:
  "parseOrderCreatedEvent z (json_wire (orderCreated_js e)) =
     (if valid_OrderCreated z e then Inr e else Inl (JsError ''ZodError''))"
  unfolding parseOrderCreatedEvent_def orderCreatedEventSchema_def orderCreated_js_def
    eventType_text.simps(1) [symmetric]
  by (subst parse_envelope [where ok = "valid_identifier (oc_orderId (event_data e))
      \<and> valid_identifier (oc_customerId (event_data e)) \<and> valid_items (oc_items (event_data e))
      \<and> valid_amount (oc_totalAmount (event_data e))"])
    (simp_all add: zod_eqs(7) zod_identifier zod_items [unfolded One_nat_def] zod_amount
      valid_OrderCreated_def del: json_wire.simps(2))

lemma PaymentAuthorized_wire:
  "parsePaymentAuthorizedEvent z (json_wire (paymentAuthorized_js e)) =
     (if valid_PaymentAuthorized z e then Inr e else Inl (JsError ''ZodError''))"
  unfolding parsePaymentAuthorizedEvent_def paymentAuthorizedEventSchema_def paymentAuthorized_js_def
    eventType_text.simps(2) [symmetric]
  by (subst parse_envelope [where ok = "valid_identifier (pa_orderId (event_data e))
      \<and> valid_identifier (pa_paymentId (event_data e)) \<and> valid_amount (pa_amount (event_data e))
      \<and> valid_items (pa_items (event_data e))"])
    (simp_all add: zod_eqs(7) zod_identifier zod_items [unfolded One_nat_def] zod_amount
      valid_PaymentAuthorized_def del: json_wire.simps(2))

lemma InventoryReserved_wire:
  "parseInventoryReservedEvent z (json_wire (inventoryReserved_js e)) =
     (if valid_InventoryReserved z e then Inr e else Inl (JsError ''ZodError''))"
  unfolding parseInventoryReservedEvent_def inventoryReservedEventSchema_def inventoryReserved_js_def
    eventType_text.simps(3) [symmetric]
  by (subst parse_envelope [where ok = "valid_identifier (ir_orderId (event_data e))
      \<and> valid_identifier (ir_reservationId (event_data e)) \<and> valid_items (ir_items (event_data e))"])
    (simp_all add: zod_eqs(7) zod_identifier zod_items [unfolded One_nat_def]
      valid_InventoryReserved_def)

lemma ReservationFailed_wire:
  "parseInventoryReservationFailedEvent z (json_wire (reservationFailed_js e)) =
     (if valid_ReservationFailed z e then Inr e else Inl (JsError ''ZodError''))"
  unfolding parseInventoryReservationFailedEvent_def inventoryReservationFailedEventSchema_def
    reservationFailed_js_def eventType_text.simps(4) [symmetric]
  by (subst parse_envelope [where ok = "valid_identifier (rf_orderId (event_data e))
      \<and> list_all valid_unavailable (unavailableItems (event_data e))"])
    (simp_all add: zod_eqs(1,7) zod_identifier zod_unavailables valid_ReservationFailed_def)

lemma DeliveryBooked_wire:
  "parseDeliveryBookedEvent z (json_wire (deliveryBooked_js e)) =
     (if valid_DeliveryBooked z e then Inr e else Inl (JsError ''ZodError''))"
  unfolding parseDeliveryBookedEvent_def deliveryBookedEventSchema_def deliveryBooked_js_def
    eventType_text.simps(5) [symmetric]
  by (subst parse_envelope [where ok = "valid_identifier (db_orderId (event_data e))
      \<and> valid_identifier (db_deliveryId (event_data e)) \<and> db_carrier (event_data e) \<noteq> []
      \<and> iso_date z (db_estimatedDeliveryDate (event_data e))"])
    (simp_all add: zod_eqs(1,4,7) zod_identifier valid_DeliveryBooked_def Suc_le_eq)

text \<open>Whatever a schema lets through is the encoding of a valid value.\<close>

lemma identifier_sound:
  "zod_parse z identifierSchema v = Some w \<Longrightarrow> \<exists>s. v = JStr s \<and> w = JStr s \<and> valid_identifier s"
  by (auto simp: identifierSchema_def zod_eqs valid_identifier_def EVENT_IDENTIFIER_MAX_LENGTH_def
      split: js.splits if_splits)

lemma amount_sound:
  "zod_parse z (ZNumber [ZNonnegative]) v = Some w \<Longrightarrow> \<exists>n. w = JNum n \<and> valid_amount n"
  by (auto simp: zod_eqs valid_amount_def split: js.splits jsnum.splits if_splits)

lemma safe_int:
  assumes "of_int \<lfloor>r\<rfloor> = r" "\<bar>r\<bar> \<le> (2 ^ 53 - 1 :: rat)"
  obtains n where "r = of_int n" "\<bar>n\<bar> \<le> 2 ^ 53 - 1"
proof
  show "r = of_int \<lfloor>r\<rfloor>" by (rule assms(1) [symmetric])
  have "of_int (2 ^ 53 - 1) = (2 ^ 53 - 1 :: rat)" by simp
  then have "\<bar>of_int \<lfloor>r\<rfloor>\<bar> \<le> (of_int (2 ^ 53 - 1) :: rat)"
    unfolding assms(1) using assms(2) by (simp only:)
  then show "\<bar>\<lfloor>r\<rfloor>\<bar> \<le> 2 ^ 53 - 1" by (simp only: of_int_abs [symmetric] of_int_le_iff)
qed

lemma positive_int_sound:
  "zod_parse z (ZNumber [ZInt, ZPositive]) v = Some w \<Longrightarrow> \<exists>n. w = int_js n \<and> 0 < n \<and> n \<le> 2 ^ 53 - 1"
  by (auto simp: zod_eqs int_js_def split: js.splits jsnum.splits if_splits elim!: safe_int)

lemma nonneg_int_sound:
  "zod_parse z (ZNumber [ZInt, ZNonnegative]) v = Some w \<Longrightarrow> \<exists>n. w = int_js n \<and> 0 \<le> n \<and> n \<le> 2 ^ 53 - 1"
  by (auto simp: zod_eqs int_js_def split: js.splits jsnum.splits if_splits elim!: safe_int)

lemma object_sound:
  assumes "zod_parse z (ZObject fs) v = Some w"
  obtains ys where "mapM_option (\<lambda>(k, s). map_option (Pair k) (zod_parse z s (js_get v k))) fs = Some ys"
    "w = JObj ys"
  using assms by (auto simp: zod_eqs(7) split: js.splits)

lemma item_sound:
  assumes "zod_parse z orderItemSchema v = Some w"
  shows "\<exists>i. valid_item i \<and> w = item_js i"
proof -
  from assms obtain p q u where parts:
    "zod_parse z identifierSchema (js_get v ''productId'') = Some p"
    "zod_parse z (ZNumber [ZInt, ZPositive]) (js_get v ''quantity'') = Some q"
    "zod_parse z (ZNumber [ZNonnegative]) (js_get v ''unitPrice'') = Some u"
    "w = JObj [(''productId'', p), (''quantity'', q), (''unitPrice'', u)]"
    unfolding orderItemSchema_def by (elim object_sound) (auto split: option.splits)
  obtain s n r where "p = JStr s" "valid_identifier s" "q = int_js n" "0 < n" "n \<le> 2 ^ 53 - 1"
    "u = JNum r" "valid_amount r"
    using identifier_sound [OF parts(1)] positive_int_sound [OF parts(2)] amount_sound [OF parts(3)]
    by blast
  then have "valid_item \<lparr>productId = s, quantity = n, unitPrice = r\<rparr>
      \<and> w = item_js \<lparr>productId = s, quantity = n, unitPrice = r\<rparr>"
    using parts(4) by (simp add: valid_item_def item_js_def)
  then show ?thesis by blast
qed

lemma unavailable_sound:
  assumes "zod_parse z unavailableItemSchema v = Some w"
  shows "\<exists>u. valid_unavailable u \<and> w = unavailable_js u"
proof -
  from assms obtain p q a where parts:
    "zod_parse z identifierSchema (js_get v ''productId'') = Some p"
    "zod_parse z (ZNumber [ZInt, ZPositive]) (js_get v ''requestedQuantity'') = Some q"
    "zod_parse z (ZNumber [ZInt, ZNonnegative]) (js_get v ''availableQuantity'') = Some a"
    "w = JObj [(''productId'', p), (''requestedQuantity'', q), (''availableQuantity'', a)]"
    unfolding unavailableItemSchema_def by (elim object_sound) (auto split: option.splits)
  obtain s n m where "p = JStr s" "valid_identifier s" "q = int_js n" "0 < n" "n \<le> 2 ^ 53 - 1"
    "a = int_js m" "0 \<le> m" "m \<le> 2 ^ 53 - 1"
    using identifier_sound [OF parts(1)] positive_int_sound [OF parts(2)] nonneg_int_sound [OF parts(3)]
    by blast
  then have "valid_unavailable \<lparr>ui_productId = s, requestedQuantity = n, availableQuantity = m\<rparr>
      \<and> w = unavailable_js \<lparr>ui_productId = s, requestedQuantity = n, availableQuantity = m\<rparr>"
    using parts(4) by (simp add: valid_unavailable_def unavailable_js_def)
  then show ?thesis by blast
qed

lemma items_sound:
  assumes "zod_parse z (ZArray orderItemSchema (Some 1) None) v = Some w"
  shows "\<exists>items. valid_items items \<and> w = JArr (map item_js items)"
proof -
  from assms obtain xs ys where xs: "xs \<noteq> []" "mapM_option (zod_parse z orderItemSchema) xs = Some ys"
    "w = JArr ys"
    by (auto simp: zod_eqs(6) Suc_le_eq split: js.splits if_splits)
  from mapM_option_image [OF xs(2), of valid_item item_js] item_sound
  obtain items where "list_all valid_item items" "ys = map item_js items" "length items = length xs"
    by blast
  then have "valid_items items" "w = JArr (map item_js items)"
    using xs by (auto simp: valid_items_def)
  then show ?thesis by blast
qed

lemma unavailables_sound:
  assumes "zod_parse z (ZArray unavailableItemSchema None None) v = Some w"
  shows "\<exists>us. list_all valid_unavailable us \<and> w = JArr (map unavailable_js us)"
proof -
  from assms obtain xs ys where xs: "mapM_option (zod_parse z unavailableItemSchema) xs = Some ys"
    "w = JArr ys"
    by (auto simp: zod_eqs(6) split: js.splits if_splits)
  from mapM_option_image [OF xs(1), of valid_unavailable unavailable_js] unavailable_sound
  show ?thesis using xs(2) by blast
qed

lemma datetime_sound:
  "zod_parse z ZIsoDatetime v = Some w \<Longrightarrow> \<exists>s. w = JStr s \<and> iso_datetime z s"
  by (auto simp: zod_eqs(3) split: js.splits if_splits)

lemma date_sound:
  "zod_parse z ZIsoDate v = Some w \<Longrightarrow> \<exists>s. w = JStr s \<and> iso_date z s"
  by (auto simp: zod_eqs(4) split: js.splits if_splits)

lemma carrier_sound:
  "zod_parse z (ZString (Some 1) None) v = Some w \<Longrightarrow> \<exists>s. w = JStr s \<and> s \<noteq> []"
  by (cases v; cases w) (simp_all add: zod_eqs(1) Suc_le_eq split: if_splits)

lemma parse_envelope_sound:
  assumes "parse_or_throw z (eventEnvelope (eventType_text t) ds) (read_envelope t rd) v = Inr e"
  shows "valid_envelope z t e \<and> (\<exists>w d. zod_parse z ds w = Some d \<and> event_data e = rd d)"
proof -
  from assms obtain w where w: "zod_parse z (eventEnvelope (eventType_text t) ds) v = Some w"
    "e = read_envelope t rd w"
    by (auto simp: parse_or_throw_def split: option.splits)
  from w obtain i o' c d where parts:
    "zod_parse z identifierSchema (js_get v ''eventId'') = Some i"
    "zod_parse z ZIsoDatetime (js_get v ''occurredAt'') = Some o'"
    "zod_parse z identifierSchema (js_get v ''correlationId'') = Some c"
    "zod_parse z ds (js_get v ''data'') = Some d"
    "e = read_envelope t rd (JObj [(''eventId'', i), (''eventType'', JStr (eventType_text t)),
      (''occurredAt'', o'), (''correlationId'', c), (''data'', d)])"
    unfolding eventEnvelope_def
    by (elim object_sound) (auto simp: zod_eqs(2) split: option.splits if_splits)
  obtain s u s' where "i = JStr s" "valid_identifier s" "o' = JStr u" "iso_datetime z u"
    "c = JStr s'" "valid_identifier s'"
    using identifier_sound [OF parts(1)] identifier_sound [OF parts(3)] datetime_sound [OF parts(2)]
    by blast
  then have "valid_envelope z t e" "event_data e = rd d"
    using parts(5) by (simp_all add: read_envelope_def valid_envelope_def)
  then show ?thesis using parts(4) by blast
qed

lemma OrderCreated_sound:
  assumes "parseOrderCreatedEvent z v = Inr e" shows "valid_OrderCreated z e"
proof -
  from parse_envelope_sound [OF assms [unfolded parseOrderCreatedEvent_def orderCreatedEventSchema_def
    eventType_text.simps(1) [symmetric]]]
  obtain w o' c i t where env: "valid_envelope z OrderCreated e" and parts:
    "zod_parse z identifierSchema (js_get w ''orderId'') = Some o'"
    "zod_parse z identifierSchema (js_get w ''customerId'') = Some c"
    "zod_parse z (ZArray orderItemSchema (Some 1) None) (js_get w ''items'') = Some i"
    "zod_parse z (ZNumber [ZNonnegative]) (js_get w ''totalAmount'') = Some t"
    "event_data e = \<lparr>oc_orderId = read_string o', oc_customerId = read_string c,
      oc_items = read_list read_item i, oc_totalAmount = read_num t\<rparr>"
    by (elim conjE exE object_sound) (auto split: option.splits)
  then show ?thesis
    using identifier_sound [OF parts(1)] identifier_sound [OF parts(2)] items_sound [OF parts(3)]
      amount_sound [OF parts(4)]
    by (auto simp: valid_OrderCreated_def)
qed

lemma PaymentAuthorized_sound:
  assumes "parsePaymentAuthorizedEvent z v = Inr e" shows "valid_PaymentAuthorized z e"
proof -
  from parse_envelope_sound [OF assms [unfolded parsePaymentAuthorizedEvent_def
    paymentAuthorizedEventSchema_def eventType_text.simps(2) [symmetric]]]
  obtain w o' c i t where env: "valid_envelope z PaymentAuthorized e" and parts:
    "zod_parse z identifierSchema (js_get w ''orderId'') = Some o'"
    "zod_parse z identifierSchema (js_get w ''paymentId'') = Some c"
    "zod_parse z (ZNumber [ZNonnegative]) (js_get w ''amount'') = Some t"
    "zod_parse z (ZArray orderItemSchema (Some 1) None) (js_get w ''items'') = Some i"
    "event_data e = \<lparr>pa_orderId = read_string o', pa_paymentId = read_string c,
      pa_amount = read_num t, pa_items = read_list read_item i\<rparr>"
    by (elim conjE exE object_sound) (auto split: option.splits)
  then show ?thesis
    using identifier_sound [OF parts(1)] identifier_sound [OF parts(2)] items_sound [OF parts(4)]
      amount_sound [OF parts(3)]
    by (auto simp: valid_PaymentAuthorized_def)
qed

lemma InventoryReserved_sound:
  assumes "parseInventoryReservedEvent z v = Inr e" shows "valid_InventoryReserved z e"
proof -
  from parse_envelope_sound [OF assms [unfolded parseInventoryReservedEvent_def
    inventoryReservedEventSchema_def eventType_text.simps(3) [symmetric]]]
  obtain w o' c i where env: "valid_envelope z InventoryReserved e" and parts:
    "zod_parse z identifierSchema (js_get w ''orderId'') = Some o'"
    "zod_parse z identifierSchema (js_get w ''reservationId'') = Some c"
    "zod_parse z (ZArray orderItemSchema (Some 1) None) (js_get w ''items'') = Some i"
    "event_data e = \<lparr>ir_orderId = read_string o', ir_reservationId = read_string c,
      ir_items = read_list read_item i\<rparr>"
    by (elim conjE exE object_sound) (auto split: option.splits)
  then show ?thesis
    using identifier_sound [OF parts(1)] identifier_sound [OF parts(2)] items_sound [OF parts(3)]
    by (auto simp: valid_InventoryReserved_def)
qed

lemma ReservationFailed_sound:
  assumes "parseInventoryReservationFailedEvent z v = Inr e" shows "valid_ReservationFailed z e"
proof -
  from parse_envelope_sound [OF assms [unfolded parseInventoryReservationFailedEvent_def
    inventoryReservationFailedEventSchema_def eventType_text.simps(4) [symmetric]]]
  obtain w o' c i where env: "valid_envelope z InventoryReservationFailed e" and parts:
    "zod_parse z identifierSchema (js_get w ''orderId'') = Some o'"
    "zod_parse z (ZArray unavailableItemSchema None None) (js_get w ''unavailableItems'') = Some i"
    "event_data e = \<lparr>rf_orderId = read_string o', rf_reason = read_string c,
      unavailableItems = read_list read_unavailable i\<rparr>"
    by (elim conjE exE object_sound) (auto split: option.splits)
  then show ?thesis
    using identifier_sound [OF parts(1)] unavailables_sound [OF parts(2)]
    by (auto simp: valid_ReservationFailed_def)
qed

lemma DeliveryBooked_sound:
  assumes "parseDeliveryBookedEvent z v = Inr e" shows "valid_DeliveryBooked z e"
proof -
  from parse_envelope_sound [OF assms [unfolded parseDeliveryBookedEvent_def
    deliveryBookedEventSchema_def eventType_text.simps(5) [symmetric]]]
  obtain w o' i c d where env: "valid_envelope z DeliveryBooked e" and parts:
    "zod_parse z identifierSchema (js_get w ''orderId'') = Some o'"
    "zod_parse z identifierSchema (js_get w ''deliveryId'') = Some i"
    "zod_parse z (ZString (Some 1) None) (js_get w ''carrier'') = Some c"
    "zod_parse z ZIsoDate (js_get w ''estimatedDeliveryDate'') = Some d"
    "event_data e = \<lparr>db_orderId = read_string o', db_deliveryId = read_string i,
      db_carrier = read_string c, db_estimatedDeliveryDate = read_string d\<rparr>"
    by (elim conjE exE object_sound) (auto split: option.splits)
  have "\<exists>s. c = JStr s \<and> s \<noteq> []" "\<exists>s. d = JStr s \<and> iso_date z s"
    by (rule carrier_sound [OF parts(3)], rule date_sound [OF parts(4)])
  then show ?thesis
    using env parts(5) identifier_sound [OF parts(1)] identifier_sound [OF parts(2)]
    by (auto simp: valid_DeliveryBooked_def)
qed

end

interpretation zref: documented_zod "zod_lib_ref dt d" for dt d
  by unfold_locales (rule zod_lib_ref_documented)

section \<open>The contract\<close>

text \<open>
  C14: every producer and every consumer agree. Under a zod that behaves as documented, an event
  that is serialised, delivered and parsed comes back unchanged when it is valid, and is
  refused with a \<open>ZodError\<close> when it is not; this holds for each of the five event types.
\<close>

theorem contract_roundtrip:
  assumes "zod_documented z"
  shows "parseOrderCreatedEvent z (json_wire (orderCreated_js oc)) =
      (if valid_OrderCreated z oc then Inr oc else Inl (JsError ''ZodError''))
    \<and> parsePaymentAuthorizedEvent z (json_wire (paymentAuthorized_js pa)) =
      (if valid_PaymentAuthorized z pa then Inr pa else Inl (JsError ''ZodError''))
    \<and> parseInventoryReservedEvent z (json_wire (inventoryReserved_js ir)) =
      (if valid_InventoryReserved z ir then Inr ir else Inl (JsError ''ZodError''))
    \<and> parseInventoryReservationFailedEvent z (json_wire (reservationFailed_js rf)) =
      (if valid_ReservationFailed z rf then Inr rf else Inl (JsError ''ZodError''))
    \<and> parseDeliveryBookedEvent z (json_wire (deliveryBooked_js db)) =
      (if valid_DeliveryBooked z db then Inr db else Inl (JsError ''ZodError''))"
proof -
  from assms have "documented_zod z" by (rule documented_zod.intro)
  note wire = documented_zod.OrderCreated_wire [OF this] documented_zod.PaymentAuthorized_wire [OF this]
    documented_zod.InventoryReserved_wire [OF this] documented_zod.ReservationFailed_wire [OF this]
    documented_zod.DeliveryBooked_wire [OF this]
  show ?thesis by (intro conjI wire)
qed

definition sample_delivery :: DeliveryBookedEvent where
  "sample_delivery = \<lparr>eventId = ''e-1'', eventType = DeliveryBooked, occurredAt = ''t'',
     correlationId = ''c-1'', event_data = \<lparr>db_orderId = ''o-1'', db_deliveryId = ''d-1'',
       db_carrier = ''DHL'', db_estimatedDeliveryDate = ''2026-01-04''\<rparr>\<rparr>"

theorem contract_roundtrip_witness:
  "parseDeliveryBookedEvent (zod_lib_ref (\<lambda>_. True) (\<lambda>_. True)) (json_wire (deliveryBooked_js sample_delivery))
     = Inr sample_delivery"
  using contract_roundtrip [OF zod_lib_ref_documented [of "\<lambda>_. True" "\<lambda>_. True"], of undefined undefined
      undefined undefined sample_delivery]
  by (simp add: valid_defs valid_identifier_def sample_delivery_def zod_lib_ref_def)

text \<open>
  C15: no consumer handles an event that its schema forbids: whatever JSON value a parser
  accepts, the typed event it returns is valid (identifiers of 1 to 200 characters, positive
  safe-integer quantities, finite non-negative amounts, a non-empty item list, the right type).
\<close>

theorem parsers_sound:
  assumes "zod_documented z"
  shows "(parseOrderCreatedEvent z v = Inr oc \<longrightarrow> valid_OrderCreated z oc)
    \<and> (parsePaymentAuthorizedEvent z v = Inr pa \<longrightarrow> valid_PaymentAuthorized z pa)
    \<and> (parseInventoryReservedEvent z v = Inr ir \<longrightarrow> valid_InventoryReserved z ir)
    \<and> (parseInventoryReservationFailedEvent z v = Inr rf \<longrightarrow> valid_ReservationFailed z rf)
    \<and> (parseDeliveryBookedEvent z v = Inr db \<longrightarrow> valid_DeliveryBooked z db)"
proof -
  from assms have "documented_zod z" by (rule documented_zod.intro)
  note sound = documented_zod.OrderCreated_sound [OF this] documented_zod.PaymentAuthorized_sound [OF this]
    documented_zod.InventoryReserved_sound [OF this] documented_zod.ReservationFailed_sound [OF this]
    documented_zod.DeliveryBooked_sound [OF this]
  show ?thesis by (intro conjI impI sound)
qed

definition sample_zod :: zod_lib where
  "sample_zod = zod_lib_ref (\<lambda>_. True) (\<lambda>_. True)"

theorem parsers_sound_witness:
  "parseDeliveryBookedEvent sample_zod (deliveryBooked_js sample_delivery) = Inr sample_delivery
   \<and> valid_DeliveryBooked sample_zod sample_delivery"
proof -
  have "parseDeliveryBookedEvent sample_zod (deliveryBooked_js sample_delivery) = Inr sample_delivery"
    by code_simp
  moreover from this parsers_sound [of sample_zod "deliveryBooked_js sample_delivery"]
  have "valid_DeliveryBooked sample_zod sample_delivery"
    by (simp add: sample_zod_def zod_lib_ref_documented)
  ultimately show ?thesis by blast
qed

end
