(* ===== verification/InventoryStore.thy ===== *)
theory InventoryStore
  imports Schemas
begin

text \<open>
  services/inventory-service/src/inventoryStore.ts and inMemoryInventoryStore.ts: the port of
  the inventory application layer as a record of operations, the contract an adapter of that
  port fulfils as the locale \<open>inventory_store\<close>, and the in-memory adapter, which fulfils it.
\<close>

section \<open>The port\<close>

datatype InventoryResultEvent =
    ReservedResult InventoryReservedEvent
  | FailedResult InventoryReservationFailedEvent

datatype ReservationStatus = Reserved | Rejected

record ReservationRecord =
  rr_orderId :: string
  rr_status :: ReservationStatus
  rr_reservationId :: "string option"
  rr_sourceEventId :: string
  rr_resultEventId :: string
  rr_items :: "OrderItem list"

record 's InventoryTransaction =
  lockOrder :: "string \<Rightarrow> ('s, ReservationRecord option) tx"
  lockStock :: "string list \<Rightarrow> ('s, (string, int) jsmap) tx"
  decrementStock :: "(string, int) jsmap \<Rightarrow> ('s, unit) tx"
  recordReservation :: "ReservationRecord \<Rightarrow> ('s, unit) tx"
  enqueueEvent :: "InventoryResultEvent \<Rightarrow> ('s, unit) tx"

section \<open>The contract of an adapter\<close>

text \<open>
  What an adapter's state means to the application: how much of each known product is in
  stock, the recorded outcomes in the order they were made, and the JSON payloads of the
  outbox in the order they were enqueued.
\<close>

record Ledger =
  ledger_stock :: "string \<Rightarrow> int option"
  ledger_reservations :: "ReservationRecord list"
  ledger_outbox :: "js list"

fun result_js :: "InventoryResultEvent \<Rightarrow> js" where
  "result_js (ReservedResult e) = inventoryReserved_js e"
| "result_js (FailedResult e) = reservationFailed_js e"

fun result_eventId :: "InventoryResultEvent \<Rightarrow> string" where
  "result_eventId (ReservedResult e) = eventId e"
| "result_eventId (FailedResult e) = eventId e"

fun result_eventType :: "InventoryResultEvent \<Rightarrow> EventType" where
  "result_eventType (ReservedResult e) = eventType e"
| "result_eventType (FailedResult e) = eventType e"

fun result_occurredAt :: "InventoryResultEvent \<Rightarrow> string" where
  "result_occurredAt (ReservedResult e) = occurredAt e"
| "result_occurredAt (FailedResult e) = occurredAt e"

definition reservation_of :: "Ledger \<Rightarrow> string \<Rightarrow> ReservationRecord option" where
  "reservation_of l oid = List.find (\<lambda>r. rr_orderId r = oid) (ledger_reservations l)"

text \<open>Taking positive quantities out of stock; defined when each of them is there.\<close>

definition can_take :: "(string, int) jsmap \<Rightarrow> Ledger \<Rightarrow> bool" where
  "can_take q l = list_all (\<lambda>(p, n). case ledger_stock l p of None \<Rightarrow> False | Some c \<Rightarrow> n \<le> c) q"

definition take_stock :: "(string, int) jsmap \<Rightarrow> Ledger \<Rightarrow> Ledger" where
  "take_stock q l = l \<lparr>ledger_stock := (\<lambda>p. case map_get q p of None \<Rightarrow> ledger_stock l p
     | Some n \<Rightarrow> map_option (\<lambda>c. c - n) (ledger_stock l p))\<rparr>"

definition quantities_ok :: "(string, int) jsmap \<Rightarrow> bool" where
  "quantities_ok q = (distinct (map_keys q) \<and> list_all (\<lambda>(p, n). 0 < n) q)"

text \<open>
  The laws say what each operation has done when it returns; an operation may also throw, and
  then the unit of work discards the transaction. \<open>id_ok\<close> describes the generated ids that the
  store gives back as they are.
\<close>

locale inventory_store =
  fixes T :: "'s InventoryTransaction"
    and ledger :: "'s \<Rightarrow> Ledger"
    and inv :: "'s \<Rightarrow> bool"
    and id_ok :: "string \<Rightarrow> bool"
  assumes lockOrder_law:
      "\<lbrakk>inv s; lockOrder T oid s = Inr (r, s')\<rbrakk>
        \<Longrightarrow> s' = s \<and> r = reservation_of (ledger s) oid"
    and lockStock_law:
      "\<lbrakk>inv s; lockStock T ps s = Inr (m, s')\<rbrakk>
        \<Longrightarrow> s' = s \<and> (\<forall>p \<in> set ps. map_get m p = ledger_stock (ledger s) p)"
    and decrementStock_law:
      "\<lbrakk>inv s; quantities_ok q; decrementStock T q s = Inr (u, s')\<rbrakk>
        \<Longrightarrow> inv s' \<and> can_take q (ledger s) \<and> ledger s' = take_stock q (ledger s)"
    and recordReservation_law:
      "\<lbrakk>inv s; list_all valid_item (rr_items rec); id_ok (rr_resultEventId rec);
        \<forall>i. rr_reservationId rec = Some i \<longrightarrow> id_ok i; recordReservation T rec s = Inr (u, s')\<rbrakk>
        \<Longrightarrow> inv s' \<and> reservation_of (ledger s) (rr_orderId rec) = None
          \<and> ledger s' = (ledger s) \<lparr>ledger_reservations := ledger_reservations (ledger s) @ [rec]\<rparr>"
    and enqueueEvent_law:
      "\<lbrakk>inv s; enqueueEvent T e s = Inr (u, s')\<rbrakk>
        \<Longrightarrow> inv s' \<and> ledger s' = (ledger s) \<lparr>ledger_outbox := ledger_outbox (ledger s) @ [json_wire (result_js e)]\<rparr>"
    and stock_nonneg: "\<lbrakk>inv s; ledger_stock (ledger s) p = Some c\<rbrakk> \<Longrightarrow> 0 \<le> c"
begin

text \<open>Stock that has been found sufficient under the lock can be taken.\<close>

lemma can_take_iff:
  assumes "inv s" "distinct (map_keys q)" "lockStock T (map_keys q) s = Inr (m, s')"
    "list_all (\<lambda>(p, n). 0 < n) q"
  shows "can_take q (ledger s) \<longleftrightarrow> list_all (\<lambda>(p, n). n \<le> map_or 0 m p) q"
proof -
  have "\<forall>(p, n) \<in> set q. map_get m p = ledger_stock (ledger s) p"
    using lockStock_law [OF assms(1,3)] by force
  then show ?thesis
    using assms(4) unfolding can_take_def list_all_iff map_or_def
    by (force split: option.splits)
qed

end

text \<open>
  A store that is up: its operations return, provided the records and events it is given can
be stored (in PostgreSQL, texts hold no NUL and ids are well-formed and unused).
\<close>

locale reliable_inventory_store = inventory_store +
  fixes can_record :: "'a \<Rightarrow> ReservationRecord \<Rightarrow> bool"
    and can_enqueue :: "'a \<Rightarrow> InventoryResultEvent \<Rightarrow> bool"
    and text_ok :: "string \<Rightarrow> bool"
  assumes lockOrder_returns: "\<lbrakk>inv s; text_ok oid\<rbrakk> \<Longrightarrow> \<exists>r. lockOrder T oid s = Inr r"
    and lockStock_returns: "\<lbrakk>inv s; list_all text_ok ps\<rbrakk> \<Longrightarrow> \<exists>m. lockStock T ps s = Inr m"
    and decrementStock_returns:
      "\<lbrakk>inv s; quantities_ok q; list_all text_ok (map_keys q); can_take q (ledger s)\<rbrakk>
        \<Longrightarrow> \<exists>r. decrementStock T q s = Inr r"
    and decrementStock_keeps:
      "decrementStock T q s = Inr (u, s') \<Longrightarrow> can_record s' = can_record s \<and> can_enqueue s' = can_enqueue s"
    and recordReservation_returns:
      "\<lbrakk>inv s; list_all valid_item (rr_items rec); can_record s rec; reservation_of (ledger s) (rr_orderId rec) = None\<rbrakk>
        \<Longrightarrow> \<exists>r. recordReservation T rec s = Inr r"
    and recordReservation_keeps:
      "recordReservation T rec s = Inr (u, s') \<Longrightarrow> can_enqueue s' = can_enqueue s"
    and enqueueEvent_returns: "\<lbrakk>inv s; can_enqueue s e\<rbrakk> \<Longrightarrow> \<exists>r. enqueueEvent T e s = Inr r"

section \<open>The in-memory adapter\<close>

record InventoryState =
  im_stock :: "(string, int) jsmap"
  im_reservations :: "(string, ReservationRecord) jsmap"
  im_outbox :: "InventoryResultEvent list"

definition inMemoryInventoryStore :: "(string, int) jsmap \<Rightarrow> InventoryState" where
  "inMemoryInventoryStore initialStock =
     \<lparr>im_stock = initialStock, im_reservations = [], im_outbox = []\<rparr>"

definition im_lockOrder :: "string \<Rightarrow> (InventoryState, ReservationRecord option) tx" where
  "im_lockOrder oid s = Inr (map_get (im_reservations s) oid, s)"

definition im_lockStock :: "string list \<Rightarrow> (InventoryState, (string, int) jsmap) tx" where
  "im_lockStock productIds s =
     Inr (foldl (\<lambda>quantities p.
            case map_get (im_stock s) p of
              None \<Rightarrow> quantities
            | Some n \<Rightarrow> map_set p n quantities) [] productIds, s)"

definition im_decrement_one :: "string \<times> int \<Rightarrow> (InventoryState, unit) tx" where
  "im_decrement_one = (\<lambda>(p, n) s.
     let current = map_or 0 (im_stock s) p
     in if current < n then Inl (JsError (''Stock for '' @ p @ '' would become negative.''))
        else Inr ((), s \<lparr>im_stock := map_set p (current - n) (im_stock s)\<rparr>))"

definition im_decrementStock :: "(string, int) jsmap \<Rightarrow> (InventoryState, unit) tx" where
  "im_decrementStock q = forEachE im_decrement_one q"

definition im_recordReservation :: "ReservationRecord \<Rightarrow> (InventoryState, unit) tx" where
  "im_recordReservation r s =
     (if rr_orderId r \<in> set (map_keys (im_reservations s)) then
        Inl (JsError (''A reservation for order '' @ rr_orderId r @ '' already exists.''))
      else Inr ((), s \<lparr>im_reservations := map_set (rr_orderId r) r (im_reservations s)\<rparr>))"

definition im_enqueueEvent :: "InventoryResultEvent \<Rightarrow> (InventoryState, unit) tx" where
  "im_enqueueEvent e s = Inr ((), s \<lparr>im_outbox := im_outbox s @ [e]\<rparr>)"

definition im_createTransaction :: "InventoryState InventoryTransaction" where
  "im_createTransaction =
     \<lparr>lockOrder = im_lockOrder, lockStock = im_lockStock, decrementStock = im_decrementStock,
      recordReservation = im_recordReservation, enqueueEvent = im_enqueueEvent\<rparr>"

definition cloneState :: "InventoryState \<Rightarrow> InventoryState" where
  "cloneState s = \<lparr>im_stock = im_stock s, im_reservations = im_reservations s, im_outbox = im_outbox s\<rparr>"

text \<open>
  \<open>inTransaction\<close> runs the work on a draft; the queue runs one transaction after the other,
  so a transaction is one step of the store. The draft replaces the state when the work returns.
\<close>

definition im_inTransaction ::
    "(InventoryState, 'a) tx \<Rightarrow> InventoryState \<Rightarrow> (js_error + 'a) \<times> InventoryState" where
  "im_inTransaction work state =
     (case work (cloneState state) of
        Inl e \<Rightarrow> (Inl e, state)
      | Inr (result, draft) \<Rightarrow> (Inr result, draft))"

definition im_getAllStock :: "InventoryState \<Rightarrow> (string, int) jsmap" where
  "im_getAllStock s = im_stock s"

definition im_getReservations :: "InventoryState \<Rightarrow> ReservationRecord list" where
  "im_getReservations s = map snd (im_reservations s)"

definition im_getOutbox :: "InventoryState \<Rightarrow> InventoryResultEvent list" where
  "im_getOutbox s = im_outbox s"

section \<open>The in-memory adapter fulfils the contract\<close>

definition im_ledger :: "InventoryState \<Rightarrow> Ledger" where
  "im_ledger s = \<lparr>ledger_stock = map_of (im_stock s),
     ledger_reservations = map snd (im_reservations s),
     ledger_outbox = map (json_wire \<circ> result_js) (im_outbox s)\<rparr>"

definition im_inv :: "InventoryState \<Rightarrow> bool" where
  "im_inv s = (distinct (map_keys (im_reservations s))
     \<and> list_all (\<lambda>(k, r). k = rr_orderId r) (im_reservations s)
     \<and> distinct (map_keys (im_stock s)) \<and> list_all (\<lambda>(p, c). 0 \<le> c) (im_stock s))"

lemma cloneState_id [simp]: "cloneState s = s"
  by (simp add: cloneState_def)

lemma map_of_find_keyed:
  "list_all (\<lambda>(k, r). k = f r) m \<Longrightarrow> map_of m k = List.find (\<lambda>r. f r = k) (map snd m)"
  by (induction m) auto

lemma im_reservation_of:
  "im_inv s \<Longrightarrow> reservation_of (im_ledger s) oid = map_get (im_reservations s) oid"
  using map_of_find_keyed [of rr_orderId "im_reservations s" oid]
  by (simp add: reservation_of_def im_ledger_def im_inv_def)

lemma im_lockStock_get:
  "map_get (foldl (\<lambda>q p. case map_get st p of None \<Rightarrow> q | Some n \<Rightarrow> map_set p n q) q0 ps) p =
     (if p \<in> set ps then (case map_get st p of None \<Rightarrow> map_get q0 p | Some n \<Rightarrow> Some n)
      else map_get q0 p)"
  by (induction ps arbitrary: q0) (auto split: option.splits)

lemma list_all_map_set:
  "list_all P m \<Longrightarrow> P (k, v) \<Longrightarrow> list_all P (map_set k v m)"
  by (induction m) auto

lemma map_set_fresh: "k \<notin> set (map_keys m) \<Longrightarrow> map_set k v m = m @ [(k, v)]"
  by (induction m) auto

lemma im_decrement_steps:
  assumes "forEachE im_decrement_one q s = Inr (u, s')" "distinct (map_keys q)"
    "list_all (\<lambda>(p, n). 0 < n) q" "im_inv s"
  shows "im_inv s' \<and> im_reservations s' = im_reservations s \<and> im_outbox s' = im_outbox s
    \<and> list_all (\<lambda>(p, n). case map_of (im_stock s) p of None \<Rightarrow> False | Some c \<Rightarrow> n \<le> c) q
    \<and> map_of (im_stock s') = (\<lambda>p. case map_get q p of None \<Rightarrow> map_of (im_stock s) p
        | Some n \<Rightarrow> map_option (\<lambda>c. c - n) (map_of (im_stock s) p))"
  using assms
proof (induction q arbitrary: s)
  case (Cons x q)
  obtain p n where x: "x = (p, n)" by fastforce
  with Cons.prems obtain s1 where s1: "im_decrement_one (p, n) s = Inr ((), s1)"
      "forEachE im_decrement_one q s1 = Inr (u, s')" by auto
  have n: "0 < n" "p \<notin> set (map_keys q)" "distinct (map_keys q)" "list_all (\<lambda>(p, n). 0 < n) q"
    using Cons.prems x by auto
  from s1(1) n(1) obtain c where c: "map_of (im_stock s) p = Some c" "n \<le> c"
      "s1 = s \<lparr>im_stock := map_set p (c - n) (im_stock s)\<rparr>"
    by (auto simp: im_decrement_one_def map_or_def Let_def split: if_splits option.splits)
  have "im_inv s1"
    using Cons.prems(4) c unfolding im_inv_def
    by (auto intro!: list_all_map_set simp: distinct_map_set)
  note IH = Cons.IH [OF s1(2) n(3,4) this]
  have np: "map_of q p = None" using n(2) by (simp add: map_of_eq_None_iff)
  have "list_all (\<lambda>(p, n). case map_of (im_stock s) p of None \<Rightarrow> False | Some c \<Rightarrow> n \<le> c) q"
    using conjunct1 [OF conjunct2 [OF conjunct2 [OF conjunct2 [OF IH]]]] n(2) c
    unfolding list_all_iff by (force split: if_splits)
  then show ?case
    using IH c np x by (auto simp: fun_eq_iff split: option.splits)
qed (auto simp: fun_eq_iff)

interpretation im: inventory_store im_createTransaction im_ledger im_inv "\<lambda>_. True"
proof unfold_locales
  fix s oid r s'
  assume "im_inv s" "lockOrder im_createTransaction oid s = Inr (r, s')"
  then show "s' = s \<and> r = reservation_of (im_ledger s) oid"
    by (auto simp: im_createTransaction_def im_lockOrder_def im_reservation_of)
next
  fix s ps m s'
  assume "im_inv s" "lockStock im_createTransaction ps s = Inr (m, s')"
  then show "s' = s \<and> (\<forall>p \<in> set ps. map_get m p = ledger_stock (im_ledger s) p)"
    by (auto simp: im_createTransaction_def im_lockStock_def im_lockStock_get im_ledger_def
        split: option.splits)
next
  fix s q u s'
  assume "im_inv s" "quantities_ok q" "decrementStock im_createTransaction q s = Inr (u, s')"
  then have "im_inv s' \<and> im_reservations s' = im_reservations s \<and> im_outbox s' = im_outbox s
    \<and> list_all (\<lambda>(p, n). case map_of (im_stock s) p of None \<Rightarrow> False | Some c \<Rightarrow> n \<le> c) q
    \<and> map_of (im_stock s') = (\<lambda>p. case map_get q p of None \<Rightarrow> map_of (im_stock s) p
        | Some n \<Rightarrow> map_option (\<lambda>c. c - n) (map_of (im_stock s) p))"
    by (intro im_decrement_steps)
      (simp_all add: im_createTransaction_def im_decrementStock_def quantities_ok_def)
  then show "im_inv s' \<and> can_take q (im_ledger s) \<and> im_ledger s' = take_stock q (im_ledger s)"
    by (auto simp: im_ledger_def take_stock_def can_take_def fun_eq_iff split: option.splits)
next
  fix s r u s'
  assume s: "im_inv s" and "recordReservation im_createTransaction r s = Inr (u, s')"
  then have new: "rr_orderId r \<notin> set (map_keys (im_reservations s))"
    and s': "s' = s \<lparr>im_reservations := im_reservations s @ [(rr_orderId r, r)]\<rparr>"
    by (simp_all add: im_createTransaction_def im_recordReservation_def map_set_fresh split: if_splits)
  have "reservation_of (im_ledger s) (rr_orderId r) = None"
    using im_reservation_of [OF s] new by (simp add: map_of_eq_None_iff)
  then show "im_inv s' \<and> reservation_of (im_ledger s) (rr_orderId r) = None \<and>
      im_ledger s' = (im_ledger s) \<lparr>ledger_reservations := ledger_reservations (im_ledger s) @ [r]\<rparr>"
    using s new by (simp add: s' im_inv_def im_ledger_def)
next
  fix s e u s'
  assume "im_inv s" "enqueueEvent im_createTransaction e s = Inr (u, s')"
  then show "im_inv s' \<and> im_ledger s' =
      (im_ledger s) \<lparr>ledger_outbox := ledger_outbox (im_ledger s) @ [json_wire (result_js e)]\<rparr>"
    by (auto simp: im_createTransaction_def im_enqueueEvent_def im_ledger_def im_inv_def)
next
  fix s p c
  assume "im_inv s" "ledger_stock (im_ledger s) p = Some c"
  then show "0 \<le> c"
    by (auto simp: im_inv_def im_ledger_def list_all_iff dest!: map_of_SomeD)
qed

lemma im_decrement_returns:
  assumes "distinct (map_keys q)" "im_inv s"
    "list_all (\<lambda>(p, n). case map_of (im_stock s) p of None \<Rightarrow> False | Some c \<Rightarrow> n \<le> c) q"
    "list_all (\<lambda>(p, n). 0 < n) q"
  shows "\<exists>r. forEachE im_decrement_one q s = Inr r"
  using assms
proof (induction q arbitrary: s)
  case (Cons x q)
  obtain p n where x: "x = (p, n)" by fastforce
  with Cons.prems obtain c where c: "map_of (im_stock s) p = Some c" "n \<le> c"
    by (auto split: option.splits)
  let ?s1 = "s \<lparr>im_stock := map_set p (c - n) (im_stock s)\<rparr>"
  have s1: "im_decrement_one x s = Inr ((), ?s1)"
    using c x by (simp add: im_decrement_one_def map_or_def Let_def)
  have "im_inv ?s1"
    using Cons.prems(2) c unfolding im_inv_def
    by (auto intro!: list_all_map_set simp: distinct_map_set)
  moreover have "list_all (\<lambda>(p, n). case map_of (im_stock ?s1) p of None \<Rightarrow> False | Some c \<Rightarrow> n \<le> c) q"
    using Cons.prems(1,3) x unfolding list_all_iff by (force split: if_splits)
  ultimately have "\<exists>r. forEachE im_decrement_one q ?s1 = Inr r"
    using Cons.prems by (intro Cons.IH) simp_all
  with s1 show ?case by (simp add: bindE_def)
qed simp

interpretation rim: reliable_inventory_store im_createTransaction im_ledger im_inv "\<lambda>_. True"
    "\<lambda>_ _. True" "\<lambda>_ _. True" "\<lambda>_. True"
proof unfold_locales
  fix s q
  assume "im_inv s" "quantities_ok q" "can_take q (im_ledger s)"
  then show "\<exists>r. decrementStock im_createTransaction q s = Inr r"
    using im_decrement_returns [of q s]
    by (simp add: im_createTransaction_def im_decrementStock_def quantities_ok_def can_take_def im_ledger_def)
next
  fix s and rec :: ReservationRecord
  assume "im_inv s" "reservation_of (im_ledger s) (rr_orderId rec) = None"
  then show "\<exists>r. recordReservation im_createTransaction rec s = Inr r"
    by (auto simp: im_createTransaction_def im_recordReservation_def im_reservation_of map_of_eq_None_iff)
qed (simp_all add: im_createTransaction_def im_lockOrder_def im_lockStock_def im_enqueueEvent_def)

end
