(* ===== verification/MessageErrors.thy ===== *)
theory MessageErrors
  imports JsValue
begin

text \<open>
  shared/messaging/src/messageErrors.ts: the error classes and the text of an error, with the
  structured logger of shared/logging/src/structuredLogger.ts. A log call is a value; the
  handlers of the later theories return the calls they make.
\<close>

section \<open>Error messages\<close>

fun error_name :: "js_error \<Rightarrow> string" where
  "error_name (JsError m) = ''Error''"
| "error_name (PermanentMessageError m) = ''PermanentMessageError''"
| "error_name (PublishTimeoutError m) = ''PublishTimeoutError''"
| "error_name (UnroutableMessageError ex key code reply) = ''UnroutableMessageError''"
| "error_name (AbortError m) = ''AbortError''"
| "error_name (ConfigurationError m) = ''ConfigurationError''"
| "error_name (DatabaseError m) = ''error''"

fun error_message :: "js_error \<Rightarrow> string" where
  "error_message (JsError m) = m"
| "error_message (PermanentMessageError m) = m"
| "error_message (PublishTimeoutError m) = m"
| "error_message (UnroutableMessageError ex key code reply) =
     ''RabbitMQ could not route the message: exchange '' @ [CHR 0x27] @ ex @ [CHR 0x27] @
     '', routing key '' @ [CHR 0x27] @ key @ [CHR 0x27] @
     '' ('' @ int_text code @ '' '' @ reply @ '').''"
| "error_message (AbortError m) = m"
| "error_message (ConfigurationError m) = m"
| "error_message (DatabaseError m) = m"

text \<open>
  The properties of an error object that \<open>JSON.stringify\<close> sees: the classes that assign
  \<open>this.name\<close> own it; a plain \<open>Error\<close> owns nothing enumerable.
\<close>

fun error_fields :: "js_error \<Rightarrow> (string \<times> js) list" where
  "error_fields (JsError m) = []"
| "error_fields (UnroutableMessageError ex key code reply) =
     [(''exchange'', JStr ex), (''routingKey'', JStr key), (''replyCode'', JNum (Fin (of_int code))),
      (''replyText'', JStr reply), (''name'', JStr ''UnroutableMessageError'')]"
| "error_fields (DatabaseError m) = []"
| "error_fields e = [(''name'', JStr (error_name e))]"

text \<open>Anything can be thrown: an error object or any other value.\<close>

datatype thrown = ThrownError js_error | ThrownValue js

text \<open>\<open>String(value)\<close> of a plain value: an array joins its elements, an object hides its own.\<close>

fun String_of :: "(rat \<Rightarrow> string) \<Rightarrow> js \<Rightarrow> string" where
  "String_of num_text JUndefined = ''undefined''"
| "String_of num_text JNull = ''null''"
| "String_of num_text (JBool b) = (if b then ''true'' else ''false'')"
| "String_of num_text (JNum n) =
     (case n of Fin r \<Rightarrow> num_text r | PosInf \<Rightarrow> ''Infinity'' | NegInf \<Rightarrow> ''-Infinity'' | NaN \<Rightarrow> ''NaN'')"
| "String_of num_text (JStr s) = s"
| "String_of num_text (JArr vs) =
     join '','' (map (\<lambda>v. if v = JUndefined \<or> v = JNull then [] else String_of num_text v) vs)"
| "String_of num_text (JObj fs) = ''[object Object]''"

definition getErrorMessage :: "(rat \<Rightarrow> string) \<Rightarrow> thrown \<Rightarrow> string" where
  "getErrorMessage num_text error =
     (case error of
        ThrownError e \<Rightarrow>
          if 0 < length (error_message e) then error_message e
          else json_text num_text (JObj (error_fields e))
      | ThrownValue v \<Rightarrow>
          (case v of
             JObj _ \<Rightarrow> json_text num_text v
           | JArr _ \<Rightarrow> json_text num_text v
           | _ \<Rightarrow> (if 0 < length (String_of num_text v) then String_of num_text v
                  else ''Unknown error'')))"

lemma getErrorMessage_nonempty:
  assumes "\<And>r. num_text r \<noteq> []"
  shows "getErrorMessage num_text error \<noteq> []"
  by (cases error) (auto simp: getErrorMessage_def split: js.split)

section \<open>Structured logging\<close>

type_synonym log_context = "(string \<times> js) list"

text \<open>A call of \<open>error\<close> whose error is \<open>undefined\<close> is \<open>LogErrorOnly\<close>.\<close>

datatype log_call =
    LogInfo string log_context
  | LogWarn string log_context
  | LogError string js_error log_context
  | LogErrorOnly string log_context

datatype LogLevel = info | warn | error

fun level_text :: "LogLevel \<Rightarrow> string" where
  "level_text info = ''info''"
| "level_text warn = ''warn''"
| "level_text error = ''error''"

text \<open>Object spread: later properties win, the place of a repeated one stays.\<close>

definition spread :: "log_context \<Rightarrow> log_context \<Rightarrow> log_context" where
  "spread a b = foldl (\<lambda>m (k, v). map_set k v m) a b"

record StructuredLogger =
  log_service :: string
  baseContext :: log_context

definition createStructuredLogger :: "string \<Rightarrow> log_context option \<Rightarrow> StructuredLogger" where
  "createStructuredLogger service base =
     \<lparr>log_service = service, baseContext = (case base of None \<Rightarrow> [] | Some c \<Rightarrow> c)\<rparr>"

definition logger_child :: "StructuredLogger \<Rightarrow> log_context \<Rightarrow> StructuredLogger" where
  "logger_child lg ctx =
     \<lparr>log_service = log_service lg, baseContext = spread (spread [] (baseContext lg)) ctx\<rparr>"

definition getUnknownErrorMessage :: "(rat \<Rightarrow> string) \<Rightarrow> js \<Rightarrow> string" where
  "getUnknownErrorMessage num_text v =
     (case v of JStr s \<Rightarrow> s | JUndefined \<Rightarrow> ''undefined'' | _ \<Rightarrow> json_text num_text v)"

definition serializeError :: "(rat \<Rightarrow> string) \<Rightarrow> string option \<Rightarrow> thrown \<Rightarrow> js" where
  "serializeError num_text stack err =
     (case err of
        ThrownError e \<Rightarrow> JObj ([(''name'', JStr (error_name e)), (''message'', JStr (error_message e))]
          @ (case stack of None \<Rightarrow> [] | Some s \<Rightarrow> if s = [] then [] else [(''stack'', JStr s)]))
      | ThrownValue v \<Rightarrow> JObj [(''name'', JStr ''UnknownError''),
          (''message'', JStr (getUnknownErrorMessage num_text v))])"

text \<open>The entry one log call writes, with the method of the writer that gets it.\<close>

definition write_entry ::
    "(rat \<Rightarrow> string) \<Rightarrow> string \<Rightarrow> StructuredLogger \<Rightarrow> LogLevel \<Rightarrow> string
      \<Rightarrow> (string option \<times> thrown) option \<Rightarrow> log_context \<Rightarrow> LogLevel \<times> js" where
  "write_entry num_text now lg level message err ctx =
     (let merged = spread (spread [] (baseContext lg)) ctx
      in (level, JObj (
        [(''timestamp'', JStr now), (''level'', JStr (level_text level)),
         (''service'', JStr (log_service lg)), (''message'', JStr message)]
        @ (if 0 < length merged then [(''context'', JObj merged)] else [])
        @ (case err of None \<Rightarrow> []
           | Some (stack, e) \<Rightarrow> [(''error'', serializeError num_text stack e)]))))"

fun logger_call ::
    "(rat \<Rightarrow> string) \<Rightarrow> string \<Rightarrow> StructuredLogger \<Rightarrow> log_call \<Rightarrow> LogLevel \<times> js" where
  "logger_call num_text now lg (LogInfo m c) = write_entry num_text now lg info m None c"
| "logger_call num_text now lg (LogWarn m c) = write_entry num_text now lg warn m None c"
| "logger_call num_text now lg (LogError m e c) =
     write_entry num_text now lg error m (Some (None, ThrownError e)) c"
| "logger_call num_text now lg (LogErrorOnly m c) = write_entry num_text now lg error m None c"

lemma spread_lookup:
  "map_of (spread a b) k = (case map_of (rev b) k of Some v \<Rightarrow> Some v | None \<Rightarrow> map_of a k)"
proof (induction b rule: rev_induct)
  case (snoc x b)
  then show ?case by (cases x) (auto simp: spread_def map_add_def split: option.split)
qed (simp add: spread_def)

lemma spread_distinct: "distinct (map_keys a) \<Longrightarrow> distinct (map_keys (spread a b))"
  unfolding spread_def
proof (induction b arbitrary: a)
  case (Cons x b)
  then show ?case by (cases x) (simp add: Cons.IH)
qed simp

text \<open>
  Whatever context a caller or a parent logger supplies, an entry states its own level,
  service and message, and a context key holds the value of the innermost context that sets it.
\<close>

lemma log_entry_fields:
  "fst (write_entry nt now lg level m err ctx) = level
   \<and> js_get (snd (write_entry nt now lg level m err ctx)) ''level'' = JStr (level_text level)
   \<and> js_get (snd (write_entry nt now lg level m err ctx)) ''service'' = JStr (log_service lg)
   \<and> js_get (snd (write_entry nt now lg level m err ctx)) ''message'' = JStr m
   \<and> (\<forall>c k. js_get (js_get (snd (write_entry nt now (logger_child lg c) level m err ctx)) ''context'') k =
       (case map_of (rev ctx) k of Some v \<Rightarrow> v
        | None \<Rightarrow> (case map_of (rev c) k of Some v \<Rightarrow> v
          | None \<Rightarrow> (case map_of (rev (baseContext lg)) k of Some v \<Rightarrow> v | None \<Rightarrow> JUndefined))))"
proof -
  have "js_get (js_get (snd (write_entry nt now (logger_child lg c) level m err ctx)) ''context'') k =
      js_get (JObj (spread (spread [] (spread (spread [] (baseContext lg)) c)) ctx)) k" for c k
    by (auto simp: write_entry_def logger_child_def Let_def split: option.split)
  moreover have "map_of (spread [] (spread (spread [] b) c)) k = map_of (spread (spread [] b) c) k" for b c k
  proof -
    have "distinct (map_keys (spread (spread [] b) c))" by (intro spread_distinct) simp
    then have "map_of (rev (spread (spread [] b) c)) k = map_of (spread (spread [] b) c) k"
      by (metis distinct_rev map_of_inject_set rev_map set_rev)
    then show ?thesis by (subst spread_lookup) (simp split: option.split)
  qed
  ultimately show ?thesis
    by (auto simp: write_entry_def Let_def spread_lookup split: option.split)
qed

end
