(* ===== verification/InventoryService.thy ===== *)
theory InventoryService
  imports InventoryStore MessageErrors
begin

text \<open>
  services/inventory-service/src/inventoryService.ts and paymentAuthorizedHandler.ts: the
  reservation decision, the abstract specification it implements, and the message handler.
  The ids \<open>generateId\<close> returns within one call and the time are arguments.
\<close>

section \<open>Quantities\<close>

definition aggregateQuantities :: "OrderItem list \<Rightarrow> (string, int) jsmap" where
  "aggregateQuantities items =
     foldl (\<lambda>m item. map_set (productId item)
              (int_add (map_or 0 m (productId item)) (quantity item)) m) [] items"

definition findUnavailableItems ::
    "(string, int) jsmap \<Rightarrow> (string, int) jsmap \<Rightarrow> UnavailableItem list" where
  "findUnavailableItems requested available =
     [\<lparr>ui_productId = p, requestedQuantity = n, availableQuantity = map_or 0 available p\<rparr>.
        (p, n) \<leftarrow> requested, map_or 0 available p < n]"

section \<open>The result events\<close>

definition INVENTORY_RESERVATION_FAILURE_REASON :: string where
  "INVENTORY_RESERVATION_FAILURE_REASON =
     ''One or more products are not available in the requested quantity.''"

definition createInventoryReservedEvent ::
    "(nat \<Rightarrow> string) \<Rightarrow> string \<Rightarrow> PaymentAuthorizedEvent \<Rightarrow> InventoryReservedEvent" where
  "createInventoryReservedEvent generateId now sourceEvent =
     \<lparr>eventId = generateId 0, eventType = InventoryReserved, occurredAt = now,
      correlationId = correlationId sourceEvent,
      event_data = \<lparr>ir_orderId = pa_orderId (event_data sourceEvent),
        ir_reservationId = generateId 1, ir_items = pa_items (event_data sourceEvent)\<rparr>\<rparr>"

definition createReservationFailedEvent ::
    "(nat \<Rightarrow> string) \<Rightarrow> string \<Rightarrow> PaymentAuthorizedEvent \<Rightarrow> UnavailableItem list
      \<Rightarrow> InventoryReservationFailedEvent" where
  "createReservationFailedEvent generateId now sourceEvent unavailable =
     \<lparr>eventId = generateId 0, eventType = InventoryReservationFailed, occurredAt = now,
      correlationId = correlationId sourceEvent,
      event_data = \<lparr>rf_orderId = pa_orderId (event_data sourceEvent),
        rf_reason = INVENTORY_RESERVATION_FAILURE_REASON, unavailableItems = unavailable\<rparr>\<rparr>"

section \<open>The decision\<close>

datatype ReservationOutcome =
    Processed InventoryResultEvent
  | Duplicate ReservationRecord

definition rejected_record ::
    "PaymentAuthorizedEvent \<Rightarrow> InventoryReservationFailedEvent \<Rightarrow> ReservationRecord" where
  "rejected_record sourceEvent event =
     \<lparr>rr_orderId = pa_orderId (event_data sourceEvent), rr_status = Rejected, rr_reservationId = None,
      rr_sourceEventId = eventId sourceEvent, rr_resultEventId = eventId event,
      rr_items = pa_items (event_data sourceEvent)\<rparr>"

definition reserved_record ::
    "PaymentAuthorizedEvent \<Rightarrow> InventoryReservedEvent \<Rightarrow> ReservationRecord" where
  "reserved_record sourceEvent event =
     \<lparr>rr_orderId = pa_orderId (event_data sourceEvent), rr_status = Reserved,
      rr_reservationId = Some (ir_reservationId (event_data event)),
      rr_sourceEventId = eventId sourceEvent, rr_resultEventId = eventId event,
      rr_items = pa_items (event_data sourceEvent)\<rparr>"

text \<open>
  The work that \<open>reserveForPayment\<close> passes to \<open>inTransaction\<close>, with its two closing
  branches named.
\<close>

definition reject_order ::
    "'s InventoryTransaction \<Rightarrow> (nat \<Rightarrow> string) \<Rightarrow> string \<Rightarrow> PaymentAuthorizedEvent
      \<Rightarrow> UnavailableItem list \<Rightarrow> ('s, ReservationOutcome) tx" where
  "reject_order T generateId now sourceEvent unavailable =
     (let event = createReservationFailedEvent generateId now sourceEvent unavailable
      in bindE (recordReservation T (rejected_record sourceEvent event)) (\<lambda>_.
         bindE (enqueueEvent T (FailedResult event)) (\<lambda>_.
         returnE (Processed (FailedResult event)))))"

definition reserve_order ::
    "'s InventoryTransaction \<Rightarrow> (nat \<Rightarrow> string) \<Rightarrow> string \<Rightarrow> PaymentAuthorizedEvent
      \<Rightarrow> (string, int) jsmap \<Rightarrow> ('s, ReservationOutcome) tx" where
  "reserve_order T generateId now sourceEvent requested =
     bindE (decrementStock T requested) (\<lambda>_.
     let event = createInventoryReservedEvent generateId now sourceEvent
     in bindE (recordReservation T (reserved_record sourceEvent event)) (\<lambda>_.
        bindE (enqueueEvent T (ReservedResult event)) (\<lambda>_.
        returnE (Processed (ReservedResult event)))))"

definition reservation_work ::
    "'s InventoryTransaction \<Rightarrow> (nat \<Rightarrow> string) \<Rightarrow> string \<Rightarrow> PaymentAuthorizedEvent
      \<Rightarrow> ('s, ReservationOutcome) tx" where
  "reservation_work T generateId now sourceEvent =
     bindE (lockOrder T (pa_orderId (event_data sourceEvent))) (\<lambda>existing.
     case existing of
       Some r \<Rightarrow> returnE (Duplicate r)
     | None \<Rightarrow>
         (let requested = aggregateQuantities (pa_items (event_data sourceEvent))
          in bindE (lockStock T (map_keys requested)) (\<lambda>available.
             let unavailable = findUnavailableItems requested available
             in if 0 < length unavailable then reject_order T generateId now sourceEvent unavailable
                else reserve_order T generateId now sourceEvent requested)))"

definition reserveForPayment ::
    "(('s, ReservationOutcome) tx \<Rightarrow> 's \<Rightarrow> (js_error + ReservationOutcome) \<times> 's)
      \<Rightarrow> 's InventoryTransaction \<Rightarrow> (nat \<Rightarrow> string) \<Rightarrow> string \<Rightarrow> PaymentAuthorizedEvent
      \<Rightarrow> 's \<Rightarrow> (js_error + ReservationOutcome) \<times> 's" where
  "reserveForPayment inTransaction T generateId now sourceEvent =
     inTransaction (reservation_work T generateId now sourceEvent)"

section \<open>The message handler\<close>

definition logInventoryReserved :: "InventoryReservedEvent \<Rightarrow> log_call" where
  "logInventoryReserved e = LogInfo ''Reserved inventory''
     [(''eventId'', JStr (eventId e)), (''orderId'', JStr (ir_orderId (event_data e))),
      (''reservationId'', JStr (ir_reservationId (event_data e))),
      (''correlationId'', JStr (correlationId e)),
      (''itemCount'', int_js (int (length (ir_items (event_data e)))))]"

definition logInventoryReservationFailed :: "InventoryReservationFailedEvent \<Rightarrow> log_call" where
  "logInventoryReservationFailed e = LogWarn ''Inventory reservation failed''
     [(''eventId'', JStr (eventId e)), (''orderId'', JStr (rf_orderId (event_data e))),
      (''correlationId'', JStr (correlationId e)), (''reason'', JStr (rf_reason (event_data e))),
      (''unavailableItems'', JArr (map unavailable_js (unavailableItems (event_data e))))]"

fun logInventoryResult :: "InventoryResultEvent \<Rightarrow> log_call" where
  "logInventoryResult (ReservedResult e) = logInventoryReserved e"
| "logInventoryResult (FailedResult e) = logInventoryReservationFailed e"

fun status_text :: "ReservationStatus \<Rightarrow> string" where
  "status_text Reserved = ''Reserved''"
| "status_text Rejected = ''Rejected''"

definition log_payment_received :: "PaymentAuthorizedEvent \<Rightarrow> log_call" where
  "log_payment_received e = LogInfo ''Received PaymentAuthorized''
     [(''eventId'', JStr (eventId e)), (''orderId'', JStr (pa_orderId (event_data e))),
      (''paymentId'', JStr (pa_paymentId (event_data e))),
      (''correlationId'', JStr (correlationId e)), (''amount'', JNum (pa_amount (event_data e))),
      (''itemCount'', int_js (int (length (pa_items (event_data e)))))]"

definition log_payment_duplicate :: "PaymentAuthorizedEvent \<Rightarrow> ReservationRecord \<Rightarrow> log_call" where
  "log_payment_duplicate e r =
     LogWarn ''Ignored duplicate PaymentAuthorized for an already processed order''
     [(''eventId'', JStr (eventId e)), (''orderId'', JStr (pa_orderId (event_data e))),
      (''correlationId'', JStr (correlationId e)),
      (''originalSourceEventId'', JStr (rr_sourceEventId r)),
      (''originalStatus'', JStr (status_text (rr_status r))),
      (''originalResultEventId'', JStr (rr_resultEventId r))]"

text \<open>
  The handler returns whether it threw, the log calls it made, how often it woke the outbox
  relay (\<open>onEventEnqueued\<close>) and the state the store is left in.
\<close>

record 's handler_result =
  hr_error :: "js_error option"
  hr_logs :: "log_call list"
  hr_wakeups :: nat
  hr_store :: 's

definition paymentAuthorizedHandler ::
    "('s \<Rightarrow> (js_error + ReservationOutcome) \<times> 's) \<Rightarrow> PaymentAuthorizedEvent \<Rightarrow> 's
      \<Rightarrow> 's handler_result" where
  "paymentAuthorizedHandler reserve event s =
     (case reserve s of
        (Inl e, s') \<Rightarrow> \<lparr>hr_error = Some e, hr_logs = [log_payment_received event],
           hr_wakeups = 0, hr_store = s'\<rparr>
      | (Inr (Duplicate r), s') \<Rightarrow> \<lparr>hr_error = None,
           hr_logs = [log_payment_received event, log_payment_duplicate event r],
           hr_wakeups = 0, hr_store = s'\<rparr>
      | (Inr (Processed result), s') \<Rightarrow> \<lparr>hr_error = None,
           hr_logs = [log_payment_received event, logInventoryResult result],
           hr_wakeups = 1, hr_store = s'\<rparr>)"

section \<open>What the aggregation computes\<close>

text \<open>The products in the order of their first item, and what is asked of each.\<close>

definition product_ids :: "OrderItem list \<Rightarrow> string list" where
  "product_ids items = rev (remdups (rev (map productId items)))"

definition requested_quantity :: "OrderItem list \<Rightarrow> string \<Rightarrow> int" where
  "requested_quantity items p =
     sum_list (map quantity (filter (\<lambda>i. productId i = p) items))"

definition wanted :: "OrderItem list \<Rightarrow> (string, int) jsmap" where
  "wanted items = map (\<lambda>p. (p, requested_quantity items p)) (product_ids items)"

text \<open>Sums stay in the range in which a double holds every integer.\<close>

definition exact_quantities :: "OrderItem list \<Rightarrow> bool" where
  "exact_quantities items =
     (list_all (\<lambda>i. 0 < quantity i) items \<and> list_all (\<lambda>p. requested_quantity items p \<le> 2 ^ 53) (product_ids items))"

lemma aggregateQuantities_snoc:
  "aggregateQuantities (items @ [i]) =
     map_set (productId i) (int_add (map_or 0 (aggregateQuantities items) (productId i)) (quantity i))
       (aggregateQuantities items)"
  by (simp add: aggregateQuantities_def)

lemma aggregateQuantities_distinct: "distinct (map_keys (aggregateQuantities items))"
  by (induction items rule: rev_induct) (simp_all add: aggregateQuantities_snoc, simp add: aggregateQuantities_def)

lemma aggregateQuantities_keys: "set (map_keys (aggregateQuantities items)) = productId ` set items"
proof (induction items rule: rev_induct)
  case (snoc i items)
  then show ?case unfolding aggregateQuantities_snoc set_keys_map_set by simp
qed (simp add: aggregateQuantities_def)

lemma map_or_mem: "map_or d m k = d \<or> (k, map_or d m k) \<in> set m"
  by (auto simp: map_or_def split: option.split dest: map_of_SomeD)

lemma aggregateQuantities_pos:
  "list_all (\<lambda>i. 0 < quantity i) items \<Longrightarrow> list_all (\<lambda>(p, n). 0 < n) (aggregateQuantities items)"
proof (induction items rule: rev_induct)
  case (snoc i items)
  then have IH: "list_all (\<lambda>(p, n). 0 < n) (aggregateQuantities items)" by simp
  have "0 \<le> map_or 0 (aggregateQuantities items) (productId i)"
    using map_or_mem [of 0 "aggregateQuantities items" "productId i"] IH
    by (auto simp: list_all_iff)
  with IH snoc.prems show ?case
    unfolding aggregateQuantities_snoc by (intro list_all_map_set) (simp_all add: int_add_pos)
qed (simp add: aggregateQuantities_def)

lemma valid_items_positive: "list_all valid_item items \<Longrightarrow> list_all (\<lambda>i. 0 < quantity i) items"
  by (auto simp: list_all_iff valid_item_def)

lemma aggregateQuantities_ok:
  "list_all (\<lambda>i. 0 < quantity i) items \<Longrightarrow> quantities_ok (aggregateQuantities items)"
  by (simp add: quantities_ok_def aggregateQuantities_distinct aggregateQuantities_pos)

lemma product_ids_snoc:
  "product_ids (items @ [i]) =
     (if productId i \<in> productId ` set items then product_ids items else product_ids items @ [productId i])"
  by (simp add: product_ids_def)

lemma set_product_ids: "set (product_ids items) = productId ` set items"
  by (simp add: product_ids_def)

lemma requested_quantity_snoc:
  "requested_quantity (items @ [i]) p = requested_quantity items p + (if productId i = p then quantity i else 0)"
  by (simp add: requested_quantity_def)

lemma requested_quantity_absent: "p \<notin> productId ` set items \<Longrightarrow> requested_quantity items p = 0"
  by (induction items) (auto simp: requested_quantity_def)

lemma requested_quantity_nonneg:
  "list_all (\<lambda>i. 0 < quantity i) items \<Longrightarrow> 0 \<le> requested_quantity items p"
  by (induction items) (auto simp: requested_quantity_def)

lemma map_of_pairs: "map_of (map (\<lambda>p. (p, f p)) ps) p = (if p \<in> set ps then Some (f p) else None)"
  by (induction ps) auto

lemma map_set_pairs:
  "distinct ps \<Longrightarrow> map_set k v (map (\<lambda>p. (p, f p)) ps) =
     (if k \<in> set ps then map (\<lambda>p. (p, (f(k := v)) p)) ps
      else map (\<lambda>p. (p, (f(k := v)) p)) (ps @ [k]))"
  by (induction ps) auto

lemma wanted_get:
  "map_of (wanted items) p = (if p \<in> productId ` set items then Some (requested_quantity items p) else None)"
  by (simp add: wanted_def map_of_pairs set_product_ids)

lemma map_or_wanted: "map_or 0 (wanted items) p = requested_quantity items p"
  by (simp add: map_or_def wanted_get requested_quantity_absent)

lemma exact_quantities_snoc:
  assumes "exact_quantities (items @ [i])"
  shows "exact_quantities items" "0 < quantity i"
    "requested_quantity items (productId i) + quantity i \<le> 2 ^ 53"
proof -
  from assms show q: "0 < quantity i" by (simp add: exact_quantities_def)
  have le: "requested_quantity (items @ [i]) p \<le> 2 ^ 53" if "p \<in> productId ` set (items @ [i])" for p
    using assms that by (auto simp: exact_quantities_def list_all_iff set_product_ids)
  show "requested_quantity items (productId i) + quantity i \<le> 2 ^ 53"
    using le [of "productId i"] by (simp add: requested_quantity_snoc)
  have "requested_quantity items p \<le> 2 ^ 53" if "p \<in> set (product_ids items)" for p
    using le [of p] that q by (auto simp: requested_quantity_snoc set_product_ids split: if_splits)
  then show "exact_quantities items"
    using assms by (simp add: exact_quantities_def list_all_iff)
qed

lemma aggregate_wanted: "exact_quantities items \<Longrightarrow> aggregateQuantities items = wanted items"
proof (induction items rule: rev_induct)
  case (snoc i items)
  note e = exact_quantities_snoc [OF snoc.prems]
  let ?f = "requested_quantity items" and ?p = "productId i"
  have pos: "0 \<le> ?f ?p"
    using e(1) by (intro requested_quantity_nonneg) (simp add: exact_quantities_def)
  have "int_add (?f ?p) (quantity i) = ?f ?p + quantity i"
    using e(2,3) pos by (intro int_add_exact) simp
  then have "aggregateQuantities (items @ [i]) = map_set ?p (?f ?p + quantity i) (wanted items)"
    by (simp add: aggregateQuantities_snoc snoc.IH [OF e(1)] map_or_wanted)
  moreover have "?f(?p := ?f ?p + quantity i) = requested_quantity (items @ [i])"
    by (auto simp: fun_eq_iff requested_quantity_snoc)
  moreover have "distinct (product_ids items)" by (simp add: product_ids_def)
  ultimately show ?case
    by (simp only: wanted_def map_set_pairs product_ids_snoc set_product_ids split: if_split) simp
qed (simp add: aggregateQuantities_def wanted_def product_ids_def)

section \<open>The abstract decision\<close>

text \<open>
  What one PaymentAuthorized event does to the ledger: nothing when the order has an outcome,
  and otherwise one outcome and one outbox payload, with the stock taken exactly when all of
  it is there.
\<close>

definition ledger_missing :: "(string, int) jsmap \<Rightarrow> Ledger \<Rightarrow> UnavailableItem list" where
  "ledger_missing q l =
     [\<lparr>ui_productId = p, requestedQuantity = n,
        availableQuantity = (case ledger_stock l p of None \<Rightarrow> 0 | Some c \<Rightarrow> c)\<rparr>.
        (p, n) \<leftarrow> q, (case ledger_stock l p of None \<Rightarrow> 0 | Some c \<Rightarrow> c) < n]"

definition ledger_append :: "ReservationRecord \<Rightarrow> InventoryResultEvent \<Rightarrow> Ledger \<Rightarrow> Ledger" where
  "ledger_append r e l =
     l \<lparr>ledger_reservations := ledger_reservations l @ [r],
        ledger_outbox := ledger_outbox l @ [json_wire (result_js e)]\<rparr>"

definition reserve_spec ::
    "(string, int) jsmap \<Rightarrow> (nat \<Rightarrow> string) \<Rightarrow> string \<Rightarrow> PaymentAuthorizedEvent \<Rightarrow> Ledger
      \<Rightarrow> ReservationOutcome \<times> Ledger" where
  "reserve_spec q gen now ev l =
     (case reservation_of l (pa_orderId (event_data ev)) of
        Some r \<Rightarrow> (Duplicate r, l)
      | None \<Rightarrow>
          if ledger_missing q l = [] then
            (let e = createInventoryReservedEvent gen now ev
             in (Processed (ReservedResult e),
                 ledger_append (reserved_record ev e) (ReservedResult e) (take_stock q l)))
          else
            (let e = createReservationFailedEvent gen now ev (ledger_missing q l)
             in (Processed (FailedResult e),
                 ledger_append (rejected_record ev e) (FailedResult e) l)))"

lemma ledger_missing_cong:
  "(\<And>p. p \<in> set (map_keys q) \<Longrightarrow> map_get m p = ledger_stock l p)
    \<Longrightarrow> findUnavailableItems q m = ledger_missing q l"
  unfolding findUnavailableItems_def ledger_missing_def map_or_def
  by (induction q) (auto split: prod.splits)

lemma reservation_of_append:
  "reservation_of (ledger_append r e l) oid =
     (case reservation_of l oid of Some r' \<Rightarrow> Some r' | None \<Rightarrow> if rr_orderId r = oid then Some r else None)"
  by (simp add: reservation_of_def ledger_append_def find_append split: option.split)

lemma take_stock_simps [simp]:
  "ledger_reservations (take_stock q l) = ledger_reservations l"
  "ledger_outbox (take_stock q l) = ledger_outbox l"
  "reservation_of (take_stock q l) = reservation_of l"
  by (simp_all add: take_stock_def reservation_of_def fun_eq_iff)

lemma ledger_append_simps [simp]:
  "ledger_stock (ledger_append r e l) = ledger_stock l"
  "ledger_reservations (ledger_append r e l) = ledger_reservations l @ [r]"
  "ledger_outbox (ledger_append r e l) = ledger_outbox l @ [json_wire (result_js e)]"
  by (simp_all add: ledger_append_def)

lemma record_items [simp]:
  "rr_items (rejected_record ev e) = pa_items (event_data ev)"
  "rr_items (reserved_record ev e') = pa_items (event_data ev)"
  "rr_orderId (rejected_record ev e) = pa_orderId (event_data ev)"
  "rr_orderId (reserved_record ev e') = pa_orderId (event_data ev)"
  by (simp_all add: rejected_record_def reserved_record_def)

context inventory_store
begin

lemma record_and_enqueue:
  assumes "inv s" "list_all valid_item (rr_items r)" "id_ok (rr_resultEventId r)"
    "\<forall>i. rr_reservationId r = Some i \<longrightarrow> id_ok i"
    "bindE (recordReservation T r) (\<lambda>_. bindE (enqueueEvent T e) (\<lambda>_. returnE x)) s = Inr (y, s')"
  shows "inv s' \<and> y = x \<and> ledger s' = ledger_append r e (ledger s)"
proof -
  from assms(5) obtain u s1 u' where steps: "recordReservation T r s = Inr (u, s1)"
      "enqueueEvent T e s1 = Inr (u', s')" "y = x" by auto
  from recordReservation_law [OF assms(1-4) steps(1)] enqueueEvent_law [OF _ steps(2)] steps(3)
  show ?thesis by (simp add: ledger_append_def)
qed

lemma reject_order_refines:
  assumes "inv s" "list_all valid_item (pa_items (event_data ev))" "id_ok (gen 0)"
    "reject_order T gen now ev us s = Inr (out, s')"
  shows "inv s' \<and> out = Processed (FailedResult (createReservationFailedEvent gen now ev us))
    \<and> ledger s' = ledger_append (rejected_record ev (createReservationFailedEvent gen now ev us))
        (FailedResult (createReservationFailedEvent gen now ev us)) (ledger s)"
  using record_and_enqueue [OF assms(1) _ _ _ assms(4) [unfolded reject_order_def Let_def]] assms(2,3)
  by (simp add: rejected_record_def createReservationFailedEvent_def)

lemma reserve_order_refines:
  assumes "inv s" "list_all valid_item (pa_items (event_data ev))" "quantities_ok q"
    "id_ok (gen 0)" "id_ok (gen 1)" "reserve_order T gen now ev q s = Inr (out, s')"
  shows "inv s' \<and> out = Processed (ReservedResult (createInventoryReservedEvent gen now ev))
    \<and> can_take q (ledger s)
    \<and> ledger s' = ledger_append (reserved_record ev (createInventoryReservedEvent gen now ev))
        (ReservedResult (createInventoryReservedEvent gen now ev)) (take_stock q (ledger s))"
proof -
  let ?e = "createInventoryReservedEvent gen now ev"
  from assms(6) [unfolded reserve_order_def Let_def bindE_eq_Inr [of "decrementStock T q"]]
  obtain u s1 where s1: "decrementStock T q s = Inr (u, s1)" and rest:
    "bindE (recordReservation T (reserved_record ev ?e)) (\<lambda>_. bindE (enqueueEvent T (ReservedResult ?e))
      (\<lambda>_. returnE (Processed (ReservedResult ?e)))) s1 = Inr (out, s')"
    by (elim exE conjE) (rule that)
  from decrementStock_law [OF assms(1,3) s1] record_and_enqueue [OF _ _ _ _ rest] assms(2,4,5)
  show ?thesis by (simp add: reserved_record_def createInventoryReservedEvent_def)
qed

lemma reservation_work_refines:
  assumes "inv s" "list_all valid_item (pa_items (event_data ev))" "id_ok (gen 0)" "id_ok (gen 1)"
    "reservation_work T gen now ev s = Inr (out, s')"
  shows "inv s' \<and> (out, ledger s') =
    reserve_spec (aggregateQuantities (pa_items (event_data ev))) gen now ev (ledger s)"
proof -
  let ?q = "aggregateQuantities (pa_items (event_data ev))" and ?o = "pa_orderId (event_data ev)"
  have q: "quantities_ok ?q" using assms(2) by (intro aggregateQuantities_ok valid_items_positive)
  from assms(5) [unfolded reservation_work_def Let_def bindE_eq_Inr [of "lockOrder T ?o"]]
  obtain r s1 where r: "lockOrder T ?o s = Inr (r, s1)" and rest:
    "(case r of Some r \<Rightarrow> returnE (Duplicate r) | None \<Rightarrow> bindE (lockStock T (map_keys ?q)) (\<lambda>available.
       if 0 < length (findUnavailableItems ?q available)
       then reject_order T gen now ev (findUnavailableItems ?q available)
       else reserve_order T gen now ev ?q)) s1 = Inr (out, s')"
    by (elim exE conjE) (rule that)
  from lockOrder_law [OF assms(1) r] have s1: "s1 = s" "r = reservation_of (ledger s) ?o" by auto
  show ?thesis
  proof (cases r)
    case (Some rec)
    with s1(2) have found: "reservation_of (ledger s) ?o = Some rec" by simp
    from rest [unfolded Some s1(1)] have "out = Duplicate rec" "s' = s" by simp_all
    with found show ?thesis using assms(1) by (simp add: reserve_spec_def)
  next
    case None
    from rest [unfolded s1(1) None option.case bindE_eq_Inr [of "lockStock T (map_keys ?q)"]]
    obtain m s2 where m: "lockStock T (map_keys ?q) s = Inr (m, s2)" and dec:
      "(if 0 < length (findUnavailableItems ?q m) then reject_order T gen now ev (findUnavailableItems ?q m)
        else reserve_order T gen now ev ?q) s2 = Inr (out, s')"
      by (elim exE conjE) (rule that)
    from lockStock_law [OF assms(1) m] have s2: "s2 = s"
      "\<forall>p \<in> set (map_keys ?q). map_get m p = ledger_stock (ledger s) p" by auto
    from s2(2) have missing: "findUnavailableItems ?q m = ledger_missing ?q (ledger s)"
      by (intro ledger_missing_cong) blast
    from None s1(2) have none: "reservation_of (ledger s) ?o = None" by simp
    show ?thesis
      using dec none s2(1) missing
        reject_order_refines [of s ev gen now "ledger_missing ?q (ledger s)" out s']
        reserve_order_refines [OF assms(1,2) q assms(3,4), of now out s'] assms(1-4)
      by (auto simp: reserve_spec_def Let_def split: if_splits)
  qed
qed

end

section \<open>Runs\<close>

text \<open>
  A delivery is one PaymentAuthorized event with the ids and the time its handling gets. A
  delivery whose work throws leaves the state as it was.
\<close>

record PaymentDelivery =
  pd_event :: PaymentAuthorizedEvent
  pd_ids :: "nat \<Rightarrow> string"
  pd_now :: string

definition valid_delivery :: "PaymentDelivery \<Rightarrow> bool" where
  "valid_delivery d = list_all valid_item (pa_items (event_data (pd_event d)))"

definition ids_accepted :: "(string \<Rightarrow> bool) \<Rightarrow> PaymentDelivery \<Rightarrow> bool" where
  "ids_accepted id_ok d = (id_ok (pd_ids d 0) \<and> id_ok (pd_ids d 1))"

definition work_of :: "'s InventoryTransaction \<Rightarrow> PaymentDelivery \<Rightarrow> ('s, ReservationOutcome) tx" where
  "work_of T d = reservation_work T (pd_ids d) (pd_now d) (pd_event d)"

definition deliver :: "'s InventoryTransaction \<Rightarrow> PaymentDelivery \<Rightarrow> 's \<Rightarrow> 's" where
  "deliver T d s = (case work_of T d s of Inl e \<Rightarrow> s | Inr (out, s') \<Rightarrow> s')"

definition deliver_all :: "'s InventoryTransaction \<Rightarrow> PaymentDelivery list \<Rightarrow> 's \<Rightarrow> 's" where
  "deliver_all T ds s = foldl (\<lambda>s d. deliver T d s) s ds"

text \<open>How much of a product an outcome took.\<close>

definition taken :: "string \<Rightarrow> ReservationRecord \<Rightarrow> int" where
  "taken p r = (if rr_status r = Reserved then map_or 0 (aggregateQuantities (rr_items r)) p else 0)"

text \<open>An outbox payload that announces an outcome.\<close>

definition announces :: "js \<Rightarrow> ReservationRecord \<Rightarrow> bool" where
  "announces payload r =
     (js_get payload ''eventId'' = JStr (rr_resultEventId r)
      \<and> js_get payload ''eventType'' = JStr (case rr_status r of
          Reserved \<Rightarrow> ''InventoryReserved'' | Rejected \<Rightarrow> ''InventoryReservationFailed'')
      \<and> js_get (js_get payload ''data'') ''orderId'' = JStr (rr_orderId r))"

definition ledger_consistent :: "(string \<Rightarrow> int option) \<Rightarrow> Ledger \<Rightarrow> bool" where
  "ledger_consistent stock0 l \<longleftrightarrow>
     distinct (map rr_orderId (ledger_reservations l))
     \<and> list_all2 announces (ledger_outbox l) (ledger_reservations l)
     \<and> (\<forall>p. stock0 p = map_option (\<lambda>c. c + sum_list (map (taken p) (ledger_reservations l))) (ledger_stock l p))"

lemma announces_result:
  "announces (json_wire (result_js (ReservedResult (createInventoryReservedEvent gen now ev))))
     (reserved_record ev (createInventoryReservedEvent gen now ev))"
  "announces (json_wire (result_js (FailedResult (createReservationFailedEvent gen now ev us))))
     (rejected_record ev (createReservationFailedEvent gen now ev us))"
  by (simp_all add: announces_def event_js_defs createInventoryReservedEvent_def
      createReservationFailedEvent_def reserved_record_def rejected_record_def)

lemma reservation_of_None: "reservation_of l oid = None \<longleftrightarrow> (\<forall>r \<in> set (ledger_reservations l). rr_orderId r \<noteq> oid)"
  by (auto simp: reservation_of_def find_None_iff')

lemma append_consistent:
  assumes l: "ledger_consistent stock0 l" "reservation_of l (rr_orderId r) = None"
    and r: "announces (json_wire (result_js e)) r"
    and l': "\<And>p. map_option (\<lambda>c. c + taken p r) (ledger_stock l' p) = ledger_stock l p"
      "ledger_reservations l' = ledger_reservations l" "ledger_outbox l' = ledger_outbox l"
  shows "ledger_consistent stock0 (ledger_append r e l')"
proof -
  have new: "rr_orderId r \<notin> rr_orderId ` set (ledger_reservations l)"
    using l(2) by (auto simp: reservation_of_None)
  have "stock0 p = map_option (\<lambda>c. c + sum_list (map (taken p) (ledger_reservations l))) (ledger_stock l p)" for p
    using l(1) by (simp add: ledger_consistent_def)
  then have "stock0 p = map_option (\<lambda>c. c + (sum_list (map (taken p) (ledger_reservations l)) + taken p r))
      (ledger_stock l' p)" for p
    using l'(1) [of p] by (cases "ledger_stock l' p") (auto simp: algebra_simps)
  moreover have "list_all2 announces (ledger_outbox l @ [json_wire (result_js e)]) (ledger_reservations l @ [r])"
    using l(1) r by (intro list_all2_appendI) (simp_all add: ledger_consistent_def)
  ultimately show ?thesis
    using l(1) new l'(2,3) by (simp add: ledger_consistent_def)
qed

lemma reserve_spec_consistent:
  assumes "ledger_consistent stock0 l"
  shows "ledger_consistent stock0
    (snd (reserve_spec (aggregateQuantities (pa_items (event_data ev))) gen now ev l))"
proof -
  let ?q = "aggregateQuantities (pa_items (event_data ev))"
  have taken: "taken p (reserved_record ev e) = map_or 0 ?q p" "taken p (rejected_record ev e') = 0" for p e e'
    by (simp_all add: taken_def reserved_record_def rejected_record_def)
  have stock: "map_option (\<lambda>c. c + map_or 0 ?q p) (ledger_stock (take_stock ?q l) p) = ledger_stock l p" for p
    by (cases "ledger_stock l p") (simp_all add: take_stock_def map_or_def split: option.split)
  show ?thesis
  proof (cases "reservation_of l (pa_orderId (event_data ev))")
    case None
    then show ?thesis unfolding reserve_spec_def Let_def
      by (auto intro!: append_consistent [OF assms]
          simp: announces_result [simplified] taken stock option.map_ident)
  next
    case (Some r)
    with assms show ?thesis by (simp add: reserve_spec_def)
  qed
qed

context inventory_store
begin

lemma deliver_spec:
  assumes "inv s" "valid_delivery d" "ids_accepted id_ok d"
  shows "inv (deliver T d s) \<and> (ledger (deliver T d s) = ledger s \<or>
    ledger (deliver T d s) = snd (reserve_spec (aggregateQuantities (pa_items (event_data (pd_event d))))
      (pd_ids d) (pd_now d) (pd_event d) (ledger s)))"
proof (cases "work_of T d s")
  case (Inr r)
  obtain out s' where r: "r = (out, s')" by fastforce
  with Inr reservation_work_refines [OF assms(1), of "pd_event d" "pd_ids d" "pd_now d" out s'] assms(2,3)
  have "inv s'" "ledger s' = snd (reserve_spec (aggregateQuantities (pa_items (event_data (pd_event d))))
      (pd_ids d) (pd_now d) (pd_event d) (ledger s))"
    by (simp_all add: work_of_def valid_delivery_def ids_accepted_def) (metis snd_conv)
  with Inr r show ?thesis by (simp add: deliver_def)
qed (use assms in \<open>simp add: deliver_def\<close>)

lemma deliver_all_consistent:
  assumes "inv s" "list_all valid_delivery ds" "list_all (ids_accepted id_ok) ds" "ledger_consistent stock0 (ledger s)"
  shows "inv (deliver_all T ds s) \<and> ledger_consistent stock0 (ledger (deliver_all T ds s))"
  unfolding deliver_all_def
proof (rule foldl_invariant [where P = "\<lambda>s. inv s \<and> ledger_consistent stock0 (ledger s)"])
  fix s d assume "d \<in> set ds" "inv s \<and> ledger_consistent stock0 (ledger s)"
  with assms(2,3) deliver_spec [of s d] reserve_spec_consistent [of stock0 "ledger s" "pd_event d" "pd_ids d" "pd_now d"]
  show "inv (deliver T d s) \<and> ledger_consistent stock0 (ledger (deliver T d s))"
    by (auto simp: list_all_iff)
qed (use assms in simp)

text \<open>An outcome stands: later deliveries for the order find it and change nothing.\<close>

lemma decided_order:
  assumes "inv s" "list_all valid_item (pa_items (event_data ev))" "id_ok (gen 0)" "id_ok (gen 1)"
    "reservation_of (ledger s) (pa_orderId (event_data ev)) = Some r"
    "reservation_work T gen now ev s = Inr (out, s')"
  shows "out = Duplicate r \<and> ledger s' = ledger s"
  using reservation_work_refines [OF assms(1-4,6)] assms(5) by (simp add: reserve_spec_def)

lemma reserve_spec_keeps:
  "reservation_of l oid = Some r \<Longrightarrow> reservation_of (snd (reserve_spec q gen now ev l)) oid = Some r"
  by (auto simp: reserve_spec_def Let_def reservation_of_append split: option.split)

lemma deliver_all_keeps:
  assumes "inv s" "list_all valid_delivery ds" "list_all (ids_accepted id_ok) ds" "reservation_of (ledger s) oid = Some r"
  shows "inv (deliver_all T ds s) \<and> reservation_of (ledger (deliver_all T ds s)) oid = Some r"
  unfolding deliver_all_def
proof (rule foldl_invariant [where P = "\<lambda>s. inv s \<and> reservation_of (ledger s) oid = Some r"])
  fix s d assume "d \<in> set ds" "inv s \<and> reservation_of (ledger s) oid = Some r"
  with assms(2,3) deliver_spec [of s d]
  show "inv (deliver T d s) \<and> reservation_of (ledger (deliver T d s)) oid = Some r"
    by (auto simp: list_all_iff reserve_spec_keeps)
qed (use assms in simp)

end

section \<open>Progress\<close>

lemma can_take_missing:
  "list_all (\<lambda>(p, n). 0 < n) q \<Longrightarrow> ledger_missing q l = [] \<longleftrightarrow> can_take q l"
proof -
  assume pos: "list_all (\<lambda>(p, n). 0 < n) q"
  have "ledger_missing q l = [] \<longleftrightarrow>
      (\<forall>(p, n) \<in> set q. n \<le> (case ledger_stock l p of None \<Rightarrow> 0 | Some c \<Rightarrow> c))"
    by (fastforce simp: ledger_missing_def not_less split: if_splits)
  also have "\<dots> \<longleftrightarrow> can_take q l"
    unfolding can_take_def list_all_iff
  proof (rule ball_cong [OF refl])
    fix x assume "x \<in> set q"
    then obtain p n where "x = (p, n)" "0 < n" using pos by (cases x) (auto simp: list_all_iff)
    then show "(case x of (p, n) \<Rightarrow> n \<le> (case ledger_stock l p of None \<Rightarrow> 0 | Some c \<Rightarrow> c)) =
        (case x of (p, n) \<Rightarrow> case ledger_stock l p of None \<Rightarrow> False | Some c \<Rightarrow> n \<le> c)"
      by (cases "ledger_stock l p") simp_all
  qed
  finally show ?thesis .
qed

definition storable ::
    "('s \<Rightarrow> ReservationRecord \<Rightarrow> bool) \<Rightarrow> ('s \<Rightarrow> InventoryResultEvent \<Rightarrow> bool) \<Rightarrow> (nat \<Rightarrow> string)
      \<Rightarrow> string \<Rightarrow> PaymentAuthorizedEvent \<Rightarrow> UnavailableItem list \<Rightarrow> 's \<Rightarrow> bool" where
  "storable can_record can_enqueue gen now ev us s =
     (can_record s (reserved_record ev (createInventoryReservedEvent gen now ev))
      \<and> can_enqueue s (ReservedResult (createInventoryReservedEvent gen now ev))
      \<and> can_record s (rejected_record ev (createReservationFailedEvent gen now ev us))
      \<and> can_enqueue s (FailedResult (createReservationFailedEvent gen now ev us)))"

lemma record_ids:
  "rr_resultEventId (rejected_record ev (createReservationFailedEvent gen now ev us)) = gen 0"
  "rr_reservationId (rejected_record ev (createReservationFailedEvent gen now ev us)) = None"
  "rr_resultEventId (reserved_record ev (createInventoryReservedEvent gen now ev)) = gen 0"
  "rr_reservationId (reserved_record ev (createInventoryReservedEvent gen now ev)) = Some (gen 1)"
  by (simp_all add: rejected_record_def reserved_record_def createReservationFailedEvent_def
      createInventoryReservedEvent_def)

context reliable_inventory_store
begin

lemma record_and_enqueue_returns:
  assumes "inv s" "list_all valid_item (rr_items r)" "id_ok (rr_resultEventId r)"
    "\<forall>i. rr_reservationId r = Some i \<longrightarrow> id_ok i" "can_record s r" "can_enqueue s e"
    "reservation_of (ledger s) (rr_orderId r) = None"
  shows "\<exists>s'. bindE (recordReservation T r) (\<lambda>_. bindE (enqueueEvent T e) (\<lambda>_. returnE x)) s = Inr (x, s')"
proof -
  from recordReservation_returns [OF assms(1,2,5,7)] obtain u s1 where s1: "recordReservation T r s = Inr (u, s1)"
    by fastforce
  have "inv s1" "can_enqueue s1 e"
    using recordReservation_law [OF assms(1-4) s1] recordReservation_keeps [OF s1] assms(6) by simp_all
  from enqueueEvent_returns [OF this] obtain u' s2 where "enqueueEvent T e s1 = Inr (u', s2)" by fastforce
  with s1 show ?thesis by (simp add: bindE_def)
qed

lemma reservation_work_returns:
  assumes "inv s" "list_all valid_item (pa_items (event_data ev))" "id_ok (gen 0)" "id_ok (gen 1)"
    "storable can_record can_enqueue gen now ev
      (ledger_missing (aggregateQuantities (pa_items (event_data ev))) (ledger s)) s"
    "text_ok (pa_orderId (event_data ev))" "list_all text_ok (map productId (pa_items (event_data ev)))"
  shows "\<exists>out s'. reservation_work T gen now ev s = Inr (out, s')"
proof -
  let ?q = "aggregateQuantities (pa_items (event_data ev))" and ?o = "pa_orderId (event_data ev)"
  have q: "quantities_ok ?q" using assms(2) by (intro aggregateQuantities_ok valid_items_positive)
  have keys: "list_all text_ok (map_keys ?q)"
    unfolding list_all_iff aggregateQuantities_keys using assms(7) by (simp add: list_all_iff)
  from lockOrder_returns [OF assms(1,6)] lockOrder_law [OF assms(1)]
  have lo: "lockOrder T ?o s = Inr (reservation_of (ledger s) ?o, s)" by (metis surj_pair)
  from lockStock_returns [OF assms(1) keys] lockStock_law [OF assms(1)]
  obtain m where ls: "lockStock T (map_keys ?q) s = Inr (m, s)"
      "\<forall>p \<in> set (map_keys ?q). map_get m p = ledger_stock (ledger s) p" by (metis surj_pair)
  then have missing: "findUnavailableItems ?q m = ledger_missing ?q (ledger s)"
    by (intro ledger_missing_cong) blast
  show ?thesis
  proof (cases "reservation_of (ledger s) ?o")
    case (Some r)
    with lo show ?thesis by (simp add: reservation_work_def bindE_def)
  next
    case None
    let ?us = "ledger_missing ?q (ledger s)"
    have "\<exists>out s'. reject_order T gen now ev ?us s = Inr (out, s')"
      unfolding reject_order_def Let_def
      using record_and_enqueue_returns [OF assms(1), of "rejected_record ev (createReservationFailedEvent gen now ev ?us)"
          "FailedResult (createReservationFailedEvent gen now ev ?us)"
          "Processed (FailedResult (createReservationFailedEvent gen now ev ?us))"] None assms(2-5)
      by (simp add: storable_def record_ids) metis
    moreover have "\<exists>out s'. reserve_order T gen now ev ?q s = Inr (out, s')"
      if "ledger_missing ?q (ledger s) = []"
    proof -
      from that q have "can_take ?q (ledger s)" by (simp add: can_take_missing quantities_ok_def)
      from decrementStock_returns [OF assms(1) q keys this] obtain u s1 where
        s1: "decrementStock T ?q s = Inr (u, s1)" by fastforce
      with decrementStock_law [OF assms(1) q s1] decrementStock_keeps [OF s1]
        record_and_enqueue_returns [of s1 "reserved_record ev (createInventoryReservedEvent gen now ev)"
          "ReservedResult (createInventoryReservedEvent gen now ev)"
          "Processed (ReservedResult (createInventoryReservedEvent gen now ev))"] None assms(2-5)
      show ?thesis
        unfolding reserve_order_def Let_def bindE_Inr [of "decrementStock T ?q", OF s1]
        by (simp add: storable_def record_ids) metis
    qed
    ultimately show ?thesis
      using lo ls(1) None missing by (simp add: reservation_work_def Let_def bindE_def)
  qed
qed

end

section \<open>The in-memory service\<close>

lemma ids_accepted_all: "list_all (ids_accepted (\<lambda>_. True)) ds"
  by (simp add: list_all_iff ids_accepted_def)

definition im_reserve ::
    "(nat \<Rightarrow> string) \<Rightarrow> string \<Rightarrow> PaymentAuthorizedEvent \<Rightarrow> InventoryState
      \<Rightarrow> (js_error + ReservationOutcome) \<times> InventoryState" where
  "im_reserve = reserveForPayment im_inTransaction im_createTransaction"

lemma all_True: "list_all (\<lambda>_. True) xs"
  by (simp add: list_all_iff)

lemma im_reserve_eq:
  "im_reserve gen now ev s =
     (case reservation_work im_createTransaction gen now ev s of
        Inl e \<Rightarrow> (Inl e, s) | Inr (out, s') \<Rightarrow> (Inr out, s'))"
  by (simp add: im_reserve_def reserveForPayment_def im_inTransaction_def)

lemma im_reserve_returns:
  assumes "im_inv s" "list_all valid_item (pa_items (event_data ev))"
  shows "\<exists>out s'. im_reserve gen now ev s = (Inr out, s') \<and> im_inv s' \<and> (out, im_ledger s') =
    reserve_spec (aggregateQuantities (pa_items (event_data ev))) gen now ev (im_ledger s)"
proof -
  have "storable (\<lambda>_ _. True) (\<lambda>_ _. True) gen now ev us s" for us by (simp add: storable_def)
  from rim.reservation_work_returns [OF assms TrueI TrueI this TrueI] all_True obtain out s'
    where r: "reservation_work im_createTransaction gen now ev s = Inr (out, s')" by blast
  from im.reservation_work_refines [OF assms TrueI TrueI r] r show ?thesis by (auto simp: im_reserve_eq)
qed

definition sample_payment :: "string \<Rightarrow> int \<Rightarrow> PaymentAuthorizedEvent" where
  "sample_payment oid n = \<lparr>eventId = ''e-1'', eventType = PaymentAuthorized, occurredAt = ''t'',
     correlationId = ''c-1'', event_data = \<lparr>pa_orderId = oid, pa_paymentId = ''p-1'', pa_amount = Fin 7,
       pa_items = [\<lparr>productId = ''A'', quantity = 2, unitPrice = Fin 3\<rparr>,
         \<lparr>productId = ''B'', quantity = 1, unitPrice = Fin 1\<rparr>,
         \<lparr>productId = ''A'', quantity = n, unitPrice = Fin 3\<rparr>]\<rparr>\<rparr>"

definition sample_ids :: "nat \<Rightarrow> string" where
  "sample_ids n = (if n = 0 then ''i-0'' else ''i-1'')"

definition sample_store :: InventoryState where
  "sample_store = inMemoryInventoryStore [(''A'', 5), (''B'', 5)]"

text \<open>
  C1: reserving stock for a paid order implements its specification. On a store whose stock is
  not negative, for an event whose items are valid and whose quantities stay in the exact
  range of a double, \<open>reserveForPayment\<close> always returns; an order that already has an outcome
  gets that outcome back and nothing changes, and otherwise the outcome, the stock taken and
  the one event put in the outbox are exactly those of the abstract decision, which reserves
  iff the stock covers the sum of the order's quantities of every product.
\<close>

theorem reserveForPayment_implements_spec:
  assumes "im_inv s" "list_all valid_item (pa_items (event_data ev))"
    "exact_quantities (pa_items (event_data ev))"
  shows "\<exists>out s'. im_reserve gen now ev s = (Inr out, s') \<and> im_inv s' \<and>
    (out, im_ledger s') = reserve_spec (wanted (pa_items (event_data ev))) gen now ev (im_ledger s)"
  using im_reserve_returns [OF assms(1,2)] aggregate_wanted [OF assms(3)] by simp

theorem reserveForPayment_implements_spec_witness:
  "\<exists>out s'. im_reserve sample_ids ''t'' (sample_payment ''o-1'' 3) sample_store = (Inr out, s') \<and> im_inv s' \<and>
    (out, im_ledger s') = reserve_spec (wanted (pa_items (event_data (sample_payment ''o-1'' 3))))
      sample_ids ''t'' (sample_payment ''o-1'' 3) (im_ledger sample_store)"
proof (rule reserveForPayment_implements_spec)
  show "im_inv sample_store" by code_simp
  show "list_all valid_item (pa_items (event_data (sample_payment ''o-1'' 3)))" by code_simp
  show "exact_quantities (pa_items (event_data (sample_payment ''o-1'' 3)))" by code_simp
qed

text \<open>
  C2: whatever sequence of PaymentAuthorized deliveries a store handles (redeliveries and
  deliveries whose transaction fails included), its stock never becomes negative, every order
  has at most one outcome, the outbox holds exactly one event per outcome, in the same order
  and announcing it, and for every product the initial stock is what is left plus what the
  reservations took.
\<close>

theorem inventory_run_consistent:
  assumes "distinct (map fst stock)" "list_all (\<lambda>(p, n). 0 \<le> n) stock" "list_all valid_delivery ds"
  shows "ledger_consistent (map_of stock)
      (im_ledger (deliver_all im_createTransaction ds (inMemoryInventoryStore stock)))
    \<and> (\<forall>p. 0 \<le> map_or 0 (im_getAllStock (deliver_all im_createTransaction ds (inMemoryInventoryStore stock))) p)"
proof -
  let ?s = "inMemoryInventoryStore stock" and ?t = "deliver_all im_createTransaction ds (inMemoryInventoryStore stock)"
  have "im_inv ?s" "ledger_consistent (map_of stock) (im_ledger ?s)"
    using assms(1,2) by (simp_all add: im_inv_def inMemoryInventoryStore_def ledger_consistent_def
        im_ledger_def option.map_ident)
  from im.deliver_all_consistent [OF this(1) assms(3) _ this(2)] ids_accepted_all
  have t: "im_inv ?t" "ledger_consistent (map_of stock) (im_ledger ?t)" by simp_all
  have "0 \<le> map_or 0 (im_getAllStock ?t) p" for p
    using im.stock_nonneg [OF t(1), of p]
    by (simp add: im_getAllStock_def map_or_def im_ledger_def split: option.split)
  with t(2) show ?thesis by blast
qed

definition sample_delivery_of :: "string \<Rightarrow> int \<Rightarrow> PaymentDelivery" where
  "sample_delivery_of oid n = \<lparr>pd_event = sample_payment oid n, pd_ids = sample_ids, pd_now = ''t''\<rparr>"

theorem inventory_run_consistent_witness:
  "ledger_consistent (map_of [(''A'', 5), (''B'', 5)]) (im_ledger (deliver_all im_createTransaction
     [sample_delivery_of ''o-1'' 3, sample_delivery_of ''o-2'' 1, sample_delivery_of ''o-1'' 3]
     (inMemoryInventoryStore [(''A'', 5), (''B'', 5)])))"
proof -
  have "distinct (map fst [(''A'', 5 :: int), (''B'', 5)])" "list_all (\<lambda>(p, n). 0 \<le> n) [(''A'', 5 :: int), (''B'', 5)]"
    by simp_all
  moreover have "list_all valid_delivery
      [sample_delivery_of ''o-1'' 3, sample_delivery_of ''o-2'' 1, sample_delivery_of ''o-1'' 3]"
    by code_simp
  ultimately show ?thesis by (rule inventory_run_consistent [THEN conjunct1])
qed

text \<open>
  C3: a reservation is made exactly once per order. After a first delivery for an order and any
  further deliveries, another PaymentAuthorized for the same order (with any event id, any
  items) is answered with the recorded outcome, stores nothing, does not wake the relay, and
  the handler acknowledges it.
\<close>

theorem reservation_exactly_once:
  assumes "im_inv s" "valid_delivery d" "list_all valid_delivery ds"
    "list_all valid_item (pa_items (event_data ev))"
    "pa_orderId (event_data ev) = pa_orderId (event_data (pd_event d))"
  shows "\<exists>r. reservation_of (im_ledger (deliver im_createTransaction d s)) (pa_orderId (event_data ev)) = Some r
    \<and> im_reserve gen now ev (deliver_all im_createTransaction (d # ds) s) =
        (Inr (Duplicate r), deliver_all im_createTransaction (d # ds) s)
    \<and> hr_wakeups (paymentAuthorizedHandler (im_reserve gen now ev) ev (deliver_all im_createTransaction (d # ds) s)) = 0
    \<and> hr_error (paymentAuthorizedHandler (im_reserve gen now ev) ev (deliver_all im_createTransaction (d # ds) s)) = None"
proof -
  let ?o = "pa_orderId (event_data ev)" and ?s1 = "deliver im_createTransaction d s"
    and ?t = "deliver_all im_createTransaction (d # ds) s"
  have v: "list_all valid_item (pa_items (event_data (pd_event d)))" using assms(2) by (simp add: valid_delivery_def)
  have "storable (\<lambda>_ _. True) (\<lambda>_ _. True) (pd_ids d) (pd_now d) (pd_event d) us s" for us
    by (simp add: storable_def)
  from rim.reservation_work_returns [OF assms(1) v TrueI TrueI this TrueI] all_True obtain out s1 where
    r1: "reservation_work im_createTransaction (pd_ids d) (pd_now d) (pd_event d) s = Inr (out, s1)" by blast
  then have s1: "?s1 = s1" by (simp add: deliver_def work_of_def)
  from im.reservation_work_refines [OF assms(1) v TrueI TrueI r1] s1
  have inv1: "im_inv ?s1" and spec: "(out, im_ledger ?s1) =
      reserve_spec (aggregateQuantities (pa_items (event_data (pd_event d)))) (pd_ids d) (pd_now d) (pd_event d) (im_ledger s)"
    by simp_all
  from spec obtain r where r: "reservation_of (im_ledger ?s1) ?o = Some r"
    using assms(5) by (auto simp: reserve_spec_def Let_def reservation_of_append split: option.splits if_splits)
  have t: "?t = deliver_all im_createTransaction ds ?s1" by (simp add: deliver_all_def)
  from im.deliver_all_keeps [OF inv1 assms(3) ids_accepted_all r] t
  have inv: "im_inv ?t" and found: "map_get (im_reservations ?t) ?o = Some r"
    by (auto simp: im_reservation_of)
  then have "reservation_work im_createTransaction gen now ev ?t = Inr (Duplicate r, ?t)"
    by (simp add: reservation_work_def bindE_def im_createTransaction_def im_lockOrder_def)
  then show ?thesis using r by (simp add: im_reserve_eq paymentAuthorizedHandler_def)
qed

theorem reservation_exactly_once_witness:
  "\<exists>r. im_reserve sample_ids ''u'' (sample_payment ''o-1'' 1)
     (deliver_all im_createTransaction [sample_delivery_of ''o-1'' 3, sample_delivery_of ''o-2'' 1] sample_store) =
       (Inr (Duplicate r),
        deliver_all im_createTransaction [sample_delivery_of ''o-1'' 3, sample_delivery_of ''o-2'' 1] sample_store)"
proof -
  have "im_inv sample_store" "valid_delivery (sample_delivery_of ''o-1'' 3)"
    "list_all valid_delivery [sample_delivery_of ''o-2'' 1]"
    "list_all valid_item (pa_items (event_data (sample_payment ''o-1'' 1)))"
    "pa_orderId (event_data (sample_payment ''o-1'' 1)) =
      pa_orderId (event_data (pd_event (sample_delivery_of ''o-1'' 3)))"
    by code_simp+
  from reservation_exactly_once [OF this, of sample_ids "''u''"] show ?thesis by blast
qed

end
