(* ===== verification/Identifiers.thy ===== *)
theory Identifiers
  imports Contracts "HOL-Library.Word"
begin

text \<open>
  shared/contracts/src/identifiers.ts: stable, UUID-formatted identifiers derived from a
  namespace and some parts. The SHA-1 digest of a text (node:crypto) is the argument
  \<open>sha1\<close>; it yields 20 bytes.
\<close>

unbundle bit_operations_syntax

section \<open>The UUID format\<close>

definition is_hex :: "char \<Rightarrow> bool" where
  "is_hex c = (c \<in> set ''0123456789abcdefABCDEF'')"

text \<open>The pattern \<open>8-4-4-4-12\<close> of hexadecimal digits, case-insensitive.\<close>

definition str_slice :: "nat \<Rightarrow> nat \<Rightarrow> 'a list \<Rightarrow> 'a list" where
  "str_slice i j xs = take (j - i) (drop i xs)"

definition UUID_PATTERN :: "string \<Rightarrow> bool" where
  "UUID_PATTERN s =
     (length s = 36
      \<and> list_all is_hex (str_slice 0 8 s) \<and> s ! 8 = CHR ''-''
      \<and> list_all is_hex (str_slice 9 13 s) \<and> s ! 13 = CHR ''-''
      \<and> list_all is_hex (str_slice 14 18 s) \<and> s ! 18 = CHR ''-''
      \<and> list_all is_hex (str_slice 19 23 s) \<and> s ! 23 = CHR ''-''
      \<and> list_all is_hex (str_slice 24 36 s))"

section \<open>deriveDeterministicId\<close>

definition hex_byte :: "8 word \<Rightarrow> string" where
  "hex_byte b = [hex_digits ! (unat b div 16), hex_digits ! (unat b mod 16)]"

definition byte_at :: "8 word list \<Rightarrow> nat \<Rightarrow> 8 word" where
  "byte_at bs i = (if i < length bs then bs ! i else 0)"

text \<open>The text that is hashed; it holds strings only, so no number is ever printed.\<close>

definition id_text :: "string \<Rightarrow> string list \<Rightarrow> string" where
  "id_text namespace parts = json_text (\<lambda>_. []) (JArr (map JStr (namespace # parts)))"

definition id_bytes :: "8 word list \<Rightarrow> 8 word list" where
  "id_bytes hash =
     (let bytes = take 16 hash;
          bytes = bytes[6 := (byte_at bytes 6 AND 0x0f) OR 0x50];
          bytes = bytes[8 := (byte_at bytes 8 AND 0x3f) OR 0x80]
      in bytes)"

definition deriveDeterministicId ::
    "(string \<Rightarrow> 8 word list) \<Rightarrow> string \<Rightarrow> string list \<Rightarrow> string" where
  "deriveDeterministicId sha1 namespace parts =
     (let bytes = id_bytes (sha1 (id_text namespace parts));
          hex = concat (map hex_byte bytes)
      in join ''-''
           [str_slice 0 8 hex, str_slice 8 12 hex, str_slice 12 16 hex, str_slice 16 20 hex, str_slice 20 32 hex])"

section \<open>Facts\<close>

lemma id_text_inj:
  "id_text ns ps = id_text ns' ps' \<longleftrightarrow> ns = ns' \<and> ps = ps'"
proof
  assume "id_text ns ps = id_text ns' ps'"
  then have "ns # ps = ns' # ps'"
    unfolding id_text_def by (rule json_text_strings_inj)
  then show "ns = ns' \<and> ps = ps'" by simp
qed simp

text \<open>Masking and setting bits of one byte, read as arithmetic.\<close>

lemma unat_and_mask:
  fixes b :: "8 word"
  shows "unat (b AND mask n) = unat b mod 2 ^ n"
proof -
  have "unat (b AND mask n) = take_bit n (unat b)"
    by (simp only: unsigned_take_bit_eq flip: take_bit_eq_mask)
  then show ?thesis by (simp add: take_bit_eq_mod)
qed

lemma unat_or_disjoint:
  fixes x y :: "8 word"
  assumes "x AND y = 0" "unat x + unat y < 256"
  shows "unat (x OR y) = unat x + unat y"
proof -
  have "x OR y = x + y"
    using assms(1) by (simp add: disjunctive_add_eq_or)
  then show ?thesis using assms(2) by (simp add: unat_word_ariths)
qed

lemma version_byte: "unat ((b AND 0x0f) OR 0x50) = unat b mod 16 + 80" for b :: "8 word"
proof -
  have m: "(0x0f :: 8 word) = mask 4" by (simp add: mask_eq_exp_minus_1)
  have "(b AND 0x0f) AND 0x50 = (0 :: 8 word)" by (simp add: and.assoc)
  moreover have "unat (b AND 0x0f) = unat b mod 16" unfolding m unat_and_mask by simp
  ultimately show ?thesis by (subst unat_or_disjoint) simp_all
qed

lemma variant_byte: "unat ((b AND 0x3f) OR 0x80) = unat b mod 64 + 128" for b :: "8 word"
proof -
  have m: "(0x3f :: 8 word) = mask 6" by (simp add: mask_eq_exp_minus_1)
  have "(b AND 0x3f) AND 0x80 = (0 :: 8 word)" by (simp add: and.assoc)
  moreover have "unat (b AND 0x3f) = unat b mod 64" unfolding m unat_and_mask by simp
  ultimately show ?thesis by (subst unat_or_disjoint) simp_all
qed

lemma hex_digits_nth_hex: "i < 16 \<Longrightarrow> is_hex (hex_digits ! i)"
proof -
  have "\<forall>i \<in> set [0 ..< 16]. is_hex (hex_digits ! i)" by code_simp
  then show "i < 16 \<Longrightarrow> ?thesis" by simp
qed

lemma unat_byte_div: "unat (b :: 8 word) div 16 < 16"
  using unsigned_less [of b, where ?'a = nat] by simp

lemma length_id_bytes: "length hash = 20 \<Longrightarrow> length (id_bytes hash) = 16"
  by (simp add: id_bytes_def Let_def)

lemma list16_cases:
  assumes "length xs = 16"
  obtains a b c d e f g h i j k l m n p q where "xs = [a, b, c, d, e, f, g, h, i, j, k, l, m, n, p, q]"
  using assms by (auto simp: length_Suc_conv numeral_eq_Suc)

text \<open>The printed identifier, from its 16 bytes.\<close>

lemma id_string:
  assumes "xs = [a, b, c, d, e, f, g, h, i, j, k, l, m, n, p, q]"
  shows "(let hex = concat (map hex_byte xs) in
      join ''-'' [str_slice 0 8 hex, str_slice 8 12 hex, str_slice 12 16 hex, str_slice 16 20 hex, str_slice 20 32 hex]) =
    hex_byte a @ hex_byte b @ hex_byte c @ hex_byte d @ ''-'' @ hex_byte e @ hex_byte f @ ''-'' @
    hex_byte g @ hex_byte h @ ''-'' @ hex_byte i @ hex_byte j @ ''-'' @
    hex_byte k @ hex_byte l @ hex_byte m @ hex_byte n @ hex_byte p @ hex_byte q"
  by (simp add: assms str_slice_def hex_byte_def Let_def)

lemma hex_byte_is_hex [simp]: "is_hex (hex_digits ! (unat (b :: 8 word) div 16))"
  "is_hex (hex_digits ! (unat b mod 16))"
  by (simp_all add: hex_digits_nth_hex unat_byte_div)

lemma hex_byte_all [simp]: "list_all is_hex (hex_byte b)"
  by (simp add: hex_byte_def)

lemma length_hex_byte [simp]: "length (hex_byte b) = 2"
  by (simp add: hex_byte_def)

lemma UUID_PATTERN_groups:
  assumes "length p = 8" "length q = 4" "length r = 4" "length s = 4" "length t = 12"
    and "list_all is_hex p" "list_all is_hex q" "list_all is_hex r" "list_all is_hex s" "list_all is_hex t"
  shows "UUID_PATTERN (p @ ''-'' @ q @ ''-'' @ r @ ''-'' @ s @ ''-'' @ t)"
  using assms by (simp add: UUID_PATTERN_def str_slice_def nth_append)

lemma id_string_format:
  "UUID_PATTERN (hex_byte a @ hex_byte b @ hex_byte c @ hex_byte d @ ''-'' @ hex_byte e @ hex_byte f @ ''-'' @
    hex_byte g @ hex_byte h @ ''-'' @ hex_byte i @ hex_byte j @ ''-'' @
    hex_byte k @ hex_byte l @ hex_byte m @ hex_byte n @ hex_byte p @ hex_byte q)"
proof -
  have "UUID_PATTERN ((hex_byte a @ hex_byte b @ hex_byte c @ hex_byte d) @ ''-'' @
    (hex_byte e @ hex_byte f) @ ''-'' @ (hex_byte g @ hex_byte h) @ ''-'' @
    (hex_byte i @ hex_byte j) @ ''-'' @
    (hex_byte k @ hex_byte l @ hex_byte m @ hex_byte n @ hex_byte p @ hex_byte q))"
    by (rule UUID_PATTERN_groups) simp_all
  then show ?thesis by (simp only: append_assoc)
qed

text \<open>The bytes that carry the version and the variant.\<close>

lemma version_hex: "hex_byte ((b AND 0x0f) OR 0x50) = [CHR ''5'', hex_digits ! (unat b mod 16)]"
proof -
  have "x < 16 \<Longrightarrow> (x + 80) mod 16 = x \<and> (x + 80) div 16 = (5 :: nat)" for x
    by presburger
  then have "(unat b mod 16 + 80) mod 16 = unat b mod 16" "(unat b mod 16 + 80) div 16 = 5"
    by simp_all
  then show ?thesis unfolding hex_byte_def version_byte by (simp add: hex_digits_def)
qed

lemma variant_hex: "\<exists>c \<in> set ''89ab''. \<exists>d. hex_byte ((b AND 0x3f) OR 0x80) = [c, d]"
proof -
  have "(unat b mod 64 + 128) div 16 = unat b mod 64 div 16 + 8" by simp
  moreover have "unat b mod 64 div 16 < 4" by simp
  ultimately have "(unat b mod 64 + 128) div 16 \<in> {8, 9, 10, 11}" by auto
  then show ?thesis unfolding hex_byte_def variant_byte by (auto simp: hex_digits_def)
qed

lemma derived_id_string:
  assumes "length (sha1 (id_text ns ps)) = 20"
  obtains a b c d e f g h i j k l m n p q where
    "deriveDeterministicId sha1 ns ps =
      hex_byte a @ hex_byte b @ hex_byte c @ hex_byte d @ ''-'' @ hex_byte e @ hex_byte f @ ''-'' @
      hex_byte ((g AND 0x0f) OR 0x50) @ hex_byte h @ ''-'' @
      hex_byte ((i AND 0x3f) OR 0x80) @ hex_byte j @ ''-'' @
      hex_byte k @ hex_byte l @ hex_byte m @ hex_byte n @ hex_byte p @ hex_byte q"
proof -
  have "length (take 16 (sha1 (id_text ns ps))) = 16" using assms by simp
  then obtain a b c d e f g h i j k l m n p q where
    xs: "take 16 (sha1 (id_text ns ps)) = [a, b, c, d, e, f, g, h, i, j, k, l, m, n, p, q]"
    by (rule list16_cases)
  have ys: "id_bytes (sha1 (id_text ns ps)) =
      [a, b, c, d, e, f, (g AND 0x0f) OR 0x50, h, (i AND 0x3f) OR 0x80, j, k, l, m, n, p, q]"
    unfolding id_bytes_def xs by (simp add: byte_at_def Let_def)
  show thesis
    by (rule that)
      (simp only: deriveDeterministicId_def ys Let_def id_string [OF refl, unfolded Let_def])
qed

text \<open>
  An identifier derived from a 20-byte digest is a well-formed UUID (it passes the Order
  Service's own pattern); its version digit is 5 and its variant digit is 8, 9, a or b.
\<close>

lemma deriveDeterministicId_uuid5:
  assumes "length (sha1 (id_text ns ps)) = 20"
  shows "UUID_PATTERN (deriveDeterministicId sha1 ns ps)
    \<and> deriveDeterministicId sha1 ns ps ! 14 = CHR ''5''
    \<and> deriveDeterministicId sha1 ns ps ! 19 \<in> set ''89ab''"
proof -
  obtain a b c d e f g h i j k l m n p q where str:
    "deriveDeterministicId sha1 ns ps =
      hex_byte a @ hex_byte b @ hex_byte c @ hex_byte d @ ''-'' @ hex_byte e @ hex_byte f @ ''-'' @
      hex_byte ((g AND 0x0f) OR 0x50) @ hex_byte h @ ''-'' @
      hex_byte ((i AND 0x3f) OR 0x80) @ hex_byte j @ ''-'' @
      hex_byte k @ hex_byte l @ hex_byte m @ hex_byte n @ hex_byte p @ hex_byte q"
    using derived_id_string [of sha1, OF assms] by metis
  obtain x y where v: "x \<in> set ''89ab''" "hex_byte ((i AND 0x3f) OR 0x80) = [x, y]"
    using variant_hex by blast
  have "UUID_PATTERN (deriveDeterministicId sha1 ns ps)"
    unfolding str by (rule id_string_format)
  moreover have "deriveDeterministicId sha1 ns ps ! 14 = CHR ''5''"
    unfolding str version_hex by (simp add: nth_append)
  moreover have "deriveDeterministicId sha1 ns ps ! 19 = x"
    unfolding str version_hex v(2) by (simp add: nth_append)
  ultimately show ?thesis using v(1) by (simp only: simp_thms)
qed

end
