(* ===== verification/Outbox.thy ===== *)
theory Outbox
  imports Identifiers MessageErrors "HOL-Library.Multiset"
begin

text \<open>
  shared/persistence/src/outbox/outbox.ts and postgresOutboxStore.ts: a service's outbox table
  and the statements of the PostgreSQL outbox store on it. A statement reads the database
  clock once (\<open>ob_clock\<close>, in microseconds); the rows other transactions hold locked and the
  order in which UPDATE ... RETURNING yields its rows are arguments.
\<close>

section \<open>The table\<close>

record OutboxRow =
  or_sequenceId :: nat
  or_eventId :: string
  or_eventType :: string
  or_routingKey :: string
  or_payload :: js
  or_occurredAt :: string
  or_createdAt :: int
  or_publishedAt :: "int option"
  or_attempts :: int
  or_availableAt :: int
  or_claimedBy :: "string option"
  or_lastError :: "string option"

record OutboxTable =
  ob_rows :: "OutboxRow list"
  ob_next :: nat
  ob_clock :: int

record OutboxMessage =
  om_sequenceId :: string
  om_eventId :: string
  om_eventType :: string
  om_routingKey :: string
  om_payload :: js
  om_attempts :: int

text \<open>
  A UUID column accepts the canonical text and prints it in lower case. (PostgreSQL reads other
  spellings too; the program never sends one.)
\<close>

definition lower_char :: "char \<Rightarrow> char" where
  "lower_char c = (let n = of_char c :: nat in if 65 \<le> n \<and> n \<le> 90 then char_of (n + 32) else c)"

definition uuid_in :: "string \<Rightarrow> string option" where
  "uuid_in s = (if UUID_PATTERN s then Some (map lower_char s) else None)"

text \<open>INSERT INTO the outbox, with the column defaults and the unique constraint on event_id.\<close>

definition outbox_insert ::
    "string \<Rightarrow> string \<Rightarrow> string \<Rightarrow> js \<Rightarrow> string \<Rightarrow> (OutboxTable, unit) tx" where
  "outbox_insert event_id event_type routing_key payload occurred_at t =
     (case uuid_in event_id of
        None \<Rightarrow> Inl (DatabaseError ''invalid input syntax for type uuid'')
      | Some u \<Rightarrow>
          if u \<in> set (map or_eventId (ob_rows t)) then
            Inl (DatabaseError ''duplicate key value violates unique constraint'')
          else Inr ((), t \<lparr>
            ob_rows := ob_rows t @
              [\<lparr>or_sequenceId = ob_next t, or_eventId = u, or_eventType = event_type,
                or_routingKey = routing_key, or_payload = payload, or_occurredAt = occurred_at,
                or_createdAt = ob_clock t, or_publishedAt = None, or_attempts = 0,
                or_availableAt = ob_clock t, or_claimedBy = None, or_lastError = None\<rparr>],
            ob_next := ob_next t + 1\<rparr>))"

section \<open>Names and sequence ids\<close>

definition is_lower :: "char \<Rightarrow> bool" where
  "is_lower c = (let n = of_char c :: nat in 97 \<le> n \<and> n \<le> 122)"

definition is_digit :: "char \<Rightarrow> bool" where
  "is_digit c = (let n = of_char c :: nat in 48 \<le> n \<and> n \<le> 57)"

definition TABLE_NAME_PATTERN :: "string \<Rightarrow> bool" where
  "TABLE_NAME_PATTERN s =
     (case s of [] \<Rightarrow> False
      | c # cs \<Rightarrow> (is_lower c \<or> c = CHR ''_'') \<and> length cs \<le> 62
          \<and> list_all (\<lambda>d. is_lower d \<or> is_digit d \<or> d = CHR ''_'') cs)"

definition postgresOutboxStore :: "string \<Rightarrow> js_error + string" where
  "postgresOutboxStore tableName =
     (if \<not> TABLE_NAME_PATTERN tableName then
        Inl (JsError (''Invalid outbox table name '' @ [CHR 0x27] @ tableName @ [CHR 0x27] @ ''.''))
      else Inr tableName)"

definition compareSequenceIds :: "string \<Rightarrow> string \<Rightarrow> int" where
  "compareSequenceIds left right =
     (let difference = BigInt_of left - BigInt_of right
      in if difference = 0 then 0 else if difference < 0 then - 1 else 1)"

text \<open>\<open>Array.prototype.sort\<close> with a comparator: a stable sort.\<close>

fun insert_by :: "('a \<Rightarrow> 'a \<Rightarrow> int) \<Rightarrow> 'a \<Rightarrow> 'a list \<Rightarrow> 'a list" where
  "insert_by cmp x [] = [x]"
| "insert_by cmp x (y # ys) = (if cmp x y \<le> 0 then x # y # ys else y # insert_by cmp x ys)"

definition sort_by :: "('a \<Rightarrow> 'a \<Rightarrow> int) \<Rightarrow> 'a list \<Rightarrow> 'a list" where
  "sort_by cmp xs = foldr (insert_by cmp) xs []"

section \<open>The store\<close>

definition due :: "(nat \<Rightarrow> bool) \<Rightarrow> OutboxTable \<Rightarrow> OutboxRow \<Rightarrow> bool" where
  "due locked t r =
     (or_publishedAt r = None \<and> or_availableAt r \<le> ob_clock t \<and> \<not> locked (or_sequenceId r))"

definition claim_ids :: "(nat \<Rightarrow> bool) \<Rightarrow> nat \<Rightarrow> OutboxTable \<Rightarrow> nat list" where
  "claim_ids locked limit t = take limit (sort (map or_sequenceId (filter (due locked t) (ob_rows t))))"

definition claim_row :: "string \<Rightarrow> int \<Rightarrow> int \<Rightarrow> OutboxRow \<Rightarrow> OutboxRow" where
  "claim_row claimant leaseInMs now r =
     r \<lparr>or_availableAt := now + 1000 * leaseInMs, or_claimedBy := Some claimant,
        or_attempts := or_attempts r + 1\<rparr>"

definition toMessage :: "OutboxRow \<Rightarrow> OutboxMessage" where
  "toMessage r = \<lparr>om_sequenceId = nat_text (or_sequenceId r), om_eventId = or_eventId r,
     om_eventType = or_eventType r, om_routingKey = or_routingKey r, om_payload = or_payload r,
     om_attempts = or_attempts r\<rparr>"

definition claimBatch ::
    "(nat \<Rightarrow> bool) \<Rightarrow> (OutboxRow list \<Rightarrow> OutboxRow list) \<Rightarrow> string \<Rightarrow> nat \<Rightarrow> int
      \<Rightarrow> OutboxTable \<Rightarrow> OutboxMessage list \<times> OutboxTable" where
  "claimBatch locked returned claimant limit leaseInMs t =
     (let ids = claim_ids locked limit t;
          rows = map (\<lambda>r. if or_sequenceId r \<in> set ids then claim_row claimant leaseInMs (ob_clock t) r else r)
                   (ob_rows t);
          claimed = filter (\<lambda>r. or_sequenceId r \<in> set ids) rows
      in (sort_by (\<lambda>left right. compareSequenceIds (om_sequenceId left) (om_sequenceId right))
            (map toMessage (returned claimed)),
          t \<lparr>ob_rows := rows\<rparr>))"

definition publish_row :: "int \<Rightarrow> OutboxRow \<Rightarrow> OutboxRow" where
  "publish_row now r = r \<lparr>or_publishedAt := Some now, or_claimedBy := None, or_lastError := None\<rparr>"

definition markPublished :: "OutboxMessage list \<Rightarrow> OutboxTable \<Rightarrow> OutboxTable" where
  "markPublished messages t =
     (if length messages = 0 then t
      else t \<lparr>ob_rows := map (\<lambda>r.
             if int (or_sequenceId r) \<in> set (map (\<lambda>m. BigInt_of (om_sequenceId m)) messages)
                \<and> or_publishedAt r = None
             then publish_row (ob_clock t) r else r) (ob_rows t)\<rparr>)"

definition MAX_STORED_ERROR_LENGTH :: nat where
  "MAX_STORED_ERROR_LENGTH = 2000"

definition release_matches :: "OutboxMessage \<Rightarrow> string \<Rightarrow> OutboxRow \<Rightarrow> bool" where
  "release_matches m claimant r =
     (int (or_sequenceId r) = BigInt_of (om_sequenceId m) \<and> or_claimedBy r = Some claimant
      \<and> or_attempts r = om_attempts m \<and> or_publishedAt r = None)"

definition releaseForRetry ::
    "OutboxMessage \<Rightarrow> string \<Rightarrow> int \<Rightarrow> string \<Rightarrow> OutboxTable \<Rightarrow> bool \<times> OutboxTable" where
  "releaseForRetry m claimant retryDelayInMs errorMessage t =
     (length (filter (release_matches m claimant) (ob_rows t)) = 1,
      t \<lparr>ob_rows := map (\<lambda>r. if release_matches m claimant r
           then r \<lparr>or_availableAt := ob_clock t + 1000 * retryDelayInMs, or_claimedBy := None,
                   or_lastError := Some (take MAX_STORED_ERROR_LENGTH errorMessage)\<rparr>
           else r) (ob_rows t)\<rparr>)"

record OutboxStatistics =
  pendingCount :: nat
  oldestPendingCreatedAt :: "int option"
  maxPendingAttempts :: int

definition list_min :: "int list \<Rightarrow> int option" where
  "list_min xs = (case xs of [] \<Rightarrow> None | x # ys \<Rightarrow> Some (foldl min x ys))"

definition list_max :: "int list \<Rightarrow> int option" where
  "list_max xs = (case xs of [] \<Rightarrow> None | x # ys \<Rightarrow> Some (foldl max x ys))"

definition getStatistics :: "OutboxTable \<Rightarrow> OutboxStatistics" where
  "getStatistics t =
     (let pending = filter (\<lambda>r. or_publishedAt r = None) (ob_rows t)
      in \<lparr>pendingCount = length pending, oldestPendingCreatedAt = list_min (map or_createdAt pending),
          maxPendingAttempts = (case list_max (map or_attempts pending) of None \<Rightarrow> 0 | Some n \<Rightarrow> n)\<rparr>)"

section \<open>Facts\<close>

definition outbox_wf :: "OutboxTable \<Rightarrow> bool" where
  "outbox_wf t = (sorted (map or_sequenceId (ob_rows t)) \<and> distinct (map or_sequenceId (ob_rows t))
     \<and> list_all (\<lambda>r. or_sequenceId r < ob_next t \<and> 0 \<le> or_attempts r) (ob_rows t)
     \<and> distinct (map or_eventId (ob_rows t)))"

lemma mset_insert_by: "mset (insert_by cmp x xs) = add_mset x (mset xs)"
  by (induction xs) auto

lemma mset_sort_by [simp]: "mset (sort_by cmp xs) = mset xs"
  by (induction xs) (auto simp: sort_by_def mset_insert_by)

lemma sorted_insert_by:
  assumes "\<And>x y. cmp x y \<le> 0 \<longleftrightarrow> (f x :: int) \<le> f y"
  shows "sorted (map f xs) \<Longrightarrow> sorted (map f (insert_by cmp x xs))"
proof (induction xs)
  case (Cons y ys)
  have "set (map f (insert_by cmp x ys)) = insert (f x) (f ` set ys)"
    using mset_insert_by [of cmp x ys] by (metis image_insert list.set_map set_mset_add_mset_insert set_mset_mset)
  with Cons assms show ?case by auto
qed simp

lemma sorted_sort_by:
  assumes "\<And>x y. cmp x y \<le> 0 \<longleftrightarrow> (f x :: int) \<le> f y"
  shows "sorted (map f (sort_by cmp xs))"
proof (induction xs)
  case (Cons x xs)
  have "sort_by cmp (x # xs) = insert_by cmp x (sort_by cmp xs)" by (simp add: sort_by_def)
  then show ?case using sorted_insert_by [OF assms Cons.IH] by simp
qed (simp add: sort_by_def)

lemma compareSequenceIds_le: "compareSequenceIds l r \<le> 0 \<longleftrightarrow> BigInt_of l \<le> BigInt_of r"
  by (auto simp: compareSequenceIds_def Let_def)

lemma filter_taken:
  assumes "distinct (map f rows)"
  shows "filter (\<lambda>r. f r \<in> f ` set (take n (filter P rows))) rows = take n (filter P rows)"
  using assms
proof (induction rows arbitrary: n)
  case (Cons x xs)
  have sub: "set (take m (filter P xs)) \<subseteq> set xs" for m
    by (meson filter_is_subset order_trans set_take_subset)
  have ne: "f r \<noteq> f x" if "r \<in> set xs" for r
    using Cons.prems that by (metis distinct.simps(2) image_eqI list.set_map list.simps(9))
  show ?case
  proof (cases "P x")
    case True
    show ?thesis
    proof (cases n)
      case (Suc m)
      have "filter (\<lambda>r. f r \<in> insert (f x) (f ` set (take m (filter P xs)))) xs =
          filter (\<lambda>r. f r \<in> f ` set (take m (filter P xs))) xs"
        using ne by (intro filter_cong) auto
      with Cons True Suc show ?thesis by simp
    qed simp
  next
    case False
    then have "f x \<notin> f ` set (take n (filter P xs))" using Cons.prems sub by fastforce
    with Cons False show ?thesis by simp
  qed
qed simp

lemma claim_ids_eq:
  assumes "outbox_wf t"
  shows "claim_ids locked limit t = map or_sequenceId (take limit (filter (due locked t) (ob_rows t)))"
proof -
  have "sorted (map or_sequenceId (filter (due locked t) (ob_rows t)))"
    using assms by (simp add: outbox_wf_def sorted_filter)
  then show ?thesis by (simp add: claim_ids_def sorted_sort_id take_map)
qed

lemma claim_row_simps [simp]:
  "or_sequenceId (claim_row c l n r) = or_sequenceId r" "or_eventId (claim_row c l n r) = or_eventId r"
  "or_publishedAt (claim_row c l n r) = or_publishedAt r" "or_payload (claim_row c l n r) = or_payload r"
  "or_attempts (claim_row c l n r) = or_attempts r + 1" "or_claimedBy (claim_row c l n r) = Some c"
  "or_availableAt (claim_row c l n r) = n + 1000 * l"
  "or_eventType (claim_row c l n r) = or_eventType r" "or_routingKey (claim_row c l n r) = or_routingKey r"
  by (simp_all add: claim_row_def)

lemma publish_row_simps [simp]:
  "or_sequenceId (publish_row n r) = or_sequenceId r" "or_eventId (publish_row n r) = or_eventId r"
  "or_publishedAt (publish_row n r) = Some n" "or_payload (publish_row n r) = or_payload r"
  "or_attempts (publish_row n r) = or_attempts r" "or_availableAt (publish_row n r) = or_availableAt r"
  "or_eventType (publish_row n r) = or_eventType r" "or_routingKey (publish_row n r) = or_routingKey r"
  by (simp_all add: publish_row_def)

lemma toMessage_seq [simp]: "BigInt_of (om_sequenceId (toMessage r)) = int (or_sequenceId r)"
  by (simp add: toMessage_def)

text \<open>The rows an update of some rows claims, and the order of the returned messages.\<close>

lemma claimed_rows:
  assumes "outbox_wf t"
  shows "filter (\<lambda>r. or_sequenceId r \<in> set (claim_ids locked limit t))
      (map (\<lambda>r. if or_sequenceId r \<in> set (claim_ids locked limit t) then claim_row c l (ob_clock t) r else r) (ob_rows t))
    = map (claim_row c l (ob_clock t)) (take limit (filter (due locked t) (ob_rows t)))"
proof -
  let ?ids = "or_sequenceId ` set (take limit (filter (due locked t) (ob_rows t)))"
  have "filter (\<lambda>r. or_sequenceId r \<in> ?ids) (map (\<lambda>r. if or_sequenceId r \<in> ?ids then claim_row c l (ob_clock t) r else r) rows)
      = map (claim_row c l (ob_clock t)) (filter (\<lambda>r. or_sequenceId r \<in> ?ids) rows)" for rows
    by (induction rows) auto
  with filter_taken [of or_sequenceId "ob_rows t" limit "due locked t"] assms
  show ?thesis unfolding claim_ids_eq [OF assms] by (simp add: outbox_wf_def)
qed

lemma sort_returned:
  assumes "sorted (map or_sequenceId rows)" "distinct (map or_sequenceId rows)" "mset returned = mset rows"
  shows "sort_by (\<lambda>l r. compareSequenceIds (om_sequenceId l) (om_sequenceId r)) (map toMessage returned)
    = map toMessage rows"
proof -
  let ?key = "\<lambda>m. BigInt_of (om_sequenceId m)"
  let ?s = "sort_by (\<lambda>l r. compareSequenceIds (om_sequenceId l) (om_sequenceId r)) (map toMessage returned)"
  have keys: "map ?key (map toMessage rows) = map int (map or_sequenceId rows)" by simp
  have ms: "mset ?s = mset (map toMessage rows)" using assms(3) by simp
  have m: "mset (map ?key ?s) = mset (map ?key (map toMessage rows))"
    unfolding mset_map [of ?key] ms ..
  have m2: "set ?s = set (map toMessage rows)" using ms by (rule mset_eq_setD)
  have d: "distinct (map ?key (map toMessage rows))"
    unfolding keys using assms(2) by (simp add: distinct_map inj_on_def)
  have "sorted (map ?key ?s)" by (rule sorted_sort_by) (rule compareSequenceIds_le)
  moreover have "sorted (map ?key (map toMessage rows))"
    unfolding keys using assms(1) by (simp add: sorted_map)
  moreover have "distinct (map ?key ?s)" using d mset_eq_imp_distinct_iff [OF m] by simp
  moreover have "inj_on ?key (set ?s \<union> set (map toMessage rows))"
    unfolding m2 Un_absorb using d by (simp only: distinct_map)
  ultimately show ?thesis using d m2 by (intro map_sorted_distinct_set_unique)
qed

lemma claimBatch_messages:
  assumes "outbox_wf t" "\<And>rows. mset (returned rows) = mset rows"
  shows "fst (claimBatch locked returned c limit l t) =
    map (toMessage \<circ> claim_row c l (ob_clock t)) (take limit (filter (due locked t) (ob_rows t)))"
proof -
  let ?rows = "map (claim_row c l (ob_clock t)) (take limit (filter (due locked t) (ob_rows t)))"
  have wf: "sorted (map or_sequenceId (ob_rows t))" "distinct (map or_sequenceId (ob_rows t))"
    using assms(1) by (simp_all add: outbox_wf_def)
  have ids: "map or_sequenceId ?rows = take limit (map or_sequenceId (filter (due locked t) (ob_rows t)))"
    by (simp add: comp_def take_map)
  have "sorted (map or_sequenceId ?rows)" "distinct (map or_sequenceId ?rows)"
    unfolding ids using wf by (simp_all add: sorted_filter sorted_wrt_take distinct_map_filter)
  from sort_returned [OF this assms(2) [of ?rows]] claimed_rows [OF assms(1), of locked limit c l]
  show ?thesis by (simp add: claimBatch_def Let_def)
qed

section \<open>What every statement keeps\<close>

text \<open>
  How a row may change: its identity and its content never do, its claim count only grows, and
  a published row does not change at all.
\<close>

definition row_evolves :: "OutboxRow \<Rightarrow> OutboxRow \<Rightarrow> bool" where
  "row_evolves r r' =
     (or_sequenceId r' = or_sequenceId r \<and> or_eventId r' = or_eventId r \<and> or_eventType r' = or_eventType r
      \<and> or_routingKey r' = or_routingKey r \<and> or_payload r' = or_payload r
      \<and> or_occurredAt r' = or_occurredAt r \<and> or_createdAt r' = or_createdAt r
      \<and> or_attempts r \<le> or_attempts r' \<and> (or_publishedAt r \<noteq> None \<longrightarrow> r' = r))"

definition outbox_evolves :: "OutboxTable \<Rightarrow> OutboxTable \<Rightarrow> bool" where
  "outbox_evolves t t' =
     (length (ob_rows t) \<le> length (ob_rows t')
      \<and> list_all2 row_evolves (ob_rows t) (take (length (ob_rows t)) (ob_rows t')))"

lemma row_evolves_refl [simp, intro]: "row_evolves r r"
  by (simp add: row_evolves_def)

lemma row_evolves_trans [trans]: "row_evolves r s \<Longrightarrow> row_evolves s u \<Longrightarrow> row_evolves r u"
  by (auto simp: row_evolves_def)

lemma outbox_evolves_refl [simp, intro]: "outbox_evolves t t"
  by (simp add: outbox_evolves_def list_all2_refl)

lemma outbox_evolves_trans [trans]:
  assumes "outbox_evolves s t" "outbox_evolves t u" shows "outbox_evolves s u"
proof -
  let ?n = "length (ob_rows s)"
  from assms have len: "?n \<le> length (ob_rows t)" "length (ob_rows t) \<le> length (ob_rows u)"
    by (simp_all add: outbox_evolves_def)
  have "list_all2 row_evolves (take ?n (ob_rows t)) (take ?n (take (length (ob_rows t)) (ob_rows u)))"
    using assms(2) by (intro list_all2_takeI) (simp add: outbox_evolves_def)
  then have "list_all2 row_evolves (take ?n (ob_rows t)) (take ?n (ob_rows u))"
    using len(1) by (simp add: min_absorb1)
  with assms(1) have "list_all2 row_evolves (ob_rows s) (take ?n (ob_rows u))"
    by (auto simp: outbox_evolves_def intro: list_all2_trans [rotated] row_evolves_trans)
  with len show ?thesis by (simp add: outbox_evolves_def)
qed

lemma map_evolves:
  assumes "\<And>r. r \<in> set (ob_rows t) \<Longrightarrow> row_evolves r (f r)"
  shows "outbox_evolves t (t \<lparr>ob_rows := map f (ob_rows t)\<rparr>)"
  using assms by (simp add: outbox_evolves_def list_all2_conv_all_nth)

lemma map_wf:
  assumes "outbox_wf t" "\<And>r. r \<in> set (ob_rows t) \<Longrightarrow> row_evolves r (f r)"
  shows "outbox_wf (t \<lparr>ob_rows := map f (ob_rows t)\<rparr>)"
proof -
  have same: "map or_sequenceId (map f (ob_rows t)) = map or_sequenceId (ob_rows t)"
    "map or_eventId (map f (ob_rows t)) = map or_eventId (ob_rows t)"
    using assms(2) by (simp_all add: row_evolves_def)
  have "0 \<le> or_attempts (f r) \<and> or_sequenceId (f r) < ob_next t" if "r \<in> set (ob_rows t)" for r
    using assms(2) [OF that] assms(1) that by (force simp: row_evolves_def outbox_wf_def list_all_iff)
  then show ?thesis
    using assms(1) by (simp add: outbox_wf_def list_all_iff same del: map_map)
qed

lemma claim_due:
  assumes "outbox_wf t" "r \<in> set (ob_rows t)" "or_sequenceId r \<in> set (claim_ids locked limit t)"
  shows "due locked t r"
proof -
  from assms(3) obtain q where q: "q \<in> set (filter (due locked t) (ob_rows t))" "or_sequenceId q = or_sequenceId r"
    unfolding claim_ids_eq [OF assms(1)] by (auto dest: in_set_takeD)
  then have "q = r"
    using assms(1,2) by (auto simp: outbox_wf_def distinct_map inj_on_def)
  with q show ?thesis by simp
qed

lemma claim_step_evolves:
  assumes "outbox_wf t" "r \<in> set (ob_rows t)"
  shows "row_evolves r (if or_sequenceId r \<in> set (claim_ids locked limit t) then claim_row c l n r else r)"
  using claim_due [OF assms, of locked limit] by (auto simp: row_evolves_def due_def claim_row_def)

lemma claimBatch_keeps:
  assumes "outbox_wf t"
  shows "outbox_wf (snd (claimBatch locked ret c limit l t)) \<and> outbox_evolves t (snd (claimBatch locked ret c limit l t))"
  unfolding claimBatch_def Let_def snd_conv
  by (intro conjI map_wf map_evolves assms claim_step_evolves)

lemma markPublished_keeps:
  assumes "outbox_wf t"
  shows "outbox_wf (markPublished ms t) \<and> outbox_evolves t (markPublished ms t)"
proof (cases "ms = []")
  case False
  then show ?thesis unfolding markPublished_def
    by (auto intro!: map_wf map_evolves assms simp: row_evolves_def publish_row_def)
qed (use assms in \<open>simp add: markPublished_def\<close>)

lemma releaseForRetry_keeps:
  assumes "outbox_wf t"
  shows "outbox_wf (snd (releaseForRetry m c d err t)) \<and> outbox_evolves t (snd (releaseForRetry m c d err t))"
  unfolding releaseForRetry_def snd_conv
  by (intro conjI map_wf map_evolves assms) (simp_all add: row_evolves_def release_matches_def)

lemma outbox_insert_keeps:
  assumes "outbox_wf t" "outbox_insert i ty k p oc t = Inr (u, t')"
  shows "outbox_wf t' \<and> outbox_evolves t t'"
proof -
  from assms(2) obtain e where e: "e \<notin> set (map or_eventId (ob_rows t))"
    "t' = t \<lparr>ob_rows := ob_rows t @
              [\<lparr>or_sequenceId = ob_next t, or_eventId = e, or_eventType = ty,
                or_routingKey = k, or_payload = p, or_occurredAt = oc,
                or_createdAt = ob_clock t, or_publishedAt = None, or_attempts = 0,
                or_availableAt = ob_clock t, or_claimedBy = None, or_lastError = None\<rparr>],
            ob_next := ob_next t + 1\<rparr>"
    by (auto simp: outbox_insert_def split: option.splits if_splits)
  then show ?thesis
    using assms(1) by (auto simp: outbox_wf_def outbox_evolves_def sorted_append list_all_iff list_all2_refl)
qed

section \<open>Properties of the store\<close>

definition sample_row :: "nat \<Rightarrow> string \<Rightarrow> int \<Rightarrow> OutboxRow" where
  "sample_row n e available = \<lparr>or_sequenceId = n, or_eventId = e, or_eventType = ''OrderCreated'',
     or_routingKey = ''order.created'', or_payload = JObj [(''eventId'', JStr e)], or_occurredAt = ''t'', or_createdAt = 0,
     or_publishedAt = None, or_attempts = 0, or_availableAt = available, or_claimedBy = None, or_lastError = None\<rparr>"

definition sample_table :: OutboxTable where
  "sample_table = \<lparr>ob_rows = [sample_row 1 ''a'' 0, sample_row 2 ''b'' 9, sample_row 10 ''c'' 0], ob_next = 11, ob_clock = 5\<rparr>"

text \<open>
  C6: a claim takes exactly the oldest due events. Whatever order RETURNING yields the updated
  rows in, \<open>claimBatch\<close> gives the messages of the first \<open>limit\<close> unpublished, available, unlocked
  rows in the order of their sequence ids compared as numbers, each with its claim count
  raised by one and leased to the claimant until the lease ends; every other row is untouched.
\<close>

theorem claimBatch_takes_oldest_due:
  assumes "outbox_wf t" "\<And>rows. mset (returned rows) = mset rows"
  shows "fst (claimBatch locked returned claimant limit lease t) =
      map (toMessage \<circ> claim_row claimant lease (ob_clock t)) (take limit (filter (due locked t) (ob_rows t)))
    \<and> ob_rows (snd (claimBatch locked returned claimant limit lease t)) =
      map (\<lambda>r. if r \<in> set (take limit (filter (due locked t) (ob_rows t)))
               then claim_row claimant lease (ob_clock t) r else r) (ob_rows t)"
proof -
  have "or_sequenceId r \<in> set (claim_ids locked limit t) \<longleftrightarrow> r \<in> set (take limit (filter (due locked t) (ob_rows t)))"
    if "r \<in> set (ob_rows t)" for r
  proof -
    have "inj_on or_sequenceId (set (ob_rows t))" using assms(1) by (simp add: outbox_wf_def distinct_map)
    moreover have "set (take limit (filter (due locked t) (ob_rows t))) \<subseteq> set (ob_rows t)"
      by (meson filter_is_subset order_trans set_take_subset)
    ultimately show ?thesis
      unfolding claim_ids_eq [OF assms(1)] using that by (auto dest: inj_onD)
  qed
  then show ?thesis
    using claimBatch_messages [OF assms] by (simp add: claimBatch_def Let_def)
qed

theorem claimBatch_takes_oldest_due_witness:
  "map om_sequenceId (fst (claimBatch (\<lambda>_. False) rev ''relay'' 5 30 sample_table)) = [''1'', ''10'']"
proof -
  have "outbox_wf sample_table" by code_simp
  from claimBatch_takes_oldest_due [OF this, of rev "\<lambda>_. False" "''relay''" 5 30]
  have "fst (claimBatch (\<lambda>_. False) rev ''relay'' 5 30 sample_table) =
    map (toMessage \<circ> claim_row ''relay'' 30 5) (take 5 (filter (due (\<lambda>_. False) sample_table) (ob_rows sample_table)))"
    by (simp add: sample_table_def)
  moreover have "map om_sequenceId (map (toMessage \<circ> claim_row ''relay'' 30 5)
      (take 5 (filter (due (\<lambda>_. False) sample_table) (ob_rows sample_table)))) = [''1'', ''10'']" by code_simp
  ultimately show ?thesis by (simp only:)
qed

text \<open>The two claims of the next property, under the same assumptions.\<close>

lemma claims_apart:
  assumes "outbox_wf t" "\<And>rows. mset (returned rows) = mset rows"
    "now < ob_clock t + 1000 * lease"
  shows "set (map om_sequenceId (fst (claimBatch locked returned c limit lease t)))
    \<inter> set (map om_sequenceId (fst (claimBatch locked' returned c' limit' lease'
        ((snd (claimBatch locked returned c limit lease t)) \<lparr>ob_clock := now\<rparr>)))) = {}"
proof -
  let ?t1 = "snd (claimBatch locked returned c limit lease t)" and ?t2 = "(snd (claimBatch locked returned c limit lease t)) \<lparr>ob_clock := now\<rparr>"
  let ?ids = "set (claim_ids locked limit t)"
  have wf2: "outbox_wf ?t2" using claimBatch_keeps [OF assms(1), of locked returned c limit lease]
    by (simp add: outbox_wf_def)
  have first: "BigInt_of ` om_sequenceId ` set (fst (claimBatch locked returned c limit lease t)) = int ` ?ids"
    by (simp add: claimBatch_messages [OF assms(1,2)] claim_ids_eq [OF assms(1)] image_image)
  have rows1: "ob_rows ?t1 = map (\<lambda>r. if or_sequenceId r \<in> ?ids then claim_row c lease (ob_clock t) r else r) (ob_rows t)"
    by (simp add: claimBatch_def Let_def)
  have second: "BigInt_of ` om_sequenceId ` set (fst (claimBatch locked' returned c' limit' lease' ?t2)) \<subseteq>
      int ` or_sequenceId ` {r \<in> set (ob_rows ?t1). due locked' ?t2 r}"
    by (auto simp: claimBatch_messages [OF wf2 assms(2)] image_image dest!: in_set_takeD)
  have "or_sequenceId r \<notin> ?ids" if "r \<in> set (ob_rows ?t1)" "due locked' ?t2 r" for r
    using that assms(3) unfolding rows1 by (auto simp: due_def split: if_splits)
  then have apart: "int ` ?ids \<inter> int ` or_sequenceId ` {r \<in> set (ob_rows ?t1). due locked' ?t2 r} = {}"
    by auto
  have "A \<inter> B = {}" if "BigInt_of ` A = X" "BigInt_of ` B \<subseteq> Y" "X \<inter> Y = {}" for A B X Y
    using that by blast
  from this [OF first second apart] show ?thesis unfolding set_map .
qed

text \<open>
  C7: the claim count fences off a relay that lost its lease. Once the row has been claimed
  again (by anyone) or published, releasing the older claim reports failure and changes
  nothing, whatever delay and error text it carries.
\<close>

theorem stale_release_changes_nothing:
  assumes "outbox_wf t" "r \<in> set (ob_rows t)" "BigInt_of (om_sequenceId m) = int (or_sequenceId r)"
    "om_attempts m < or_attempts r \<or> or_publishedAt r \<noteq> None"
  shows "releaseForRetry m claimant delay err t = (False, t)"
proof -
  have none: "\<not> release_matches m claimant q" if "q \<in> set (ob_rows t)" for q
  proof
    assume q: "release_matches m claimant q"
    then have "q = r"
      using assms(1,2,3) that by (auto simp: release_matches_def outbox_wf_def distinct_map inj_on_def)
    with q assms(4) show False by (auto simp: release_matches_def)
  qed
  then have "map (\<lambda>r. if release_matches m claimant r then f r else r) (ob_rows t) = ob_rows t" for f
    by (simp add: map_idI)
  moreover have "filter (release_matches m claimant) (ob_rows t) = []"
    using none by (simp add: filter_empty_conv)
  ultimately show ?thesis by (simp add: releaseForRetry_def)
qed

theorem stale_release_changes_nothing_witness:
  "let t1 = snd (claimBatch (\<lambda>_. False) rev ''a'' 5 30 sample_table);
       t2 = snd (claimBatch (\<lambda>_. False) rev ''b'' 5 30 (t1 \<lparr>ob_clock := 40000\<rparr>))
   in releaseForRetry (toMessage (ob_rows t1 ! 0)) ''a'' 100 ''x'' t2 = (False, t2)"
proof -
  let ?t1 = "snd (claimBatch (\<lambda>_. False) rev ''a'' 5 30 sample_table)"
  let ?t2 = "snd (claimBatch (\<lambda>_. False) rev ''b'' 5 30 (?t1 \<lparr>ob_clock := 40000\<rparr>))"
  have "outbox_wf ?t2" by code_simp
  moreover have "ob_rows ?t2 ! 0 \<in> set (ob_rows ?t2)" by code_simp
  moreover have "BigInt_of (om_sequenceId (toMessage (ob_rows ?t1 ! 0))) = int (or_sequenceId (ob_rows ?t2 ! 0))" by code_simp
  moreover have "om_attempts (toMessage (ob_rows ?t1 ! 0)) < or_attempts (ob_rows ?t2 ! 0)
      \<or> or_publishedAt (ob_rows ?t2 ! 0) \<noteq> None" by code_simp
  ultimately show ?thesis unfolding Let_def by (rule stale_release_changes_nothing)
qed

end
