(* ===== verification/Persistence.thy ===== *)
theory Persistence
  imports Outbox
begin

text \<open>
  shared/persistence/src/transaction.ts and migrations.ts: one transaction on a pooled client,
  with the ways it can fail, and the versioned schema migrations.
\<close>

section \<open>Transactions\<close>

text \<open>
  What the connection does to one transaction: the pool may not give a client, BEGIN may fail,
  COMMIT may be lost before or after it took effect, ROLLBACK may fail, and the client may emit
  an \<open>error\<close> event at some point.
\<close>

record tx_env =
  env_connect :: "js_error option"
  env_begin :: "js_error option"
  env_commit :: db_fault
  env_rollback :: "js_error option"
  env_connectionError :: "js_error option"

text \<open>
  The outcome: what the call returns or throws, the database after it, and with what the client
  was released (\<open>Some None\<close>: back to the pool, \<open>Some (Some e)\<close>: discarded).
\<close>

record ('a, 's) tx_outcome =
  txo_result :: "js_error + 'a"
  txo_state :: 's
  txo_released :: "js_error option option"

definition rolled_back :: "tx_env \<Rightarrow> js_error \<Rightarrow> 's \<Rightarrow> ('a, 's) tx_outcome" where
  "rolled_back env err s =
     \<lparr>txo_result = Inl err, txo_state = s,
      txo_released = Some (case env_rollback env of
        Some rollbackError \<Rightarrow> Some rollbackError
      | None \<Rightarrow> env_connectionError env)\<rparr>"

definition withTransaction :: "tx_env \<Rightarrow> ('s, 'a) tx \<Rightarrow> 's \<Rightarrow> ('a, 's) tx_outcome" where
  "withTransaction env work s =
     (case env_connect env of
        Some e \<Rightarrow> \<lparr>txo_result = Inl e, txo_state = s, txo_released = None\<rparr>
      | None \<Rightarrow>
          (case env_begin env of
             Some e \<Rightarrow> rolled_back env e s
           | None \<Rightarrow>
               (case work s of
                  Inl e \<Rightarrow> rolled_back env e s
                | Inr (result, s') \<Rightarrow>
                    (case env_commit env of
                       NoFault \<Rightarrow> \<lparr>txo_result = Inr result, txo_state = s',
                         txo_released = Some (env_connectionError env)\<rparr>
                     | FailBefore e \<Rightarrow> rolled_back env e s
                     | FailAfter e \<Rightarrow> rolled_back env e s'))))"

definition healthy :: tx_env where
  "healthy = \<lparr>env_connect = None, env_begin = None, env_commit = NoFault, env_rollback = None,
     env_connectionError = None\<rparr>"

lemma withTransaction_healthy:
  "withTransaction healthy work s =
     (case work s of
        Inl e \<Rightarrow> \<lparr>txo_result = Inl e, txo_state = s, txo_released = Some None\<rparr>
      | Inr (x, s') \<Rightarrow> \<lparr>txo_result = Inr x, txo_state = s', txo_released = Some None\<rparr>)"
  by (simp add: withTransaction_def healthy_def rolled_back_def split: sum.split prod.split)

text \<open>
  What a caller sees of a transaction: it returned and the work is committed, it threw although
  the work is committed, or it threw and nothing happened.
\<close>

definition run_transaction :: "tx_env \<Rightarrow> ('s, 'a) tx \<Rightarrow> ('s, 'a) io" where
  "run_transaction env work s =
     (txo_result (withTransaction env work s), txo_state (withTransaction env work s))"

lemma run_transaction_cases [consumes 1, case_names returned lost nothing]:
  assumes "run_transaction env work s = (r, s')"
  obtains x where "r = Inr x" "work s = Inr (x, s')"
    | e x where "r = Inl e" "work s = Inr (x, s')"
    | e where "r = Inl e" "s' = s"
  using assms
  by (auto simp: run_transaction_def withTransaction_def rolled_back_def
      split: option.splits sum.splits prod.splits db_fault.splits)

lemma run_transaction_healthy [simp]:
  "run_transaction healthy work s = (case work s of Inl e \<Rightarrow> (Inl e, s) | Inr (x, s') \<Rightarrow> (Inr x, s'))"
  by (simp add: run_transaction_def withTransaction_healthy split: sum.split prod.split)

text \<open>
  A transaction is all or nothing. If the call returns, the database is exactly what the
  work made of it; if it throws, the database is unchanged, unless the work had succeeded and
  only the acknowledgement of COMMIT was lost, in which case it holds all of the work; a client
  whose ROLLBACK failed or whose connection broke is never handed out again.
\<close>

lemma transaction_all_or_nothing:
  "(case txo_result (withTransaction env work s) of
      Inr x \<Rightarrow> work s = Inr (x, txo_state (withTransaction env work s))
    | Inl e \<Rightarrow> txo_state (withTransaction env work s) = s
        \<or> (env_commit env = FailAfter e \<and> (\<exists>x. work s = Inr (x, txo_state (withTransaction env work s)))))
   \<and> (case txo_released (withTransaction env work s) of
        None \<Rightarrow> env_connect env \<noteq> None
      | Some r \<Rightarrow> r = None \<longrightarrow> env_connectionError env = None
          \<and> (isl (txo_result (withTransaction env work s)) \<longrightarrow> env_rollback env = None))"
  by (auto simp: withTransaction_def rolled_back_def split: option.split sum.split prod.split db_fault.split)

section \<open>Migrations\<close>

record 'd Migration =
  mi_version :: int
  mi_name :: string
  mi_up :: "('d, unit) tx"

record MigrationResult =
  appliedVersions :: "int list"
  currentVersion :: int

record 'd MigrationPlan =
  plan_historyTable :: string
  plan_migrations :: "'d Migration list"

text \<open>
  A database is the service's own tables and the history table, which does not exist before
  the first migration run. Runs are serialised by the advisory lock.
\<close>

record 'd MigratedDb =
  mg_data :: 'd
  mg_history :: "(int \<times> string) list option"

text \<open>The first migration whose version is not its position.\<close>

fun misplaced :: "int \<Rightarrow> 'd Migration list \<Rightarrow> ('d Migration \<times> int) option" where
  "misplaced i [] = None"
| "misplaced i (m # ms) = (if mi_version m \<noteq> i then Some (m, i) else misplaced (i + 1) ms)"

definition assertMigrationsAreOrdered :: "'d Migration list \<Rightarrow> js_error option" where
  "assertMigrationsAreOrdered ms =
     map_option (\<lambda>(m, i). JsError (''Migration '' @ [CHR 0x27] @ mi_name m @ [CHR 0x27] @ '' has version '' @
       int_text (mi_version m) @ ''; expected '' @ int_text i @ ''. '' @
       ''Migrations must be contiguous and ordered.'')) (misplaced 1 ms)"

definition create_history :: "('d MigratedDb, unit) tx" where
  "create_history db = Inr ((), db \<lparr>mg_history := Some (case mg_history db of None \<Rightarrow> [] | Some h \<Rightarrow> h)\<rparr>)"

definition history_of :: "'d MigratedDb \<Rightarrow> (int \<times> string) list" where
  "history_of db = (case mg_history db of None \<Rightarrow> [] | Some h \<Rightarrow> h)"

definition run_up :: "'d Migration \<Rightarrow> ('d MigratedDb, unit) tx" where
  "run_up m db =
     (case mi_up m (mg_data db) of Inl e \<Rightarrow> Inl e | Inr (u, d) \<Rightarrow> Inr ((), db \<lparr>mg_data := d\<rparr>))"

text \<open>The history table's primary key is the version.\<close>

definition record_version :: "'d Migration \<Rightarrow> ('d MigratedDb, unit) tx" where
  "record_version m db =
     (if mi_version m \<in> set (map fst (history_of db)) then
        Inl (DatabaseError ''duplicate key value violates unique constraint'')
      else Inr ((), db \<lparr>mg_history := Some (history_of db @ [(mi_version m, mi_name m)])\<rparr>))"

fun apply_pending :: "int list \<Rightarrow> 'd Migration list \<Rightarrow> ('d MigratedDb, int list) tx" where
  "apply_pending alreadyApplied [] = returnE []"
| "apply_pending alreadyApplied (m # ms) =
     (if mi_version m \<in> set alreadyApplied then apply_pending alreadyApplied ms
      else bindE (run_up m) (\<lambda>_.
           bindE (record_version m) (\<lambda>_.
           bindE (apply_pending alreadyApplied ms) (\<lambda>applied.
           returnE (mi_version m # applied)))))"

definition migration_work :: "'d Migration list \<Rightarrow> ('d MigratedDb, MigrationResult) tx" where
  "migration_work ms =
     bindE create_history (\<lambda>_. (\<lambda>db.
       (let alreadyApplied = map fst (history_of db)
        in bindE (apply_pending alreadyApplied ms) (\<lambda>applied.
           returnE \<lparr>appliedVersions = applied, currentVersion = foldl max 0 (alreadyApplied @ applied)\<rparr>) db)))"

definition migrateDatabase ::
    "tx_env \<Rightarrow> 'd MigrationPlan \<Rightarrow> 'd MigratedDb \<Rightarrow> (js_error + MigrationResult) \<times> 'd MigratedDb" where
  "migrateDatabase env plan db =
     (if \<not> TABLE_NAME_PATTERN (plan_historyTable plan) then
        (Inl (JsError (''Invalid migration history table name '' @ [CHR 0x27] @ plan_historyTable plan @ [CHR 0x27] @ ''.'')), db)
      else case assertMigrationsAreOrdered (plan_migrations plan) of
        Some e \<Rightarrow> (Inl e, db)
      | None \<Rightarrow> (let r = withTransaction env (migration_work (plan_migrations plan)) db
                in (txo_result r, txo_state r)))"

section \<open>What a migration run does\<close>

text \<open>Migrations in order are the versions 1, 2, ..., n.\<close>

lemma misplaced_None: "misplaced i ms = None \<longleftrightarrow> map mi_version ms = map (\<lambda>k. i + int k) [0 ..< length ms]"
proof (induction ms arbitrary: i)
  case (Cons m ms)
  have "map (\<lambda>k. i + int k) [0 ..< length (m # ms)] = i # map (\<lambda>k. i + 1 + int k) [0 ..< length ms]"
    by (simp add: upt_conv_Cons map_Suc_upt [symmetric] comp_def algebra_simps del: upt_Suc)
  with Cons show ?case by simp
qed simp

lemma ordered_distinct: "misplaced i ms = None \<Longrightarrow> distinct (map mi_version ms)"
  unfolding misplaced_None by (simp add: distinct_map inj_on_def)

lemma apply_pending_effect:
  assumes "apply_pending done' ms db = Inr (applied, db')"
  shows "applied = filter (\<lambda>v. v \<notin> set done') (map mi_version ms)
    \<and> map fst (history_of db') = map fst (history_of db) @ applied"
  using assms
proof (induction ms arbitrary: db applied)
  case (Cons m ms)
  show ?case
  proof (cases "mi_version m \<in> set done'")
    case False
    with Cons.prems obtain db1 db2 rest where steps: "run_up m db = Inr ((), db1)" "record_version m db1 = Inr ((), db2)"
      "apply_pending done' ms db2 = Inr (rest, db')" "applied = mi_version m # rest" by auto
    have "history_of db1 = history_of db"
      using steps(1) by (auto simp: run_up_def history_of_def split: sum.splits)
    moreover have "map fst (history_of db2) = map fst (history_of db1) @ [mi_version m]"
      using steps(2) by (auto simp: record_version_def history_of_def split: if_splits)
    ultimately show ?thesis using Cons.IH [OF steps(3)] steps(4) False by simp
  qed (use Cons in simp)
qed simp

lemma apply_pending_nothing:
  "set (map mi_version ms) \<subseteq> set done' \<Longrightarrow> apply_pending done' ms db = Inr ([], db)"
  by (induction ms) auto

lemma foldl_max: "foldl max (a :: int) xs = Max (insert a (set xs))"
proof (induction xs arbitrary: a)
  case (Cons x xs)
  have "foldl max a (x # xs) = Max (insert (max a x) (set xs))" using Cons by simp
  also have "\<dots> = Max (insert a (insert x (set xs)))"
    by (cases "set xs = {}") (simp_all add: max.assoc)
  finally show ?case by simp
qed simp

lemma migration_work_effect:
  assumes "migration_work ms db = Inr (r, db')"
  shows "appliedVersions r = filter (\<lambda>v. v \<notin> set (map fst (history_of db))) (map mi_version ms)
    \<and> map fst (history_of db') = map fst (history_of db) @ appliedVersions r
    \<and> currentVersion r = Max (insert 0 (set (map fst (history_of db'))))
    \<and> mg_history db' \<noteq> None"
proof -
  let ?db1 = "db \<lparr>mg_history := Some (history_of db)\<rparr>"
  have h: "history_of ?db1 = history_of db" by (simp add: history_of_def)
  have c: "create_history db = Inr ((), ?db1)" by (simp add: create_history_def history_of_def)
  from assms obtain applied where a: "apply_pending (map fst (history_of db)) ms ?db1 = Inr (applied, db')"
    "r = \<lparr>appliedVersions = applied, currentVersion = foldl max 0 (map fst (history_of db) @ applied)\<rparr>"
    unfolding migration_work_def by (auto simp: bindE_def [of create_history] c h Let_def)
  have "mg_history db' \<noteq> None" if "apply_pending d ms' x = Inr (y, db')" "mg_history x \<noteq> None" for d ms' x y
    using that
  proof (induction ms' arbitrary: x y)
    case (Cons m ms')
    then show ?case
      by (auto simp: run_up_def record_version_def split: if_splits sum.splits)
  qed simp
  from this [OF a(1)] apply_pending_effect [OF a(1)] a(2) h show ?thesis
    by (simp only: foldl_max set_append MigrationResult.simps) (simp add: set_append)
qed


definition sample_plan :: "nat MigrationPlan" where
  "sample_plan = \<lparr>plan_historyTable = ''order_schema_migrations'',
     plan_migrations = [\<lparr>mi_version = 2, mi_name = ''x'', mi_up = returnE ()\<rparr>]\<rparr>"


end
