(* ===== verification/PostgresInventory.thy ===== *)
theory PostgresInventory
  imports InventoryService Persistence
begin

text \<open>
  services/inventory-service/src/postgresInventoryStore.ts with the tables of migrations.ts: the
  PostgreSQL adapter of the inventory port, statement by statement, and the proof that it
  fulfils the same contract as the in-memory adapter.
\<close>

section \<open>The tables\<close>

record ReservationRow =
  rv_orderId :: string
  rv_status :: string
  rv_reservationId :: "string option"
  rv_sourceEventId :: string
  rv_resultEventId :: string
  rv_items :: js

record InventoryDb =
  inv_stock :: "(string \<times> int) list"
  inv_reservations :: "ReservationRow list"
  inv_outbox :: OutboxTable

text \<open>PostgreSQL refuses a NUL character in TEXT and JSONB values, and integers beyond 4 bytes.\<close>

definition has_nul :: "string \<Rightarrow> bool" where
  "has_nul s = (CHR 0x00 \<in> set s)"

fun js_has_nul :: "js \<Rightarrow> bool" where
  "js_has_nul (JStr s) = has_nul s"
| "js_has_nul (JArr vs) = list_ex js_has_nul vs"
| "js_has_nul (JObj fs) = list_ex (\<lambda>(k, v). has_nul k \<or> js_has_nul v) fs"
| "js_has_nul _ = False"

definition in_int4 :: "int \<Rightarrow> bool" where
  "in_int4 n = (- 2147483648 \<le> n \<and> n \<le> 2147483647)"

definition nul_error :: js_error where
  "nul_error = DatabaseError ''invalid byte sequence for encoding UTF8: 0x00''"

section \<open>The statements\<close>

definition status_of :: "string \<Rightarrow> ReservationStatus" where
  "status_of t = (if t = ''Reserved'' then Reserved else Rejected)"

definition row_record :: "ReservationRow \<Rightarrow> ReservationRecord" where
  "row_record r = \<lparr>rr_orderId = rv_orderId r, rr_status = status_of (rv_status r),
     rr_reservationId = rv_reservationId r, rr_sourceEventId = rv_sourceEventId r,
     rr_resultEventId = rv_resultEventId r, rr_items = read_list read_item (rv_items r)\<rparr>"

text \<open>The advisory lock serialises the transactions of an order; it stores nothing.\<close>

definition pgi_lockOrder :: "string \<Rightarrow> (InventoryDb, ReservationRecord option) tx" where
  "pgi_lockOrder oid db =
     (if has_nul oid then Inl nul_error
      else Inr (map_option row_record (List.find (\<lambda>r. rv_orderId r = oid) (inv_reservations db)), db))"

definition pgi_lockStock :: "string list \<Rightarrow> (InventoryDb, (string, int) jsmap) tx" where
  "pgi_lockStock productIds db =
     (if list_ex has_nul productIds then Inl nul_error
      else Inr (filter (\<lambda>(p, n). p \<in> set productIds) (inv_stock db), db))"

definition pgi_decrementStock :: "(string, int) jsmap \<Rightarrow> (InventoryDb, unit) tx" where
  "pgi_decrementStock q db =
     (let productIds = map_keys q;
          quantities = map (\<lambda>p. map_or 0 q p) productIds;
          updated = map (\<lambda>(p, c). (p, if p \<in> set productIds then c - map_or 0 q p else c)) (inv_stock db);
          rowCount = length (filter (\<lambda>(p, c). p \<in> set productIds) (inv_stock db))
      in if list_ex has_nul productIds then Inl nul_error
         else if \<not> list_all in_int4 quantities \<or> \<not> list_all (\<lambda>(p, c). in_int4 c) updated then
           Inl (DatabaseError ''integer out of range'')
         else if \<not> list_all (\<lambda>(p, c). 0 \<le> c) updated then
           Inl (DatabaseError ''violates check constraint inventory_stock_quantity_nonnegative'')
         else if rowCount \<noteq> length productIds then
           Inl (JsError (''Expected to update '' @ nat_text (length productIds) @ '' stock rows, '' @
             ''but updated '' @ nat_text rowCount @ ''.''))
         else Inr ((), db \<lparr>inv_stock := updated\<rparr>))"

definition pgi_recordReservation :: "ReservationRecord \<Rightarrow> (InventoryDb, unit) tx" where
  "pgi_recordReservation r db =
     (let items = json_wire (JArr (map item_js (rr_items r)));
          rows = inv_reservations db
      in if has_nul (rr_orderId r) \<or> has_nul (rr_sourceEventId r) \<or> js_has_nul items then Inl nul_error
         else case uuid_in (rr_resultEventId r) of
           None \<Rightarrow> Inl (DatabaseError ''invalid input syntax for type uuid'')
         | Some resultId \<Rightarrow>
             (case (case rr_reservationId r of None \<Rightarrow> Some None | Some i \<Rightarrow> map_option Some (uuid_in i)) of
                None \<Rightarrow> Inl (DatabaseError ''invalid input syntax for type uuid'')
              | Some reservationId \<Rightarrow>
                  if rr_orderId r \<in> set (map rv_orderId rows)
                     \<or> (reservationId \<noteq> None \<and> reservationId \<in> set (map rv_reservationId rows))
                     \<or> resultId \<in> set (map rv_resultEventId rows) then
                    Inl (DatabaseError ''duplicate key value violates unique constraint'')
                  else if (rr_status r = Reserved) \<noteq> (reservationId \<noteq> None) then
                    Inl (DatabaseError ''violates check constraint inventory_reservations_reservation_id_matches_status'')
                  else Inr ((), db \<lparr>inv_reservations := rows @
                    [\<lparr>rv_orderId = rr_orderId r, rv_status = status_text (rr_status r),
                      rv_reservationId = reservationId, rv_sourceEventId = rr_sourceEventId r,
                      rv_resultEventId = resultId, rv_items = items\<rparr>]\<rparr>)))"

definition pgi_enqueueEvent :: "InventoryResultEvent \<Rightarrow> (InventoryDb, unit) tx" where
  "pgi_enqueueEvent e db =
     (if js_has_nul (json_wire (result_js e)) then Inl nul_error
      else case outbox_insert (result_eventId e) (eventType_text (result_eventType e))
             (getRoutingKey (result_eventType e)) (json_wire (result_js e)) (result_occurredAt e) (inv_outbox db) of
        Inl err \<Rightarrow> Inl err
      | Inr (u, t) \<Rightarrow> Inr ((), db \<lparr>inv_outbox := t\<rparr>))"

definition postgresInventoryTransaction :: "InventoryDb InventoryTransaction" where
  "postgresInventoryTransaction =
     \<lparr>lockOrder = pgi_lockOrder, lockStock = pgi_lockStock, decrementStock = pgi_decrementStock,
      recordReservation = pgi_recordReservation, enqueueEvent = pgi_enqueueEvent\<rparr>"

text \<open>\<open>inTransaction\<close> of this store is the same code as the shared \<open>withTransaction\<close>.\<close>

definition pgi_inTransaction ::
    "tx_env \<Rightarrow> (InventoryDb, 'a) tx \<Rightarrow> InventoryDb \<Rightarrow> (js_error + 'a) \<times> InventoryDb" where
  "pgi_inTransaction env work db =
     (let r = withTransaction env work db in (txo_result r, txo_state r))"

definition pgi_getAllStock :: "InventoryDb \<Rightarrow> (string, int) jsmap" where
  "pgi_getAllStock db = inv_stock db"

section \<open>The adapter fulfils the contract\<close>

definition pgi_ledger :: "InventoryDb \<Rightarrow> Ledger" where
  "pgi_ledger db = \<lparr>ledger_stock = map_of (inv_stock db),
     ledger_reservations = map row_record (inv_reservations db),
     ledger_outbox = map or_payload (ob_rows (inv_outbox db))\<rparr>"

definition pgi_inv :: "InventoryDb \<Rightarrow> bool" where
  "pgi_inv db = (distinct (map fst (inv_stock db)) \<and> list_all (\<lambda>(p, c). 0 \<le> c \<and> in_int4 c) (inv_stock db))"

definition uuid_ok :: "string \<Rightarrow> bool" where
  "uuid_ok s = (uuid_in s = Some s)"

lemma find_map: "List.find P (map f xs) = map_option f (List.find (\<lambda>x. P (f x)) xs)"
  by (induction xs) auto

lemma row_record_orderId [simp]: "rr_orderId (row_record r) = rv_orderId r"
  by (simp add: row_record_def)

lemma pgi_reservation_of:
  "reservation_of (pgi_ledger db) oid =
     map_option row_record (List.find (\<lambda>r. rv_orderId r = oid) (inv_reservations db))"
  by (simp add: reservation_of_def pgi_ledger_def find_map)

lemma json_wire_item: "valid_item i \<Longrightarrow> json_wire (item_js i) = item_js i"
  by (simp add: item_js_def int_js_def valid_item_def valid_amount_def)

lemma read_stored_items:
  "list_all valid_item items \<Longrightarrow> read_list read_item (json_wire (JArr (map item_js items))) = items"
  by (induction items) (simp_all add: read_list_def json_wire_item)

lemma status_of_text [simp]: "status_of (status_text s) = s"
  by (cases s) (simp_all add: status_of_def)

lemma map_of_filter_keys: "p \<in> S \<Longrightarrow> map_of (filter (\<lambda>(p, n). p \<in> S) m) p = map_of m p"
  by (induction m) auto

lemma map_of_update_rows:
  "map_of (map (\<lambda>(p, c). (p, if p \<in> S then c - f p else c)) m) p =
     (if p \<in> S then map_option (\<lambda>c. c - f p) (map_of m p) else map_of m p)"
  by (induction m) auto

text \<open>All requested products have a row when as many rows as requested products match.\<close>

lemma all_matched:
  assumes "distinct (map fst m)" "distinct ks" "length (filter (\<lambda>(p, c). p \<in> set ks) m) = length ks" "k \<in> set ks"
  shows "\<exists>c. map_of m k = Some c"
proof -
  let ?hit = "map fst (filter (\<lambda>(p, c). p \<in> set ks) m)"
  have "distinct ?hit" using assms(1) by (simp add: distinct_map_filter)
  then have "card (set ?hit) = card (set ks)"
    using assms(2,3) by (simp add: distinct_card del: set_map)
  moreover have "set ?hit \<subseteq> set ks" by auto
  ultimately have "set ?hit = set ks" by (intro card_subset_eq) simp_all
  with assms(4) have "k \<in> fst ` set m" by force
  then show ?thesis by (metis map_of_eq_None_iff not_None_eq)
qed

lemma map_or_Some: "map_of q k = Some n \<Longrightarrow> map_or d q k = n"
  by (simp add: map_or_def)

lemma pgi_decrement_effect:
  assumes "pgi_inv db" "quantities_ok q" "pgi_decrementStock q db = Inr (u, db')"
  shows "pgi_inv db' \<and> can_take q (pgi_ledger db) \<and> pgi_ledger db' = take_stock q (pgi_ledger db)"
proof -
  let ?upd = "map (\<lambda>(p, c). (p, if p \<in> set (map_keys q) then c - map_or 0 q p else c)) (inv_stock db)"
  from assms(3) have ok: "list_all (\<lambda>(p, c). in_int4 c) ?upd" "list_all (\<lambda>(p, c). 0 \<le> c) ?upd"
    "length (filter (\<lambda>(p, c). p \<in> set (map_keys q)) (inv_stock db)) = length (map_keys q)"
    "db' = db \<lparr>inv_stock := ?upd\<rparr>"
    by (auto simp: pgi_decrementStock_def Let_def split: if_splits)
  have keys: "map fst ?upd = map fst (inv_stock db)" by (induction "inv_stock db") auto
  have "distinct (map fst ?upd)" unfolding keys using assms(1) by (simp add: pgi_inv_def)
  moreover have "list_all (\<lambda>(p, c). 0 \<le> c \<and> in_int4 c) m" if "list_all (\<lambda>(p, c). in_int4 c) m"
    "list_all (\<lambda>(p, c). 0 \<le> c) m" for m :: "(string \<times> int) list"
    using that by (induction m) auto
  from this [OF ok(1,2)] have "list_all (\<lambda>(p, c). 0 \<le> c \<and> in_int4 c) ?upd" .
  ultimately have inv': "pgi_inv db'" by (simp add: pgi_inv_def ok(4) del: map_map)
  have stock: "map_of ?upd p = (case map_get q p of None \<Rightarrow> map_of (inv_stock db) p
      | Some n \<Rightarrow> map_option (\<lambda>c. c - n) (map_of (inv_stock db) p))" for p
    unfolding map_of_update_rows using map_of_in_keys [of p q]
    by (cases "map_of q p") (auto simp: map_or_def)
  have "\<exists>c. map_of (inv_stock db) p = Some c \<and> n \<le> c" if "(p, n) \<in> set q" for p n
  proof -
    have d: "distinct (map fst q)" using assms(2) by (simp add: quantities_ok_def)
    from that have k: "p \<in> set (map_keys q)" by force
    from all_matched [OF _ d ok(3) k] assms(1) obtain c where c: "map_of (inv_stock db) p = Some c"
      by (auto simp: pgi_inv_def)
    have "map_of q p = Some n" using d that by simp
    with stock [of p] c have "map_of ?upd p = Some (c - n)" by simp
    from bspec [OF ok(2) [unfolded list_all_iff] map_of_SomeD [OF this]] have "0 \<le> c - n" by simp
    with c show ?thesis by simp
  qed
  then have "can_take q (pgi_ledger db)" by (fastforce simp: can_take_def pgi_ledger_def list_all_iff)
  moreover have "pgi_ledger db' = take_stock q (pgi_ledger db)"
    using stock by (auto simp: ok(4) pgi_ledger_def take_stock_def fun_eq_iff split: option.split)
  ultimately show ?thesis using inv' by blast
qed

lemma pgi_record_effect:
  assumes "list_all valid_item (rr_items r)" "uuid_ok (rr_resultEventId r)"
    "\<forall>i. rr_reservationId r = Some i \<longrightarrow> uuid_ok i" "pgi_recordReservation r db = Inr (u, db')"
  shows "reservation_of (pgi_ledger db) (rr_orderId r) = None
    \<and> pgi_ledger db' = (pgi_ledger db) \<lparr>ledger_reservations := ledger_reservations (pgi_ledger db) @ [r]\<rparr>
    \<and> inv_stock db' = inv_stock db \<and> inv_outbox db' = inv_outbox db"
proof -
  let ?row = "\<lparr>rv_orderId = rr_orderId r, rv_status = status_text (rr_status r),
      rv_reservationId = rr_reservationId r, rv_sourceEventId = rr_sourceEventId r,
      rv_resultEventId = rr_resultEventId r, rv_items = json_wire (JArr (map item_js (rr_items r)))\<rparr>"
  have ids: "(case rr_reservationId r of None \<Rightarrow> Some None | Some i \<Rightarrow> map_option Some (uuid_in i)) = Some (rr_reservationId r)"
    using assms(3) by (auto simp: uuid_ok_def split: option.split)
  from assms(2,4) ids have new: "rr_orderId r \<notin> set (map rv_orderId (inv_reservations db))"
    and db': "db' = db \<lparr>inv_reservations := inv_reservations db @ [?row]\<rparr>"
    by (auto simp: pgi_recordReservation_def Let_def uuid_ok_def split: if_splits)
  have "row_record ?row = r"
    using read_stored_items [OF assms(1)] by (simp add: row_record_def)
  moreover have "reservation_of (pgi_ledger db) (rr_orderId r) = None"
    using new by (simp add: pgi_reservation_of find_None_iff') (metis image_eqI)
  ultimately show ?thesis by (simp add: db' pgi_ledger_def)
qed

lemma outbox_insert_payloads:
  "outbox_insert i ty k p oc t = Inr (u, t') \<Longrightarrow> map or_payload (ob_rows t') = map or_payload (ob_rows t) @ [p]"
  by (auto simp: outbox_insert_def split: option.splits if_splits)

lemma pgi_enqueue_effect:
  assumes "pgi_enqueueEvent e db = Inr (u, db')"
  shows "pgi_ledger db' = (pgi_ledger db) \<lparr>ledger_outbox := ledger_outbox (pgi_ledger db) @ [json_wire (result_js e)]\<rparr>
    \<and> inv_stock db' = inv_stock db \<and> inv_reservations db' = inv_reservations db"
  using assms by (auto simp: pgi_enqueueEvent_def pgi_ledger_def dest: outbox_insert_payloads split: if_splits sum.splits)

interpretation pgi: inventory_store postgresInventoryTransaction pgi_ledger pgi_inv uuid_ok
proof unfold_locales
  fix s oid r s'
  assume "pgi_inv s" "lockOrder postgresInventoryTransaction oid s = Inr (r, s')"
  then show "s' = s \<and> r = reservation_of (pgi_ledger s) oid"
    by (auto simp: postgresInventoryTransaction_def pgi_lockOrder_def pgi_reservation_of split: if_splits)
next
  fix s ps m s'
  assume "pgi_inv s" "lockStock postgresInventoryTransaction ps s = Inr (m, s')"
  then show "s' = s \<and> (\<forall>p \<in> set ps. map_get m p = ledger_stock (pgi_ledger s) p)"
    by (auto simp: postgresInventoryTransaction_def pgi_lockStock_def pgi_ledger_def map_of_filter_keys split: if_splits)
next
  fix s q u s'
  assume "pgi_inv s" "quantities_ok q" "decrementStock postgresInventoryTransaction q s = Inr (u, s')"
  then show "pgi_inv s' \<and> can_take q (pgi_ledger s) \<and> pgi_ledger s' = take_stock q (pgi_ledger s)"
    by (intro pgi_decrement_effect) (simp_all add: postgresInventoryTransaction_def)
next
  fix s u s' and rec :: ReservationRecord
  assume "pgi_inv s" "list_all valid_item (rr_items rec)" "uuid_ok (rr_resultEventId rec)"
    "\<forall>i. rr_reservationId rec = Some i \<longrightarrow> uuid_ok i" "recordReservation postgresInventoryTransaction rec s = Inr (u, s')"
  with pgi_record_effect [of rec s u s']
  show "pgi_inv s' \<and> reservation_of (pgi_ledger s) (rr_orderId rec) = None \<and>
      pgi_ledger s' = (pgi_ledger s) \<lparr>ledger_reservations := ledger_reservations (pgi_ledger s) @ [rec]\<rparr>"
    by (simp add: postgresInventoryTransaction_def pgi_inv_def)
next
  fix s e u s'
  assume "pgi_inv s" "enqueueEvent postgresInventoryTransaction e s = Inr (u, s')"
  with pgi_enqueue_effect [of e s u s']
  show "pgi_inv s' \<and> pgi_ledger s' =
      (pgi_ledger s) \<lparr>ledger_outbox := ledger_outbox (pgi_ledger s) @ [json_wire (result_js e)]\<rparr>"
    by (simp add: postgresInventoryTransaction_def pgi_inv_def)
next
  fix s p c
  assume "pgi_inv s" "ledger_stock (pgi_ledger s) p = Some c"
  then show "0 \<le> c" by (auto simp: pgi_inv_def pgi_ledger_def list_all_iff dest!: map_of_SomeD)
qed

section \<open>When the statements succeed\<close>

definition pgi_can_record :: "InventoryDb \<Rightarrow> ReservationRecord \<Rightarrow> bool" where
  "pgi_can_record db r =
     (\<not> has_nul (rr_orderId r) \<and> \<not> has_nul (rr_sourceEventId r)
      \<and> \<not> js_has_nul (json_wire (JArr (map item_js (rr_items r))))
      \<and> uuid_ok (rr_resultEventId r) \<and> rr_resultEventId r \<notin> set (map rv_resultEventId (inv_reservations db))
      \<and> (case rr_reservationId r of
           None \<Rightarrow> rr_status r = Rejected
         | Some i \<Rightarrow> rr_status r = Reserved \<and> uuid_ok i \<and> Some i \<notin> set (map rv_reservationId (inv_reservations db))))"

definition pgi_can_enqueue :: "InventoryDb \<Rightarrow> InventoryResultEvent \<Rightarrow> bool" where
  "pgi_can_enqueue db e =
     (\<not> js_has_nul (json_wire (result_js e)) \<and> uuid_ok (result_eventId e)
      \<and> result_eventId e \<notin> set (map or_eventId (ob_rows (inv_outbox db))))"

lemma all_matched_rows:
  assumes "distinct (map fst m)" "distinct ks" "\<forall>k \<in> set ks. \<exists>c. map_of m k = Some c"
  shows "length (filter (\<lambda>(p, c). p \<in> set ks) m) = length ks"
proof -
  let ?hit = "map fst (filter (\<lambda>(p, c). p \<in> set ks) m)"
  have "k \<in> set ?hit" if "k \<in> set ks" for k
    using assms(3) that map_of_SomeD by (fastforce simp: image_iff)
  then have "set ?hit = set ks" by auto
  moreover have "distinct ?hit" using assms(1) by (simp add: distinct_map_filter)
  ultimately have "length ?hit = length ks" using assms(2) by (metis distinct_card)
  then show ?thesis by simp
qed

lemma pgi_decrement_returns:
  assumes "pgi_inv db" "quantities_ok q" "list_all (\<lambda>p. \<not> has_nul p) (map_keys q)" "can_take q (pgi_ledger db)"
  shows "\<exists>r. pgi_decrementStock q db = Inr r"
proof -
  have d: "distinct (map fst (inv_stock db))" "distinct (map_keys q)"
    using assms(1,2) by (simp_all add: pgi_inv_def quantities_ok_def)
  have take: "0 < n \<and> (\<exists>c. map_of (inv_stock db) p = Some c \<and> n \<le> c \<and> in_int4 c)" if "(p, n) \<in> set q" for p n
    using that assms(1,2,4)
    by (fastforce simp: can_take_def pgi_ledger_def list_all_iff quantities_ok_def pgi_inv_def
        dest: map_of_SomeD split: option.splits)
  have q: "map_or 0 q p = n" if "(p, n) \<in> set q" for p n
    using d(2) that by (simp add: map_or_def)
  have "list_all in_int4 (map (\<lambda>p. map_or 0 q p) (map_keys q))"
    using take q by (fastforce simp: list_all_iff in_int4_def)
  moreover have rows: "0 \<le> (if p \<in> set (map_keys q) then c - map_or 0 q p else c) \<and>
      in_int4 (if p \<in> set (map_keys q) then c - map_or 0 q p else c)" if "(p, c) \<in> set (inv_stock db)" for p c
  proof (cases "p \<in> set (map_keys q)")
    case True
    then obtain n where n: "(p, n) \<in> set q" by auto
    from take [OF n] d(1) that have "0 < n" "n \<le> c" "in_int4 c" by auto
    with True q [OF n] show ?thesis by (simp add: in_int4_def)
  next
    case False
    then show ?thesis using assms(1) that by (auto simp: pgi_inv_def list_all_iff)
  qed
  moreover have "length (filter (\<lambda>(p, c). p \<in> set (map_keys q)) (inv_stock db)) = length (map_keys q)"
    using take by (intro all_matched_rows [OF d]) fastforce
  ultimately show ?thesis
    using assms(3) rows unfolding pgi_decrementStock_def Let_def
    by (fastforce simp: list_all_iff list_ex_iff)
qed

interpretation rpgi: reliable_inventory_store postgresInventoryTransaction pgi_ledger pgi_inv uuid_ok
    pgi_can_record pgi_can_enqueue "\<lambda>t. \<not> has_nul t"
proof unfold_locales
  fix s oid
  assume "\<not> has_nul oid"
  then show "\<exists>r. lockOrder postgresInventoryTransaction oid s = Inr r"
    by (simp add: postgresInventoryTransaction_def pgi_lockOrder_def)
next
  fix s ps
  assume "list_all (\<lambda>t. \<not> has_nul t) ps"
  then show "\<exists>m. lockStock postgresInventoryTransaction ps s = Inr m"
    by (simp add: postgresInventoryTransaction_def pgi_lockStock_def list_all_iff list_ex_iff)
next
  fix s q
  assume "pgi_inv s" "quantities_ok q" "list_all (\<lambda>t. \<not> has_nul t) (map_keys q)" "can_take q (pgi_ledger s)"
  then show "\<exists>r. decrementStock postgresInventoryTransaction q s = Inr r"
    using pgi_decrement_returns by (simp add: postgresInventoryTransaction_def)
next
  fix q s u s'
  assume "decrementStock postgresInventoryTransaction q s = Inr (u, s')"
  then have "inv_reservations s' = inv_reservations s" "inv_outbox s' = inv_outbox s"
    by (auto simp: postgresInventoryTransaction_def pgi_decrementStock_def Let_def split: if_splits)
  then have "pgi_can_record s' r = pgi_can_record s r" "pgi_can_enqueue s' e = pgi_can_enqueue s e" for r e
    unfolding pgi_can_record_def pgi_can_enqueue_def by (simp_all only:)
  then show "pgi_can_record s' = pgi_can_record s \<and> pgi_can_enqueue s' = pgi_can_enqueue s" by blast
next
  fix s and rec :: ReservationRecord
  assume a: "pgi_can_record s rec" "reservation_of (pgi_ledger s) (rr_orderId rec) = None"
  then have "rr_orderId rec \<notin> set (map rv_orderId (inv_reservations s))"
    by (auto simp: pgi_reservation_of find_None_iff')
  with a(1) show "\<exists>r. recordReservation postgresInventoryTransaction rec s = Inr r"
    by (auto simp: postgresInventoryTransaction_def pgi_recordReservation_def pgi_can_record_def uuid_ok_def Let_def
        simp del: json_wire.simps split: option.splits)
next
  fix u s s' and rec :: ReservationRecord
  assume "recordReservation postgresInventoryTransaction rec s = Inr (u, s')"
  then have "inv_outbox s' = inv_outbox s"
    by (auto simp: postgresInventoryTransaction_def pgi_recordReservation_def Let_def split: if_splits option.splits)
  then show "pgi_can_enqueue s' = pgi_can_enqueue s"
    by (simp add: fun_eq_iff pgi_can_enqueue_def)
next
  fix s e
  assume "pgi_can_enqueue s e"
  then show "\<exists>r. enqueueEvent postgresInventoryTransaction e s = Inr r"
    by (auto simp: postgresInventoryTransaction_def pgi_enqueueEvent_def pgi_can_enqueue_def outbox_insert_def
        uuid_ok_def split: option.splits)
qed

section \<open>The service on PostgreSQL\<close>

definition pgi_reserve ::
    "tx_env \<Rightarrow> (nat \<Rightarrow> string) \<Rightarrow> string \<Rightarrow> PaymentAuthorizedEvent \<Rightarrow> InventoryDb
      \<Rightarrow> (js_error + ReservationOutcome) \<times> InventoryDb" where
  "pgi_reserve env = reserveForPayment (pgi_inTransaction env) postgresInventoryTransaction"

text \<open>
  C4: on PostgreSQL the decision and its event are one atomic step that implements the same
  specification. Whatever fails (the pool, BEGIN, any statement, a constraint, COMMIT,
  ROLLBACK), after \<open>reserveForPayment\<close> the database either is unchanged or holds exactly the
  abstract decision, the stock change, the record and the outbox payload together; and if the
  call returns, it returns that decision.
\<close>

theorem postgres_reservation_atomic:
  assumes "pgi_inv db" "list_all valid_item (pa_items (event_data ev))" "uuid_ok (gen 0)" "uuid_ok (gen 1)"
    "exact_quantities (pa_items (event_data ev))"
  shows "pgi_inv (snd (pgi_reserve env gen now ev db)) \<and>
    (case pgi_reserve env gen now ev db of
       (Inr out, db') \<Rightarrow> (out, pgi_ledger db') = reserve_spec (wanted (pa_items (event_data ev))) gen now ev (pgi_ledger db)
     | (Inl e, db') \<Rightarrow> db' = db
         \<or> pgi_ledger db' = snd (reserve_spec (wanted (pa_items (event_data ev))) gen now ev (pgi_ledger db)))"
proof -
  let ?w = "reservation_work postgresInventoryTransaction gen now ev"
  let ?r = "withTransaction env ?w db"
  have run: "pgi_reserve env gen now ev db = (txo_result ?r, txo_state ?r)"
    by (simp add: pgi_reserve_def reserveForPayment_def pgi_inTransaction_def Let_def)
  have good: "pgi_inv db' \<and> (out, pgi_ledger db') = reserve_spec (wanted (pa_items (event_data ev))) gen now ev (pgi_ledger db)"
    if "?w db = Inr (out, db')" for out db'
    using pgi.reservation_work_refines [OF assms(1-4) that] aggregate_wanted [OF assms(5)] by simp
  have result: "case txo_result ?r of
      Inr x \<Rightarrow> ?w db = Inr (x, txo_state ?r)
    | Inl e \<Rightarrow> txo_state ?r = db \<or> (\<exists>x. ?w db = Inr (x, txo_state ?r))"
    by (auto simp: withTransaction_def rolled_back_def split: option.split sum.split prod.split db_fault.split)
  show ?thesis
  proof (cases "txo_result ?r")
    case (Inr out)
    with result good show ?thesis by (simp add: run)
  next
    case (Inl e)
    with result consider "txo_state ?r = db" | x where "?w db = Inr (x, txo_state ?r)" by auto
    then show ?thesis
    proof cases
      case 1
      with assms(1) Inl show ?thesis by (simp add: run)
    next
      case (2 x)
      from good [OF 2] have "pgi_inv (txo_state ?r)"
        "pgi_ledger (txo_state ?r) = snd (reserve_spec (wanted (pa_items (event_data ev))) gen now ev (pgi_ledger db))"
        by (auto dest: arg_cong [where f = snd])
      with Inl show ?thesis by (simp add: run)
    qed
  qed
qed

definition sample_inventory_db :: InventoryDb where
  "sample_inventory_db = \<lparr>inv_stock = [(''A'', 5), (''B'', 5)], inv_reservations = [],
     inv_outbox = \<lparr>ob_rows = [], ob_next = 1, ob_clock = 0\<rparr>\<rparr>"

definition sample_uuids :: "nat \<Rightarrow> string" where
  "sample_uuids n = (if n = 0 then ''00000000-0000-5000-8000-000000000000''
     else ''00000000-0000-5000-8000-000000000001'')"

theorem postgres_reservation_atomic_witness:
  "pgi_inv (snd (pgi_reserve (healthy \<lparr>env_commit := FailAfter (JsError ''reset'')\<rparr>) sample_uuids ''t''
     (sample_payment ''o-1'' 3) sample_inventory_db))"
proof -
  have "pgi_inv sample_inventory_db" by code_simp
  moreover have "list_all valid_item (pa_items (event_data (sample_payment ''o-1'' 3)))" by code_simp
  moreover have "uuid_ok (sample_uuids 0)" by code_simp
  moreover have "uuid_ok (sample_uuids 1)" by code_simp
  moreover have "exact_quantities (pa_items (event_data (sample_payment ''o-1'' 3)))" by code_simp
  ultimately show ?thesis by (rule postgres_reservation_atomic [THEN conjunct1])
qed

text \<open>
  C5: at-least-once delivery is enough. If the database is up and the texts and generated ids
  can be stored, handling a PaymentAuthorized on PostgreSQL always returns; so a delivery that
  failed, or whose COMMIT acknowledgement was lost, can simply be repeated: the repetition
  returns, and after it the order has an outcome, which every further repetition returns
  unchanged.
\<close>

theorem postgres_redelivery_completes:
  assumes "pgi_inv db" "list_all valid_item (pa_items (event_data ev))" "uuid_ok (gen 0)" "uuid_ok (gen 1)"
    "storable pgi_can_record pgi_can_enqueue gen now ev
      (ledger_missing (aggregateQuantities (pa_items (event_data ev))) (pgi_ledger db)) db" "\<not> has_nul (pa_orderId (event_data ev))"
    "list_all (\<lambda>i. \<not> has_nul (productId i)) (pa_items (event_data ev))"
  shows "\<exists>out db' r. pgi_reserve healthy gen now ev db = (Inr out, db')
    \<and> reservation_of (pgi_ledger db') (pa_orderId (event_data ev)) = Some r
    \<and> pgi_reserve healthy gen' now' ev db' = (Inr (Duplicate r), db')"
proof -
  let ?o = "pa_orderId (event_data ev)"
  have texts: "list_all (\<lambda>t. \<not> has_nul t) (map productId (pa_items (event_data ev)))"
    using assms(7) by (simp add: list_all_iff)
  from rpgi.reservation_work_returns [OF assms(1-6) texts] obtain out db' where
    w: "reservation_work postgresInventoryTransaction gen now ev db = Inr (out, db')" by blast
  from pgi.reservation_work_refines [OF assms(1-4) w] obtain r where
    r: "reservation_of (pgi_ledger db') ?o = Some r"
    by (auto simp: reserve_spec_def Let_def reservation_of_append split: option.splits if_splits)
  then have "lockOrder postgresInventoryTransaction ?o db' = Inr (Some r, db')"
    using assms(6) by (simp add: postgresInventoryTransaction_def pgi_lockOrder_def pgi_reservation_of)
  then have "reservation_work postgresInventoryTransaction gen' now' ev db' = Inr (Duplicate r, db')"
    by (simp add: reservation_work_def bindE_def)
  with w r show ?thesis
    by (simp add: pgi_reserve_def reserveForPayment_def pgi_inTransaction_def withTransaction_healthy)
qed

theorem postgres_redelivery_completes_witness:
  "\<exists>out db' r. pgi_reserve healthy sample_uuids ''t'' (sample_payment ''o-1'' 3) sample_inventory_db = (Inr out, db')
    \<and> reservation_of (pgi_ledger db') ''o-1'' = Some r
    \<and> pgi_reserve healthy sample_ids ''u'' (sample_payment ''o-1'' 3) db' = (Inr (Duplicate r), db')"
proof -
  let ?ev = "sample_payment ''o-1'' 3"
  have a: "pgi_inv sample_inventory_db" "list_all valid_item (pa_items (event_data ?ev))"
    "uuid_ok (sample_uuids 0)" "uuid_ok (sample_uuids 1)" by code_simp+
  have "storable pgi_can_record pgi_can_enqueue sample_uuids ''t'' ?ev
      (ledger_missing (aggregateQuantities (pa_items (event_data ?ev))) (pgi_ledger sample_inventory_db)) sample_inventory_db"
    by code_simp
  moreover have "\<not> has_nul (pa_orderId (event_data ?ev))"
    "list_all (\<lambda>i. \<not> has_nul (productId i)) (pa_items (event_data ?ev))" by code_simp+
  moreover have "pa_orderId (event_data ?ev) = ''o-1''" by code_simp
  ultimately show ?thesis using postgres_redelivery_completes [OF a, of "''t''" sample_ids "''u''"] by simp
qed

end
