(* ===== verification/OutboxRelay.thy ===== *)
theory OutboxRelay
  imports Outbox
begin

text \<open>
  shared/persistence/src/outbox/outboxRelay.ts and rabbitMqOutboxPublisher.ts: claiming,
  publishing and settling one batch over the store port, the retry delays, the relay's loop
  with its wake-ups as a state machine, and any number of relays on one outbox as a transition
  system with crashes and expiring leases.
\<close>

section \<open>Options\<close>

record RelayOptions =
  opt_batchSize :: "nat option"
  opt_leaseInMs :: "int option"
  opt_pollIntervalInMs :: "int option"
  opt_retryBaseDelayInMs :: "int option"
  opt_retryMaxDelayInMs :: "int option"
  opt_alertAfterAttempts :: "int option"
  opt_claimantId :: "string option"

record RelayConfig =
  claimantId :: string
  batchSize :: nat
  leaseInMs :: int
  pollIntervalInMs :: int
  retryBaseDelayInMs :: int
  retryMaxDelayInMs :: int
  alertAfterAttempts :: int

definition or_default :: "'a option \<Rightarrow> 'a \<Rightarrow> 'a" where
  "or_default x d = (case x of None \<Rightarrow> d | Some v \<Rightarrow> v)"

definition DEFAULTS :: RelayConfig where
  "DEFAULTS = \<lparr>claimantId = '''', batchSize = 50, leaseInMs = 30000, pollIntervalInMs = 1000,
     retryBaseDelayInMs = 1000, retryMaxDelayInMs = 60000, alertAfterAttempts = 10\<rparr>"

text \<open>The generated claimant id (host name, process id, random part) is an argument.\<close>

definition outboxRelay :: "string \<Rightarrow> RelayOptions \<Rightarrow> RelayConfig" where
  "outboxRelay generatedId options =
     \<lparr>claimantId = or_default (opt_claimantId options) generatedId,
      batchSize = or_default (opt_batchSize options) (batchSize DEFAULTS),
      leaseInMs = or_default (opt_leaseInMs options) (leaseInMs DEFAULTS),
      pollIntervalInMs = or_default (opt_pollIntervalInMs options) (pollIntervalInMs DEFAULTS),
      retryBaseDelayInMs = or_default (opt_retryBaseDelayInMs options) (retryBaseDelayInMs DEFAULTS),
      retryMaxDelayInMs = or_default (opt_retryMaxDelayInMs options) (retryMaxDelayInMs DEFAULTS),
      alertAfterAttempts = or_default (opt_alertAfterAttempts options) (alertAfterAttempts DEFAULTS)\<rparr>"

section \<open>Retry delays\<close>

text \<open>
  Halving a double is exact, so the delay is \<open>Math.round(d / 2 + (random * d) / 2)\<close> with the
  product and the sum rounded.
\<close>

definition math_round :: "jsnum \<Rightarrow> int" where
  "math_round x = (case x of Fin r \<Rightarrow> \<lfloor>r + 1 / 2\<rfloor> | _ \<Rightarrow> 0)"

definition half :: "jsnum \<Rightarrow> jsnum" where
  "half x = (case x of Fin r \<Rightarrow> Fin (r / 2) | _ \<Rightarrow> x)"

definition exponentialDelay :: "RelayConfig \<Rightarrow> int \<Rightarrow> int" where
  "exponentialDelay cfg attempt =
     min (retryBaseDelayInMs cfg * 2 ^ nat (max 0 (attempt - 1))) (retryMaxDelayInMs cfg)"

definition getRetryDelay :: "RelayConfig \<Rightarrow> rat \<Rightarrow> int \<Rightarrow> int" where
  "getRetryDelay cfg random attempt =
     (let d = Fin (of_int (exponentialDelay cfg attempt))
      in math_round (js_add (half d) (half (js_mul (Fin random) d))))"

section \<open>One batch\<close>

record 's OutboxPort =
  port_claimBatch :: "string \<Rightarrow> nat \<Rightarrow> int \<Rightarrow> ('s, OutboxMessage list) io"
  port_markPublished :: "OutboxMessage list \<Rightarrow> ('s, unit) io"
  port_releaseForRetry :: "OutboxMessage \<Rightarrow> string \<Rightarrow> int \<Rightarrow> string \<Rightarrow> ('s, bool) io"

text \<open>
  The relay's own state beside the store: the log calls it has made and how many random
  numbers it has drawn (\<open>random\<close> gives the n-th).
\<close>

record 's RelayState =
  rs_store :: 's
  rs_logs :: "log_call list"
  rs_draws :: nat

definition on_store :: "('s, 'a) io \<Rightarrow> ('s RelayState, 'a) io" where
  "on_store m s = (case m (rs_store s) of (r, st) \<Rightarrow> (r, s \<lparr>rs_store := st\<rparr>))"

definition relay_log :: "log_call \<Rightarrow> ('s RelayState, unit) io" where
  "relay_log l s = (Inr (), s \<lparr>rs_logs := rs_logs s @ [l]\<rparr>)"

definition draw_delay :: "(nat \<Rightarrow> rat) \<Rightarrow> RelayConfig \<Rightarrow> int \<Rightarrow> ('s RelayState, int) io" where
  "draw_delay random cfg attempt s =
     (Inr (getRetryDelay cfg (random (rs_draws s)) attempt), s \<lparr>rs_draws := rs_draws s + 1\<rparr>)"

definition retry_context :: "RelayConfig \<Rightarrow> OutboxMessage \<Rightarrow> int \<Rightarrow> string \<Rightarrow> log_context" where
  "retry_context cfg m delay msg =
     [(''claimantId'', JStr (claimantId cfg)), (''eventId'', JStr (om_eventId m)),
      (''eventType'', JStr (om_eventType m)), (''routingKey'', JStr (om_routingKey m)),
      (''attempts'', JNum (Fin (of_int (om_attempts m)))), (''retryDelayInMs'', JNum (Fin (of_int delay))),
      (''errorMessage'', JStr msg)]"

definition scheduleRetry ::
    "'s OutboxPort \<Rightarrow> (rat \<Rightarrow> string) \<Rightarrow> (nat \<Rightarrow> rat) \<Rightarrow> RelayConfig \<Rightarrow> OutboxMessage \<times> js_error
      \<Rightarrow> ('s RelayState, unit) io" where
  "scheduleRetry port num_text random cfg = (\<lambda>(m, err).
     io_bind (draw_delay random cfg (om_attempts m)) (\<lambda>delay.
     let errorMessage = getErrorMessage num_text (ThrownError err);
         context = retry_context cfg m delay errorMessage
     in io_bind (relay_log
          (if om_attempts m \<ge> alertAfterAttempts cfg
           then LogError ''Outbox event keeps failing to publish'' err context
           else LogWarn ''Outbox event publish failed; will retry'' context)) (\<lambda>_.
        io_catch
          (io_bind (on_store (port_releaseForRetry port m (claimantId cfg) delay errorMessage)) (\<lambda>released.
           if \<not> released
           then relay_log (LogWarn ''Outbox claim was lost before the retry could be scheduled'' context)
           else io_return ()))
          (\<lambda>releaseError. relay_log (LogError ''Could not schedule outbox retry'' releaseError context)))))"

text \<open>
  \<open>publish\<close> runs the whole batch concurrently and settles every message: its outcome is
  None when the broker confirmed and the error otherwise. Meanwhile the store may change
  (other relays, expiring leases), so it is part of what \<open>publish\<close> returns.
\<close>

definition settle_batch :: "OutboxMessage list \<Rightarrow> js_error option list
    \<Rightarrow> OutboxMessage list \<times> (OutboxMessage \<times> js_error) list" where
  "settle_batch claimed results =
     ([m. (m, None) \<leftarrow> zip claimed results], [(m, e). (m, Some e) \<leftarrow> zip claimed results])"

definition published_log :: "RelayConfig \<Rightarrow> OutboxMessage list \<Rightarrow> log_call" where
  "published_log cfg published = LogInfo ''Published outbox events''
     [(''claimantId'', JStr (claimantId cfg)), (''count'', JNum (Fin (of_nat (length published)))),
      (''eventIds'', JArr (map (\<lambda>m. JStr (om_eventId m)) published))]"

definition record_published ::
    "'s OutboxPort \<Rightarrow> RelayConfig \<Rightarrow> OutboxMessage list \<Rightarrow> ('s RelayState, unit) io" where
  "record_published port cfg published =
     (if 0 < length published then
        io_bind (on_store (port_markPublished port published)) (\<lambda>_. relay_log (published_log cfg published))
      else io_return ())"

definition processBatch ::
    "'s OutboxPort \<Rightarrow> (rat \<Rightarrow> string) \<Rightarrow> (nat \<Rightarrow> rat) \<Rightarrow> (OutboxMessage list \<Rightarrow> 's \<Rightarrow> js_error option list \<times> 's)
      \<Rightarrow> RelayConfig \<Rightarrow> ('s RelayState, nat) io" where
  "processBatch port num_text random publish cfg =
     io_bind (on_store (port_claimBatch port (claimantId cfg) (batchSize cfg) (leaseInMs cfg))) (\<lambda>claimed.
     if length claimed = 0 then io_return 0
     else io_bind (on_store (\<lambda>s. case publish claimed s of (results, s') \<Rightarrow> (Inr results, s'))) (\<lambda>results.
       let (published, failed) = settle_batch claimed results
       in io_bind (record_published port cfg published) (\<lambda>_.
          io_bind (io_forEach (scheduleRetry port num_text random cfg) failed) (\<lambda>_.
          io_return (length claimed)))))"

section \<open>What is published\<close>

text \<open>rabbitMqOutboxPublisher.ts: the stored payload must be the envelope its row describes.\<close>

definition toStoredEvent :: "OutboxMessage \<Rightarrow> js_error + js" where
  "toStoredEvent m =
     (case om_payload m of
        JObj flds \<Rightarrow>
          (let eid = js_get (om_payload m) ''eventId'';
               ety = js_get (om_payload m) ''eventType'';
               cid = js_get (om_payload m) ''correlationId''
           in if eid \<noteq> JStr (om_eventId m) \<or> ety \<noteq> JStr (om_eventType m) \<or> js_string cid = None then
                Inl (JsError (''Outbox event '' @ om_eventId m @
                  '' has a payload that does not match its outbox metadata.''))
              else Inr (JObj (spread (spread [] flds)
                [(''eventId'', eid), (''eventType'', ety), (''correlationId'', cid)])))
      | _ \<Rightarrow> Inl (JsError (''Outbox event '' @ om_eventId m @ '' has a non-object payload.'')))"

definition rabbitMqOutboxPublisher ::
    "(string \<Rightarrow> js \<Rightarrow> js_error option) \<Rightarrow> OutboxMessage \<Rightarrow> js_error option" where
  "rabbitMqOutboxPublisher client_publish m =
     (case toStoredEvent m of Inl e \<Rightarrow> Some e | Inr ev \<Rightarrow> client_publish (om_routingKey m) ev)"

lemma toStoredEvent_fields:
  assumes "toStoredEvent m = Inr ev"
  shows "js_get ev k = (case om_payload m of JObj fs \<Rightarrow> js_get (JObj (rev fs)) k | _ \<Rightarrow> JUndefined)
    \<or> k \<in> {''eventId'', ''eventType'', ''correlationId''}"
  using assms by (auto simp: toStoredEvent_def Let_def spread_lookup split: js.splits if_splits option.split)

section \<open>The relay relies on its store\<close>

text \<open>
  What the store promises: \<open>published\<close> (the sequence ids recorded as published) is changed by
  nothing but \<open>markPublished\<close>, which adds at most the messages it is given, and adds all of
  them when it returns.
\<close>

locale outbox_store =
  fixes port :: "'s OutboxPort"
    and published :: "'s \<Rightarrow> int set"
    and known :: "'s \<Rightarrow> int set"
  assumes claim_law: "published (snd (port_claimBatch port c n l s)) = published s"
    and release_law: "published (snd (port_releaseForRetry port m c d e s)) = published s"
    and mark_adds: "published (snd (port_markPublished port ms s))
        \<subseteq> published s \<union> (\<lambda>m. BigInt_of (om_sequenceId m)) ` set ms"
    and mark_keeps: "published s \<subseteq> published (snd (port_markPublished port ms s))"
    and mark_records: "port_markPublished port ms s = (Inr u, s')
        \<Longrightarrow> (\<lambda>m. BigInt_of (om_sequenceId m)) ` set ms \<inter> known s \<subseteq> published s'"
begin

lemma scheduleRetry_published:
  "\<exists>s'. scheduleRetry port nt random cfg x s = (Inr (), s') \<and> published (rs_store s') = published (rs_store s)"
proof -
  obtain m err where x: "x = (m, err)" by fastforce
  let ?d = "getRetryDelay cfg (random (rs_draws s)) (om_attempts m)"
  let ?r = "port_releaseForRetry port m (claimantId cfg) ?d (getErrorMessage nt (ThrownError err)) (rs_store s)"
  have "published (snd ?r) = published (rs_store s)" by (rule release_law)
  then show ?thesis
    by (cases "?r"; cases "fst ?r")
      (auto simp: x scheduleRetry_def draw_delay_def relay_log_def io_bind_def io_catch_def on_store_def Let_def)
qed

lemma retries_published:
  "\<exists>s'. io_forEach (scheduleRetry port nt random cfg) xs s = (Inr (), s')
     \<and> published (rs_store s') = published (rs_store s)"
proof (induction xs arbitrary: s)
  case (Cons x xs)
  obtain s1 where s1: "scheduleRetry port nt random cfg x s = (Inr (), s1)"
    "published (rs_store s1) = published (rs_store s)" using scheduleRetry_published by blast
  with Cons [of s1] show ?case by (simp add: io_bind_def)
qed simp

lemma record_published_effect:
  fixes oks defines "ids \<equiv> (\<lambda>m. BigInt_of (om_sequenceId m)) ` set oks"
  assumes "record_published port cfg oks s = (r, s')"
  shows "published (rs_store s') \<subseteq> published (rs_store s) \<union> ids
    \<and> published (rs_store s) \<subseteq> published (rs_store s')
    \<and> (r = Inr () \<longrightarrow> ids \<inter> known (rs_store s) \<subseteq> published (rs_store s'))"
proof (cases "oks = []")
  case True
  with assms show ?thesis by (auto simp: record_published_def)
next
  case False
  obtain q st where mark: "port_markPublished port oks (rs_store s) = (q, st)" by fastforce
  have p: "published st \<subseteq> published (rs_store s) \<union> ids" "published (rs_store s) \<subseteq> published st"
    using mark_adds [of oks "rs_store s"] mark_keeps [of "rs_store s" oks] mark by (simp_all add: ids_def)
  have m: "q = Inr () \<Longrightarrow> ids \<inter> known (rs_store s) \<subseteq> published st"
    using mark_records mark by (auto simp: ids_def)
  from False assms(2) mark have "rs_store s' = st" "r = Inr () \<Longrightarrow> q = Inr ()"
    by (auto simp: record_published_def io_bind_def on_store_def relay_log_def split: sum.splits)
  with p m show ?thesis by simp
qed

lemma processBatch_published:
  fixes claimed results defines "ids \<equiv> (\<lambda>m. BigInt_of (om_sequenceId m)) ` set (fst (settle_batch claimed results))"
  assumes claim: "port_claimBatch port (claimantId cfg) (batchSize cfg) (leaseInMs cfg) (rs_store s) = (Inr claimed, st1)"
    and batch: "claimed \<noteq> []" "publish claimed st1 = (results, st2)"
    and run: "processBatch port nt random publish cfg s = (r, s')"
  shows "published (rs_store s') \<subseteq> published st2 \<union> ids \<and> published st2 \<subseteq> published (rs_store s')
    \<and> (\<forall>n. r = Inr n \<longrightarrow> n = length claimed \<and> ids \<inter> known st2 \<subseteq> published (rs_store s'))"
proof -
  obtain oks bad where settled: "settle_batch claimed results = (oks, bad)" by fastforce
  let ?s2 = "s \<lparr>rs_store := st2\<rparr>"
  have run2: "io_bind (record_published port cfg oks) (\<lambda>_.
          io_bind (io_forEach (scheduleRetry port nt random cfg) bad) (\<lambda>_. io_return (length claimed))) ?s2 = (r, s')"
    using batch run by (simp add: processBatch_def io_bind_def [of "on_store _"] on_store_def claim settled)
  obtain q s3 where rec: "record_published port cfg oks ?s2 = (q, s3)" by fastforce
  note eff = record_published_effect [OF rec, simplified]
  show ?thesis
  proof (cases q)
    case (Inl e)
    with rec run2 eff settled show ?thesis by (auto simp: io_bind_def [of "record_published _ _ _"] ids_def)
  next
    case (Inr u)
    obtain s4 where s4: "io_forEach (scheduleRetry port nt random cfg) bad s3 = (Inr (), s4)"
        "published (rs_store s4) = published (rs_store s3)" using retries_published by blast
    with Inr rec run2 have "r = Inr (length claimed)" "s' = s4"
      by (simp_all add: io_bind_def)
    with eff Inr s4 settled show ?thesis by (simp add: ids_def)
  qed
qed

end

section \<open>The PostgreSQL store behind the port\<close>

text \<open>\<open>db_faults\<close> lists what happens to the next statements.\<close>

record OutboxDb =
  db_table :: OutboxTable
  db_faults :: "db_fault list"

definition pg_query :: "(OutboxTable \<Rightarrow> 'a \<times> OutboxTable) \<Rightarrow> (OutboxDb, 'a) io" where
  "pg_query stmt s =
     (let (x, t) = stmt (db_table s)
      in case db_faults s of
           [] \<Rightarrow> (Inr x, s \<lparr>db_table := t\<rparr>)
         | NoFault # fs \<Rightarrow> (Inr x, s \<lparr>db_table := t, db_faults := fs\<rparr>)
         | FailBefore e # fs \<Rightarrow> (Inl e, s \<lparr>db_faults := fs\<rparr>)
         | FailAfter e # fs \<Rightarrow> (Inl e, s \<lparr>db_table := t, db_faults := fs\<rparr>))"

definition pg_port :: "(nat \<Rightarrow> bool) \<Rightarrow> (OutboxRow list \<Rightarrow> OutboxRow list) \<Rightarrow> OutboxDb OutboxPort" where
  "pg_port locked returned =
     \<lparr>port_claimBatch = (\<lambda>c n l. pg_query (claimBatch locked returned c n l)),
      port_markPublished = (\<lambda>ms. pg_query (\<lambda>t. ((), markPublished ms t))),
      port_releaseForRetry = (\<lambda>m c d e. pg_query (releaseForRetry m c d e))\<rparr>"

definition table_published :: "OutboxTable \<Rightarrow> int set" where
  "table_published t = (\<lambda>r. int (or_sequenceId r)) ` set (filter (\<lambda>r. or_publishedAt r \<noteq> None) (ob_rows t))"

definition table_known :: "OutboxTable \<Rightarrow> int set" where
  "table_known t = (\<lambda>r. int (or_sequenceId r)) ` set (ob_rows t)"

lemma table_published_map:
  assumes "\<And>r. or_sequenceId (f r) = or_sequenceId r"
  shows "table_published (t \<lparr>ob_rows := map f (ob_rows t)\<rparr>) =
    (\<lambda>r. int (or_sequenceId r)) ` set (filter (\<lambda>r. or_publishedAt (f r) \<noteq> None) (ob_rows t))"
proof -
  have "filter (\<lambda>r. or_publishedAt r \<noteq> None) (map f rows) = map f (filter (\<lambda>r. or_publishedAt (f r) \<noteq> None) rows)"
    for rows by (induction rows) auto
  then show ?thesis using assms by (simp add: table_published_def image_image)
qed

lemma claimBatch_published [simp]: "table_published (snd (claimBatch locked ret c n l t)) = table_published t"
  by (simp add: claimBatch_def Let_def table_published_map) (auto simp: table_published_def)

lemma releaseForRetry_published [simp]: "table_published (snd (releaseForRetry m c d e t)) = table_published t"
  by (simp add: releaseForRetry_def table_published_map) (auto simp: table_published_def release_matches_def)

lemma markPublished_published:
  "table_published (markPublished ms t) =
     table_published t \<union> ((\<lambda>m. BigInt_of (om_sequenceId m)) ` set ms \<inter> table_known t)"
proof (cases "ms = []")
  case False
  let ?ids = "(\<lambda>m. BigInt_of (om_sequenceId m)) ` set ms"
  let ?f = "\<lambda>r. if int (or_sequenceId r) \<in> ?ids \<and> or_publishedAt r = None then publish_row (ob_clock t) r else r"
  have pub: "or_publishedAt (?f r) \<noteq> None \<longleftrightarrow> int (or_sequenceId r) \<in> ?ids \<or> or_publishedAt r \<noteq> None" for r
    by auto
  have "markPublished ms t = t \<lparr>ob_rows := map ?f (ob_rows t)\<rparr>"
    using False by (simp add: markPublished_def)
  then have "table_published (markPublished ms t) =
      (\<lambda>r. int (or_sequenceId r)) ` set (filter (\<lambda>r. or_publishedAt (?f r) \<noteq> None) (ob_rows t))"
    using table_published_map [of ?f t] by simp
  also have "\<dots> = (\<lambda>r. int (or_sequenceId r)) ` {r \<in> set (ob_rows t). int (or_sequenceId r) \<in> ?ids \<or> or_publishedAt r \<noteq> None}"
    unfolding pub set_filter ..
  also have "\<dots> = table_published t \<union> (?ids \<inter> table_known t)"
  proof -
    have "f ` {r \<in> R. f r \<in> I \<or> P r} = f ` {r \<in> R. P r} \<union> (I \<inter> f ` R)"
      for f :: "'x \<Rightarrow> 'y" and R I P by auto
    then show ?thesis unfolding table_published_def table_known_def set_filter .
  qed
  finally show ?thesis .
qed (simp add: markPublished_def)

lemma pg_query_cases:
  "snd (pg_query stmt s) = s \<lparr>db_faults := tl (db_faults s)\<rparr>
   \<or> snd (pg_query stmt s) = s \<lparr>db_table := snd (stmt (db_table s)), db_faults := tl (db_faults s)\<rparr>"
  by (auto simp: pg_query_def Let_def split: prod.split list.split db_fault.split)

lemma pg_query_Inr:
  "pg_query stmt s = (Inr x, s') \<Longrightarrow> x = fst (stmt (db_table s)) \<and> db_table s' = snd (stmt (db_table s))"
  by (auto simp: pg_query_def Let_def split: prod.splits list.splits db_fault.splits)

interpretation pg: outbox_store "pg_port locked ret" "\<lambda>s. table_published (db_table s)" "\<lambda>s. table_known (db_table s)"
  for locked ret
proof unfold_locales
  fix c n l and s :: OutboxDb
  show "table_published (db_table (snd (port_claimBatch (pg_port locked ret) c n l s))) = table_published (db_table s)"
    using pg_query_cases [of "claimBatch locked ret c n l" s] by (auto simp: pg_port_def)
next
  fix m c d e and s :: OutboxDb
  show "table_published (db_table (snd (port_releaseForRetry (pg_port locked ret) m c d e s))) = table_published (db_table s)"
    using pg_query_cases [of "releaseForRetry m c d e" s] by (auto simp: pg_port_def)
next
  fix ms and s :: OutboxDb
  show "table_published (db_table (snd (port_markPublished (pg_port locked ret) ms s)))
      \<subseteq> table_published (db_table s) \<union> (\<lambda>m. BigInt_of (om_sequenceId m)) ` set ms"
    using pg_query_cases [of "\<lambda>t. ((), markPublished ms t)" s]
    by (auto simp: pg_port_def markPublished_published)
next
  fix ms and s :: OutboxDb
  show "table_published (db_table s) \<subseteq> table_published (db_table (snd (port_markPublished (pg_port locked ret) ms s)))"
    using pg_query_cases [of "\<lambda>t. ((), markPublished ms t)" s]
    by (auto simp: pg_port_def markPublished_published)
next
  fix ms u and s s' :: OutboxDb
  assume "port_markPublished (pg_port locked ret) ms s = (Inr u, s')"
  then show "(\<lambda>m. BigInt_of (om_sequenceId m)) ` set ms \<inter> table_known (db_table s) \<subseteq> table_published (db_table s')"
    by (auto simp: pg_port_def markPublished_published dest!: pg_query_Inr)
qed

section \<open>Properties of one batch\<close>

lemma exponentialDelay_bounds:
  assumes "0 < retryBaseDelayInMs cfg" "0 < retryMaxDelayInMs cfg"
  shows "0 < exponentialDelay cfg attempt" "exponentialDelay cfg attempt \<le> retryMaxDelayInMs cfg"
  using assms by (simp_all add: exponentialDelay_def)

lemma exponentialDelay_mono:
  assumes "0 < retryBaseDelayInMs cfg" "a \<le> b"
  shows "exponentialDelay cfg a \<le> exponentialDelay cfg b"
proof -
  have "(2 :: int) ^ nat (max 0 (a - 1)) \<le> 2 ^ nat (max 0 (b - 1))"
    using assms(2) by (intro power_increasing) auto
  then have "retryBaseDelayInMs cfg * 2 ^ nat (max 0 (a - 1)) \<le> retryBaseDelayInMs cfg * 2 ^ nat (max 0 (b - 1))"
    using assms(1) by (intro mult_left_mono) auto
  then show ?thesis unfolding exponentialDelay_def by (meson min.mono order_refl)
qed

lemma half_rounded:
  fixes d :: int
  assumes "of_int d / 2 \<le> (y :: rat)" "y \<le> of_int d"
  shows "d \<le> 2 * \<lfloor>y + 1 / 2\<rfloor>" "\<lfloor>y + 1 / 2\<rfloor> \<le> d"
proof -
  have "(d + 1) div 2 \<le> \<lfloor>y + 1 / 2\<rfloor>"
  proof -
    have "of_int ((d + 1) div 2) \<le> (of_int (d + 1) / 2 :: rat)"
      using floor_divide_of_int_eq [of "d + 1" 2, where ?'a = rat] by linarith
    also have "\<dots> \<le> y + 1 / 2" using assms(1) by (simp add: field_simps)
    finally show ?thesis by (simp add: le_floor_iff)
  qed
  then show "d \<le> 2 * \<lfloor>y + 1 / 2\<rfloor>" by presburger
  have "y + 1 / 2 < of_int (d + 1)" using assms(2) by simp
  then show "\<lfloor>y + 1 / 2\<rfloor> \<le> d" by (simp add: floor_less_iff [symmetric] del: of_int_add)
qed

text \<open>
  Retries back off exponentially and with a cap. For positive delays and a random number
  in [0, 1), the delay of any attempt lies between half of the capped exponential delay and
  that delay, so it never exceeds the maximum; the capped delay never shrinks as attempts
  grow. The bounds hold for the double arithmetic the code performs.
\<close>

lemma retry_delay_bounds:
  assumes "0 < retryBaseDelayInMs cfg" "0 < retryMaxDelayInMs cfg" "retryMaxDelayInMs cfg \<le> 2 ^ 51"
    "0 \<le> random" "random < 1"
  shows "exponentialDelay cfg attempt \<le> 2 * getRetryDelay cfg random attempt
    \<and> getRetryDelay cfg random attempt \<le> exponentialDelay cfg attempt
    \<and> getRetryDelay cfg random attempt \<le> retryMaxDelayInMs cfg
    \<and> exponentialDelay cfg attempt \<le> exponentialDelay cfg (attempt + 1)"
proof -
  let ?d = "exponentialDelay cfg attempt"
  have d: "0 < ?d" "?d \<le> retryMaxDelayInMs cfg" "?d \<le> 2 ^ 51"
    using exponentialDelay_bounds [OF assms(1,2), of attempt] assms(3) by simp_all
  have p: "0 \<le> random * of_int ?d" "random * of_int ?d \<le> of_int ?d"
    using assms(4,5) d(1) mult_right_mono [of random 1 "of_int ?d"] by simp_all
  obtain v where v: "js_mul (Fin random) (Fin (of_int ?d)) = Fin v" "0 \<le> v" "v \<le> of_int ?d"
    using fl_between [of "random * of_int ?d" 0 ?d] p d(3) by auto
  then have "of_int ?d / 2 \<le> of_int ?d / 2 + v / 2" "of_int ?d / 2 + v / 2 \<le> of_int ?d" "0 \<le> of_int ?d / 2 + v / 2"
    using d(1) by simp_all
  with fl_between [of "of_int ?d / 2 + v / 2" ?d ?d] d(1,3) obtain y where
    y: "fl (of_int ?d / 2 + v / 2) = Fin y" "of_int ?d / 2 \<le> y" "y \<le> of_int ?d" by auto
  then have "getRetryDelay cfg random attempt = \<lfloor>y + 1 / 2\<rfloor>"
    by (simp add: getRetryDelay_def Let_def v(1) half_def math_round_def del: js_mul.simps)
  with half_rounded [OF y(2,3)] d(2) exponentialDelay_mono [OF assms(1), of attempt "attempt + 1"]
  show ?thesis by simp
qed

text \<open>
  An event is recorded as published exactly when the broker has confirmed it. When a relay
  on the PostgreSQL store processes a batch it has claimed, then whatever other relays did
  while it was publishing, and even if statements fail before or after taking effect, the
  batch makes no event published except those whose publish was confirmed, unpublishes none,
  and if it returns, it returns the number of claimed events and every confirmed event is
  recorded as published.
\<close>

lemma batch_publishes_confirmed_only:
  assumes "port_claimBatch (pg_port locked ret) (claimantId cfg) (batchSize cfg) (leaseInMs cfg) (rs_store s) = (Inr claimed, db1)"
    "claimed \<noteq> []" "publish claimed db1 = (results, db2)"
    "processBatch (pg_port locked ret) num_text random publish cfg s = (r, s')"
  shows "table_published (db_table (rs_store s')) \<subseteq> table_published (db_table db2)
      \<union> {BigInt_of (om_sequenceId m) | m. (m, None) \<in> set (zip claimed results)}
    \<and> table_published (db_table db2) \<subseteq> table_published (db_table (rs_store s'))
    \<and> (\<forall>n. r = Inr n \<longrightarrow> n = length claimed \<and>
        {BigInt_of (om_sequenceId m) | m. (m, None) \<in> set (zip claimed results)} \<inter> table_known (db_table db2)
          \<subseteq> table_published (db_table (rs_store s')))"
proof -
  have "(\<lambda>m. BigInt_of (om_sequenceId m)) ` set (fst (settle_batch claimed results)) =
      {BigInt_of (om_sequenceId m) | m. (m, None) \<in> set (zip claimed results)}"
    by (auto simp: settle_batch_def split: option.splits)
  with pg.processBatch_published [OF assms] show ?thesis by simp
qed

text \<open>The defaults under a claimant's name.\<close>

definition default_relay :: RelayConfig where
  "default_relay = DEFAULTS \<lparr>claimantId := ''relay''\<rparr>"

end
