(* ===== verification/RelaySystem.thy ===== *)
theory RelaySystem
  imports OutboxRelay
begin

text \<open>
  The relay in time: the loop of \<open>OutboxRelay.run\<close> with \<open>notify\<close>, \<open>waitForWork\<close> and the
  abort signal as a state machine, and any number of relays on one outbox table as a
  transition system in which relays crash, leases expire and statements interleave freely.
\<close>

section \<open>The loop of one relay\<close>

text \<open>
  Where the loop is: at the head of \<open>while\<close>, in \<open>processBatch\<close>, in \<open>waitForWork\<close> after an
  unfilled batch (a notification ends the wait) or after a failed cycle (it does not), or done.
  Between these points the code runs without an await, so nothing interleaves.
\<close>

datatype relay_pc = LoopHead | Processing | WaitingForWork | WaitingToRetry int | LoopEnd

record RelayLoop =
  lp_pc :: relay_pc
  lp_running :: bool
  lp_consecutiveFailures :: int
  lp_lastCycleCompletedAt :: "string option"
  lp_notified :: bool
  lp_aborted :: bool

datatype relay_label =
    Notify
  | Abort
  | StartCycle
  | CycleDone nat string
  | CycleFailed js_error rat
  | TimerFired
  | LeaveLoop

text \<open>\<open>waitForWork(timeout, signal, wakeOnNotify)\<close>: where the loop is after calling it.\<close>

definition waitForWork :: "relay_pc \<Rightarrow> bool \<Rightarrow> RelayLoop \<Rightarrow> relay_pc" where
  "waitForWork waiting wakeOnNotify s =
     (if lp_aborted s \<or> (wakeOnNotify \<and> lp_notified s) then LoopHead else waiting)"

definition notify_loop :: "RelayLoop \<Rightarrow> RelayLoop" where
  "notify_loop s = s \<lparr>lp_notified := True,
     lp_pc := (if lp_pc s = WaitingForWork then LoopHead else lp_pc s)\<rparr>"

definition abort_loop :: "RelayLoop \<Rightarrow> RelayLoop" where
  "abort_loop s = s \<lparr>lp_aborted := True,
     lp_pc := (case lp_pc s of WaitingForWork \<Rightarrow> LoopHead | WaitingToRetry d \<Rightarrow> LoopHead | pc \<Rightarrow> pc)\<rparr>"

definition cycle_done :: "RelayConfig \<Rightarrow> nat \<Rightarrow> string \<Rightarrow> RelayLoop \<Rightarrow> RelayLoop" where
  "cycle_done cfg claimedCount now s =
     s \<lparr>lp_consecutiveFailures := 0, lp_lastCycleCompletedAt := Some now,
        lp_pc := (if claimedCount < batchSize cfg then waitForWork WaitingForWork True s else LoopHead)\<rparr>"

definition cycle_failed :: "RelayConfig \<Rightarrow> rat \<Rightarrow> RelayLoop \<Rightarrow> RelayLoop" where
  "cycle_failed cfg random s =
     (let failures = lp_consecutiveFailures s + 1;
          delay = getRetryDelay cfg random failures
      in s \<lparr>lp_consecutiveFailures := failures, lp_pc := waitForWork (WaitingToRetry delay) False s\<rparr>)"

inductive relay_step :: "RelayConfig \<Rightarrow> RelayLoop \<Rightarrow> relay_label \<Rightarrow> RelayLoop \<Rightarrow> bool" for cfg where
  notify: "relay_step cfg s Notify (notify_loop s)"
| abort: "relay_step cfg s Abort (abort_loop s)"
| start: "\<lbrakk>lp_pc s = LoopHead; \<not> lp_aborted s\<rbrakk>
    \<Longrightarrow> relay_step cfg s StartCycle (s \<lparr>lp_notified := False, lp_pc := Processing\<rparr>)"
| finished: "lp_pc s = Processing \<Longrightarrow> relay_step cfg s (CycleDone n now) (cycle_done cfg n now s)"
| failed: "lp_pc s = Processing \<Longrightarrow> relay_step cfg s (CycleFailed e random) (cycle_failed cfg random s)"
| timer: "lp_pc s = WaitingForWork \<or> lp_pc s = WaitingToRetry d
    \<Longrightarrow> relay_step cfg s TimerFired (s \<lparr>lp_pc := LoopHead\<rparr>)"
| leave: "\<lbrakk>lp_pc s = LoopHead; lp_aborted s\<rbrakk>
    \<Longrightarrow> relay_step cfg s LeaveLoop (s \<lparr>lp_pc := LoopEnd, lp_running := False\<rparr>)"

inductive_cases relay_stepE: "relay_step cfg s l s'"

definition relay_started :: RelayLoop where
  "relay_started = \<lparr>lp_pc = LoopHead, lp_running = True, lp_consecutiveFailures = 0,
     lp_lastCycleCompletedAt = None, lp_notified = False, lp_aborted = False\<rparr>"

inductive relay_reachable :: "RelayConfig \<Rightarrow> RelayLoop \<Rightarrow> bool" for cfg where
  init: "relay_reachable cfg relay_started"
| step: "\<lbrakk>relay_reachable cfg s; relay_step cfg s l s'\<rbrakk> \<Longrightarrow> relay_reachable cfg s'"

lemmas relay_defs = notify_loop_def abort_loop_def cycle_done_def cycle_failed_def waitForWork_def



section \<open>Many relays on one outbox\<close>

text \<open>
  A claimed message is in flight at its claimant, and flagged once the broker confirmed it.
\<close>

record Flight =
  fl_claimant :: string
  fl_message :: OutboxMessage
  fl_confirmed :: bool

record World =
  w_table :: OutboxTable
  w_flights :: "Flight list"
  w_broker :: "string list"

inductive world_step :: "World \<Rightarrow> World \<Rightarrow> bool" where
  enqueue: "outbox_insert i ty k p oc (w_table w) = Inr (u, t)
    \<Longrightarrow> world_step w (w \<lparr>w_table := t\<rparr>)"
| tick: "0 \<le> d \<Longrightarrow> world_step w (w \<lparr>w_table := (w_table w) \<lparr>ob_clock := ob_clock (w_table w) + d\<rparr>\<rparr>)"
| claim: "\<lbrakk>claimBatch locked ret c n l (w_table w) = (ms, t); \<And>rows. mset (ret rows) = mset rows\<rbrakk>
    \<Longrightarrow> world_step w (w \<lparr>w_table := t, w_flights := w_flights w @
          map (\<lambda>m. \<lparr>fl_claimant = c, fl_message = m, fl_confirmed = False\<rparr>) ms\<rparr>)"
| confirm: "f \<in> set (w_flights w)
    \<Longrightarrow> world_step w (w \<lparr>w_flights := f \<lparr>fl_confirmed := True\<rparr> # remove1 f (w_flights w),
          w_broker := om_eventId (fl_message f) # w_broker w\<rparr>)"
| mark: "\<forall>m \<in> set ms. \<exists>f \<in> set (w_flights w). fl_message f = m \<and> fl_claimant f = c \<and> fl_confirmed f
    \<Longrightarrow> world_step w (w \<lparr>w_table := markPublished ms (w_table w)\<rparr>)"
| release: "f \<in> set (w_flights w)
    \<Longrightarrow> world_step w (w \<lparr>w_table := snd (releaseForRetry (fl_message f) (fl_claimant f) d e (w_table w)),
          w_flights := remove1 f (w_flights w)\<rparr>)"
| crash: "world_step w (w \<lparr>w_flights := filter (\<lambda>f. fl_claimant f \<noteq> c) (w_flights w)\<rparr>)"

inductive_cases world_stepE: "world_step w w'"

definition empty_world :: "int \<Rightarrow> World" where
  "empty_world now = \<lparr>w_table = \<lparr>ob_rows = [], ob_next = 1, ob_clock = now\<rparr>, w_flights = [], w_broker = []\<rparr>"

text \<open>A message in flight belongs to a row; only confirmed messages make rows published.\<close>

definition flight_ok :: "World \<Rightarrow> Flight \<Rightarrow> bool" where
  "flight_ok w f \<longleftrightarrow>
     (\<exists>r \<in> set (ob_rows (w_table w)). om_sequenceId (fl_message f) = nat_text (or_sequenceId r)
        \<and> om_eventId (fl_message f) = or_eventId r \<and> om_payload (fl_message f) = or_payload r)
     \<and> (fl_confirmed f \<longrightarrow> om_eventId (fl_message f) \<in> set (w_broker w))"

definition world_ok :: "World \<Rightarrow> bool" where
  "world_ok w \<longleftrightarrow> outbox_wf (w_table w) \<and> (\<forall>f \<in> set (w_flights w). flight_ok w f)
     \<and> (\<forall>r \<in> set (ob_rows (w_table w)). or_publishedAt r \<noteq> None \<longrightarrow> or_eventId r \<in> set (w_broker w))"

lemma evolves_row:
  assumes "outbox_evolves t t'" "r \<in> set (ob_rows t)"
  obtains r' where "r' \<in> set (ob_rows t')" "row_evolves r r'"
proof -
  from assms obtain i where i: "i < length (ob_rows t)" "ob_rows t ! i = r" by (auto simp: in_set_conv_nth)
  from assms(1) i have "row_evolves r (ob_rows t' ! i)" "i < length (ob_rows t')"
    by (auto simp: outbox_evolves_def list_all2_conv_all_nth)
  then show thesis using that nth_mem by blast
qed

lemma flight_ok_evolves:
  assumes "flight_ok w f" "outbox_evolves (w_table w) (w_table w')" "set (w_broker w) \<subseteq> set (w_broker w')"
  shows "flight_ok w' f"
proof -
  from assms(1) obtain r where r: "r \<in> set (ob_rows (w_table w))" "om_sequenceId (fl_message f) = nat_text (or_sequenceId r)"
    "om_eventId (fl_message f) = or_eventId r" "om_payload (fl_message f) = or_payload r"
    by (auto simp: flight_ok_def)
  from evolves_row [OF assms(2) r(1)] obtain r' where "r' \<in> set (ob_rows (w_table w'))" "row_evolves r r'" .
  with r have "r' \<in> set (ob_rows (w_table w')) \<and> om_sequenceId (fl_message f) = nat_text (or_sequenceId r')
      \<and> om_eventId (fl_message f) = or_eventId r' \<and> om_payload (fl_message f) = or_payload r'"
    by (simp add: row_evolves_def)
  with assms(1,3) show ?thesis unfolding flight_ok_def by blast
qed

lemma world_step_evolves:
  assumes "world_ok w" "world_step w w'" shows "outbox_wf (w_table w') \<and> outbox_evolves (w_table w) (w_table w')"
proof -
  from assms(1) have wf: "outbox_wf (w_table w)" by (simp add: world_ok_def)
  from assms(2) show ?thesis
  proof cases
    case (enqueue i ty k p oc u t)
    with outbox_insert_keeps [OF wf enqueue(2)] show ?thesis by simp
  next
    case (claim locked ret c n l ms t)
    with claimBatch_keeps [OF wf, of locked ret c n l] show ?thesis by simp
  next
    case (mark ms c)
    with markPublished_keeps [OF wf, of ms] show ?thesis by simp
  next
    case (release f d e)
    with releaseForRetry_keeps [OF wf] show ?thesis by simp
  qed (use wf in \<open>simp_all add: outbox_wf_def outbox_evolves_def list_all2_refl\<close>)
qed

text \<open>Rows that were published before a statement, and rows it publishes.\<close>

lemma published_row_origin:
  assumes "world_ok w" "r' \<in> set (ob_rows t')" "or_publishedAt r' \<noteq> None"
    "ob_rows t' = map f (ob_rows (w_table w))" "\<And>r. or_publishedAt (f r) = or_publishedAt r" "\<And>r. or_eventId (f r) = or_eventId r"
  shows "or_eventId r' \<in> set (w_broker w)"
  using assms by (auto simp: world_ok_def)

lemma world_step_ok:
  assumes "world_ok w" "world_step w w'" shows "world_ok w'"
proof -
  from assms(1) have wf: "outbox_wf (w_table w)" and fl: "\<And>f. f \<in> set (w_flights w) \<Longrightarrow> flight_ok w f"
    and pub: "\<And>r. r \<in> set (ob_rows (w_table w)) \<Longrightarrow> or_publishedAt r \<noteq> None \<Longrightarrow> or_eventId r \<in> set (w_broker w)"
    by (auto simp: world_ok_def)
  from world_step_evolves [OF assms] have ev: "outbox_wf (w_table w')" "outbox_evolves (w_table w) (w_table w')" by auto
  have keep: "flight_ok w' f" if "f \<in> set (w_flights w)" "set (w_broker w) \<subseteq> set (w_broker w')" for f
    using flight_ok_evolves [OF fl [OF that(1)] ev(2) that(2)] .
  from assms(2) show ?thesis
  proof cases
    case (enqueue i ty k p oc u t)
    have "or_eventId r \<in> set (w_broker w)" if "r \<in> set (ob_rows t)" "or_publishedAt r \<noteq> None" for r
      using that enqueue(2) pub by (auto simp: outbox_insert_def split: option.splits if_splits)
    then show ?thesis using enqueue keep ev by (simp add: world_ok_def)
  next
    case (tick d)
    then show ?thesis using keep ev pub by (auto simp: world_ok_def)
  next
    case (claim locked ret c n l ms t)
    let ?f = "\<lambda>r. if or_sequenceId r \<in> set (claim_ids locked n (w_table w)) then claim_row c l (ob_clock (w_table w)) r else r"
    have rows: "ob_rows t = map ?f (ob_rows (w_table w))"
      using claim(2) by (auto simp: claimBatch_def Let_def)
    have "flight_ok w' \<lparr>fl_claimant = c, fl_message = m, fl_confirmed = False\<rparr>" if m: "m \<in> set ms" for m
    proof -
      from m claimBatch_messages [OF wf claim(3), of locked c n l] claim(2) obtain r where
        r: "r \<in> set (ob_rows (w_table w))" "m = toMessage (claim_row c l (ob_clock (w_table w)) r)"
        by (auto dest!: in_set_takeD)
      from evolves_row [OF ev(2) r(1)] obtain r' where "r' \<in> set (ob_rows (w_table w'))" "row_evolves r r'" .
      with r(2) have "r' \<in> set (ob_rows (w_table w')) \<and> om_sequenceId m = nat_text (or_sequenceId r')
          \<and> om_eventId m = or_eventId r' \<and> om_payload m = or_payload r'"
        by (simp add: row_evolves_def toMessage_def)
      then show ?thesis unfolding flight_ok_def by auto
    qed
    moreover have "or_eventId r \<in> set (w_broker w)" if "r \<in> set (ob_rows t)" "or_publishedAt r \<noteq> None" for r
      by (rule published_row_origin [OF assms(1) that rows]) simp_all
    ultimately show ?thesis using claim(1) keep ev by (auto simp: world_ok_def)
  next
    case (confirm f)
    have "flight_ok w' (f \<lparr>fl_confirmed := True\<rparr>)"
      using keep [OF confirm(2)] confirm(1) by (auto simp: flight_ok_def)
    moreover have "set (remove1 f (w_flights w)) \<subseteq> set (w_flights w)" by (rule set_remove1_subset)
    ultimately show ?thesis using confirm(1) keep ev pub by (auto simp: world_ok_def)
  next
    case (mark ms c)
    have "or_eventId r' \<in> set (w_broker w)" if r': "r' \<in> set (ob_rows (markPublished ms (w_table w)))" "or_publishedAt r' \<noteq> None" for r'
    proof -
      from r' obtain r where r: "r \<in> set (ob_rows (w_table w))" "or_eventId r' = or_eventId r"
        "or_publishedAt r \<noteq> None \<or> int (or_sequenceId r) \<in> (\<lambda>m. BigInt_of (om_sequenceId m)) ` set ms"
        by (auto simp: markPublished_def split: if_splits)
      show ?thesis
      proof (cases "or_publishedAt r = None")
        case True
        with r(3) obtain m where m: "m \<in> set ms" "BigInt_of (om_sequenceId m) = int (or_sequenceId r)" by force
        with mark(2) obtain f where f: "f \<in> set (w_flights w)" "fl_message f = m" "fl_confirmed f" by blast
        with fl [OF f(1)] obtain q where q: "q \<in> set (ob_rows (w_table w))" "om_sequenceId m = nat_text (or_sequenceId q)"
          "om_eventId m = or_eventId q" "om_eventId m \<in> set (w_broker w)" by (auto simp: flight_ok_def)
        with m(2) r(1) wf have "q = r" by (auto simp: outbox_wf_def distinct_map inj_on_def)
        with q r(2) show ?thesis by simp
      qed (use r pub in auto)
    qed
    then show ?thesis using mark(1) keep ev by (auto simp: world_ok_def)
  next
    case (release f d e)
    let ?m = "fl_message f" and ?t = "w_table w"
    let ?f = "\<lambda>r. if release_matches ?m (fl_claimant f) r
           then r \<lparr>or_availableAt := ob_clock ?t + 1000 * d, or_claimedBy := None,
                   or_lastError := Some (take MAX_STORED_ERROR_LENGTH e)\<rparr> else r"
    have rows: "ob_rows (snd (releaseForRetry ?m (fl_claimant f) d e ?t)) = map ?f (ob_rows ?t)"
      by (simp add: releaseForRetry_def)
    have "or_eventId r \<in> set (w_broker w)"
      if "r \<in> set (ob_rows (snd (releaseForRetry ?m (fl_claimant f) d e ?t)))" "or_publishedAt r \<noteq> None" for r
      by (rule published_row_origin [OF assms(1) that rows]) simp_all
    moreover have "set (remove1 f (w_flights w)) \<subseteq> set (w_flights w)" by (rule set_remove1_subset)
    ultimately show ?thesis using release(1) keep ev by (auto simp: world_ok_def)
  next
    case (crash c)
    then show ?thesis using keep ev pub by (auto simp: world_ok_def)
  qed
qed

lemma world_reachable_ok:
  assumes "world_ok w" "world_step\<^sup>*\<^sup>* w w'"
  shows "world_ok w' \<and> outbox_evolves (w_table w) (w_table w')"
  using assms(2,1)
proof (induction rule: rtranclp_induct)
  case (step x y)
  then show ?case
    using world_step_ok [of x y] world_step_evolves [of x y] outbox_evolves_trans [of "w_table w" "w_table x" "w_table y"]
    by simp
qed simp

lemma empty_world_ok: "world_ok (empty_world now)"
  by (simp add: world_ok_def empty_world_def outbox_wf_def)


definition sample_event_id :: string where
  "sample_event_id = ''00000000-0000-5000-8000-000000000000''"

definition sample_inserted :: OutboxTable where
  "sample_inserted = (case outbox_insert sample_event_id ''OrderCreated'' ''order.created'' (JObj []) ''t''
     (w_table (empty_world 5)) of Inl e \<Rightarrow> w_table (empty_world 5) | Inr (u, t) \<Rightarrow> t)"


end
