(* ===== verification/Http.thy ===== *)
theory Http
  imports MessageErrors
begin

text \<open>
  What the Express applications of the services share: responses, readiness probes and the
  \<open>/health\<close> and \<open>/ready\<close> handlers. Routing and writing to the socket are the framework's.
\<close>

record HttpResponse =
  http_status :: nat
  http_headers :: "(string \<times> string) list"
  http_body :: js

definition json_response :: "nat \<Rightarrow> js \<Rightarrow> HttpResponse" where
  "json_response status body = \<lparr>http_status = status, http_headers = [], http_body = body\<rparr>"

definition error_body :: "string \<Rightarrow> js" where
  "error_body message = JObj [(''error'', JStr message)]"

definition health_response :: "string \<Rightarrow> HttpResponse" where
  "health_response service =
     json_response 200 (JObj [(''status'', JStr ''Healthy''), (''service'', JStr service)])"

text \<open>What calling a probe came to.\<close>

datatype probe_result = ProbeReturns bool | ProbeThrows js_error

fun getProbeReadiness :: "probe_result \<Rightarrow> bool" where
  "getProbeReadiness (ProbeReturns b) = b"
| "getProbeReadiness (ProbeThrows e) = False"

definition toReadinessStatus :: "bool \<Rightarrow> string" where
  "toReadinessStatus ready = (if ready then ''Ready'' else ''NotReady'')"

text \<open>A service that depends on RabbitMQ only, and one that depends on its database as well.\<close>

definition broker_ready_response :: "string \<Rightarrow> bool \<Rightarrow> HttpResponse" where
  "broker_ready_response service rabbitMqReady =
     (let st = JStr (toReadinessStatus rabbitMqReady)
      in json_response (if rabbitMqReady then 200 else 503)
           (JObj [(''status'', st), (''service'', JStr service), (''dependencies'', JObj [(''rabbitMq'', st)])]))"

definition ready_response :: "string \<Rightarrow> probe_result \<Rightarrow> probe_result \<Rightarrow> HttpResponse" where
  "ready_response service rabbitMqProbe databaseProbe =
     (let rabbitMqReady = getProbeReadiness rabbitMqProbe;
          databaseReady = getProbeReadiness databaseProbe;
          ready = rabbitMqReady \<and> databaseReady
      in json_response (if ready then 200 else 503)
           (JObj [(''status'', JStr (toReadinessStatus ready)), (''service'', JStr service),
             (''dependencies'', JObj
               [(''rabbitMq'', JStr (toReadinessStatus rabbitMqReady)),
                (''database'', JStr (toReadinessStatus databaseReady))])]))"

text \<open>\<open>/diagnostics/outbox\<close>: the reader's answer, or its error for the error middleware.\<close>

definition diagnostics_response :: "js_error + js \<Rightarrow> js_error + HttpResponse" where
  "diagnostics_response read = (case read of Inl e \<Rightarrow> Inl e | Inr v \<Rightarrow> Inr (json_response 200 v))"

definition request_failed_log :: "js_error \<Rightarrow> string \<Rightarrow> string \<Rightarrow> log_call" where
  "request_failed_log e verb path =
     LogError ''Request failed'' e [(''method'', JStr verb), (''path'', JStr path)]"

lemma ready_iff: "http_status (ready_response service p q) = 200 \<longleftrightarrow> p = ProbeReturns True \<and> q = ProbeReturns True"
  by (cases p; cases q) (auto simp: ready_response_def json_response_def Let_def split: if_splits)

end
