(* ===== verification/OrderStatus.thy ===== *)
theory OrderStatus
  imports Contracts
begin

text \<open>
  services/order-service/src/orderStatus.ts: the workflow status of an order, how an event
  moves it, and the order on statuses in which it only moves up.
\<close>

datatype OrderWorkflowEventType =
    WfPaymentAuthorized
  | WfInventoryReserved
  | WfInventoryReservationFailed
  | WfDeliveryBooked

datatype OrderStatus = StatusCreated | StatusOf OrderWorkflowEventType

definition ORDER_WORKFLOW_EVENT_TYPES :: "OrderWorkflowEventType list" where
  "ORDER_WORKFLOW_EVENT_TYPES =
     [WfPaymentAuthorized, WfInventoryReserved, WfInventoryReservationFailed, WfDeliveryBooked]"

fun workflow_eventType :: "OrderWorkflowEventType \<Rightarrow> EventType" where
  "workflow_eventType WfPaymentAuthorized = PaymentAuthorized"
| "workflow_eventType WfInventoryReserved = InventoryReserved"
| "workflow_eventType WfInventoryReservationFailed = InventoryReservationFailed"
| "workflow_eventType WfDeliveryBooked = DeliveryBooked"

fun order_status_text :: "OrderStatus \<Rightarrow> string" where
  "order_status_text StatusCreated = ''Created''"
| "order_status_text (StatusOf w) = eventType_text (workflow_eventType w)"

fun STAGE :: "OrderStatus \<Rightarrow> nat" where
  "STAGE StatusCreated = 0"
| "STAGE (StatusOf WfPaymentAuthorized) = 1"
| "STAGE (StatusOf WfInventoryReserved) = 2"
| "STAGE (StatusOf WfInventoryReservationFailed) = 2"
| "STAGE (StatusOf WfDeliveryBooked) = 3"

definition applyWorkflowEvent :: "OrderStatus \<Rightarrow> OrderWorkflowEventType \<Rightarrow> OrderStatus" where
  "applyWorkflowEvent current event_type =
     (if current = StatusOf WfInventoryReservationFailed \<or> STAGE (StatusOf event_type) \<le> STAGE current
      then current else StatusOf event_type)"

datatype OrderOutcome = InProgress | Completed | Failed

fun getOrderOutcome :: "OrderStatus \<Rightarrow> OrderOutcome" where
  "getOrderOutcome (StatusOf WfDeliveryBooked) = Completed"
| "getOrderOutcome (StatusOf WfInventoryReservationFailed) = Failed"
| "getOrderOutcome s = InProgress"

definition order_statuses :: "OrderStatus list" where
  "order_statuses = StatusCreated # map StatusOf ORDER_WORKFLOW_EVENT_TYPES"

definition isOrderStatus :: "string \<Rightarrow> bool" where
  "isOrderStatus value' = (value' \<in> set (map order_status_text order_statuses))"

definition status_of_text :: "string \<Rightarrow> OrderStatus option" where
  "status_of_text t = List.find (\<lambda>s. order_status_text s = t) order_statuses"

lemma workflow_eventType_inj: "workflow_eventType v = workflow_eventType w \<longleftrightarrow> v = w"
  by (cases v; cases w) simp_all

lemma order_status_text_inj: "order_status_text s = order_status_text t \<longleftrightarrow> s = t"
proof (cases s; cases t)
  fix v w assume "s = StatusOf v" "t = StatusOf w"
  then show ?thesis by (simp add: eventType_text_inj workflow_eventType_inj)
next
  fix w assume "s = StatusCreated" "t = StatusOf w"
  then show ?thesis by (cases w) simp_all
next
  fix w assume "s = StatusOf w" "t = StatusCreated"
  then show ?thesis by (cases w) simp_all
qed simp

lemma all_statuses: "s \<in> set order_statuses"
proof (cases s)
  case (StatusOf w)
  then show ?thesis by (cases w) (simp_all add: order_statuses_def ORDER_WORKFLOW_EVENT_TYPES_def)
qed (simp add: order_statuses_def)

lemma isOrderStatus_text [simp]: "isOrderStatus (order_status_text s)"
  using all_statuses by (simp add: isOrderStatus_def)

lemma status_of_text_text [simp]: "status_of_text (order_status_text s) = Some s"
proof -
  have "List.find (\<lambda>t. t = s) xs = Some s" if "s \<in> set xs" for xs
    using that by (induction xs) auto
  then show ?thesis using all_statuses by (simp add: status_of_text_def order_status_text_inj)
qed

section \<open>The order of statuses\<close>

text \<open>
  \<open>s \<le> t\<close> when the workflow can take an order from s to t: the stages ascend, and nothing
  follows a failed reservation.
\<close>

instantiation OrderStatus :: order
begin

definition less_eq_OrderStatus :: "OrderStatus \<Rightarrow> OrderStatus \<Rightarrow> bool" where
  "s \<le> t \<longleftrightarrow> s = t \<or> (s \<noteq> StatusOf WfInventoryReservationFailed \<and> STAGE s < STAGE t)"

definition less_OrderStatus :: "OrderStatus \<Rightarrow> OrderStatus \<Rightarrow> bool" where
  "s < t \<longleftrightarrow> s \<noteq> StatusOf WfInventoryReservationFailed \<and> STAGE s < STAGE t"

instance
  by standard (auto simp: less_eq_OrderStatus_def less_OrderStatus_def)

end

lemma applyWorkflowEvent_ge: "s \<le> applyWorkflowEvent s w"
  by (auto simp: applyWorkflowEvent_def less_eq_OrderStatus_def)

lemma failed_maximal: "StatusOf WfInventoryReservationFailed \<le> t \<longleftrightarrow> t = StatusOf WfInventoryReservationFailed"
  by (auto simp: less_eq_OrderStatus_def)

lemma STAGE_le_3: "STAGE s \<le> 3"
  by (cases s rule: STAGE.cases) simp_all

lemma delivered_maximal: "StatusOf WfDeliveryBooked \<le> t \<longleftrightarrow> t = StatusOf WfDeliveryBooked"
  using STAGE_le_3 [of t] by (auto simp: less_eq_OrderStatus_def)

definition apply_all :: "OrderStatus \<Rightarrow> OrderWorkflowEventType list \<Rightarrow> OrderStatus" where
  "apply_all s ws = foldl applyWorkflowEvent s ws"

lemma apply_all_ge: "s \<le> apply_all s ws"
  unfolding apply_all_def
  by (induction ws arbitrary: s) (auto intro: order_trans [OF applyWorkflowEvent_ge])

text \<open>
  The inventory service decides once per order, so the events of one order never hold both a
  failed reservation and a later success.
\<close>

definition one_decision :: "OrderWorkflowEventType list \<Rightarrow> bool" where
  "one_decision ws = (WfInventoryReservationFailed \<in> set ws \<longrightarrow>
     WfInventoryReserved \<notin> set ws \<and> WfDeliveryBooked \<notin> set ws)"

definition furthest :: "OrderWorkflowEventType set \<Rightarrow> OrderStatus" where
  "furthest W =
     (if WfDeliveryBooked \<in> W then StatusOf WfDeliveryBooked
      else if WfInventoryReserved \<in> W then StatusOf WfInventoryReserved
      else if WfInventoryReservationFailed \<in> W then StatusOf WfInventoryReservationFailed
      else if WfPaymentAuthorized \<in> W then StatusOf WfPaymentAuthorized
      else StatusCreated)"

lemma apply_all_furthest: "one_decision ws \<Longrightarrow> apply_all StatusCreated ws = furthest (set ws)"
proof (induction ws rule: rev_induct)
  case (snoc w ws)
  then have "apply_all StatusCreated ws = furthest (set ws)" by (auto simp: one_decision_def)
  with snoc.prems show ?case
    by (cases w) (auto simp: apply_all_def applyWorkflowEvent_def furthest_def one_decision_def)
qed (simp add: apply_all_def furthest_def)

text \<open>
  C11: the status only moves forward. Whatever events arrive, in whatever order and however
  often, the status never moves down the workflow order; once an order is completed or failed
  its outcome stays what it is.
\<close>

theorem status_monotone:
  "s \<le> apply_all s ws
   \<and> (getOrderOutcome s = InProgress \<or> apply_all s ws = s)"
proof -
  have "apply_all s ws = s" if "getOrderOutcome s \<noteq> InProgress"
  proof -
    from that consider "s = StatusOf WfDeliveryBooked" | "s = StatusOf WfInventoryReservationFailed"
      by (cases s rule: getOrderOutcome.cases) auto
    then show ?thesis using apply_all_ge [of s ws] by cases (auto simp: failed_maximal delivered_maximal)
  qed
  then show ?thesis using apply_all_ge by blast
qed

text \<open>
  Reordering and redelivery do not matter. Two deliveries of the same set of events of an
  order, in any order and with any repetitions, leave the same status: the furthest stage any
  of the events announces.
\<close>

lemma status_order_insensitive:
  assumes "one_decision ws" "set vs = set ws"
  shows "apply_all StatusCreated vs = apply_all StatusCreated ws
    \<and> apply_all StatusCreated ws = furthest (set ws)"
proof -
  have "one_decision vs" using assms by (simp add: one_decision_def)
  then show ?thesis using assms by (simp add: apply_all_furthest)
qed

end
