(* ===== verification/OrderRequests.thy ===== *)
theory OrderRequests
  imports Schemas
begin

text \<open>
  services/order-service/src/idempotencyKey.ts, orderRequestValidator.ts and orderService.ts:
  what the Order API accepts, and the order and event it makes of an accepted request.
\<close>

section \<open>The Idempotency-Key header\<close>

definition IDEMPOTENCY_KEY_HEADER :: string where
  "IDEMPOTENCY_KEY_HEADER = ''idempotency-key''"

definition IDEMPOTENCY_KEY_MAX_LENGTH :: nat where
  "IDEMPOTENCY_KEY_MAX_LENGTH = 255"

definition IDEMPOTENCY_KEY_PATTERN :: "string \<Rightarrow> bool" where
  "IDEMPOTENCY_KEY_PATTERN s =
     (s \<noteq> [] \<and> list_all (\<lambda>c. 33 \<le> (of_char c :: nat) \<and> (of_char c :: nat) \<le> 126) s)"

definition key_required_error :: string where
  "key_required_error = ''The Idempotency-Key header is required. Send a new unique '' @
     ''value (for example a UUID) per order, and the same value '' @
     ''when you retry that order.''"

definition key_format_error :: string where
  "key_format_error = ''The Idempotency-Key header must be 1 to '' @
     nat_text IDEMPOTENCY_KEY_MAX_LENGTH @ '' visible ASCII characters.''"

text \<open>\<open>Inl\<close> is the failure with its error text, \<open>Inr\<close> the key.\<close>

definition parseIdempotencyKey :: "string option \<Rightarrow> string + string" where
  "parseIdempotencyKey header =
     (case header of
        None \<Rightarrow> Inl key_required_error
      | Some v \<Rightarrow>
          if length v = 0 then Inl key_required_error
          else if IDEMPOTENCY_KEY_MAX_LENGTH < length v \<or> \<not> IDEMPOTENCY_KEY_PATTERN v
          then Inl key_format_error
          else Inr v)"

section \<open>The request\<close>

record CreateOrderRequest =
  cr_customerId :: string
  cr_items :: "OrderItem list"

definition MAX_ORDER_ITEM_QUANTITY :: int where
  "MAX_ORDER_ITEM_QUANTITY = 2147483647"

definition MAX_ORDER_ITEMS :: nat where
  "MAX_ORDER_ITEMS = 100"

definition not_blank :: "js \<Rightarrow> bool" where
  "not_blank v = (case v of JStr s \<Rightarrow> 0 < length (trim s) | _ \<Rightarrow> False)"

definition nonBlankIdentifierSchema :: zschema where
  "nonBlankIdentifierSchema = ZRefine (ZString None (Some EVENT_IDENTIFIER_MAX_LENGTH)) not_blank"

definition requestItemSchema :: zschema where
  "requestItemSchema = ZObject
     [(''productId'', nonBlankIdentifierSchema),
      (''quantity'', ZNumber [ZInt, ZPositive, ZMaxValue MAX_ORDER_ITEM_QUANTITY]),
      (''unitPrice'', ZNumber [ZNonnegative])]"

text \<open>The total before rounding: \<open>items.reduce((sum, item) => sum + item.quantity * item.unitPrice, 0)\<close>.\<close>

definition items_total :: "OrderItem list \<Rightarrow> jsnum" where
  "items_total items =
     foldl (\<lambda>sum i. js_add sum (js_mul (Fin (of_int (quantity i))) (unitPrice i))) (Fin 0) items"

definition total_is_finite :: "js \<Rightarrow> bool" where
  "total_is_finite request = isFinite (items_total (read_list read_item (js_get request ''items'')))"

definition createOrderRequestSchema :: zschema where
  "createOrderRequestSchema = ZRefine
     (ZObject [(''customerId'', nonBlankIdentifierSchema),
               (''items'', ZArray requestItemSchema (Some 1) (Some MAX_ORDER_ITEMS))])
     total_is_finite"

definition parseCreateOrderRequest :: "zod_lib \<Rightarrow> js \<Rightarrow> CreateOrderRequest option" where
  "parseCreateOrderRequest z input =
     map_option (\<lambda>v. \<lparr>cr_customerId = read_string (js_get v ''customerId''),
       cr_items = read_list read_item (js_get v ''items'')\<rparr>)
     (zod_parse z createOrderRequestSchema input)"

section \<open>The order of a request\<close>

definition is_alnum :: "char \<Rightarrow> bool" where
  "is_alnum c = (let n = of_char c :: nat
     in (48 \<le> n \<and> n \<le> 57) \<or> (65 \<le> n \<and> n \<le> 90) \<or> (97 \<le> n \<and> n \<le> 122))"

definition CORRELATION_ID_PATTERN :: "string \<Rightarrow> bool" where
  "CORRELATION_ID_PATTERN s =
     (1 \<le> length s \<and> length s \<le> 128
      \<and> list_all (\<lambda>c. is_alnum c \<or> c \<in> set ''._:-'') s)"

text \<open>
  The ids \<open>generateId\<close> returns during one call are \<open>gen 0, gen 1, ...\<close>; a function that
  draws ids takes the next index and returns the index after its draws.
\<close>

definition resolveCorrelationId :: "(nat \<Rightarrow> string) \<Rightarrow> nat \<Rightarrow> string option \<Rightarrow> string \<times> nat" where
  "resolveCorrelationId gen k supplied =
     (case map_option trim supplied of
        None \<Rightarrow> (gen k, k + 1)
      | Some s \<Rightarrow> if s \<noteq> [] \<and> CORRELATION_ID_PATTERN s then (s, k) else (gen k, k + 1))"

definition calculateTotalAmount :: "OrderItem list \<Rightarrow> jsnum" where
  "calculateTotalAmount items = number_toFixed2 (items_total items)"

definition canonical_request :: "CreateOrderRequest \<Rightarrow> js" where
  "canonical_request r = JObj
     [(''customerId'', JStr (cr_customerId r)), (''items'', JArr (map item_js (cr_items r)))]"

definition fingerprintOrderRequest ::
    "(rat \<Rightarrow> string) \<Rightarrow> (string \<Rightarrow> string) \<Rightarrow> CreateOrderRequest \<Rightarrow> string" where
  "fingerprintOrderRequest num_text sha256 r = sha256 (json_text num_text (canonical_request r))"

record CreatedOrderResponse =
  res_orderId :: string
  res_totalAmount :: jsnum
  res_correlationId :: string

record CreateOrderResult =
  cor_event :: OrderCreatedEvent
  cor_response :: CreatedOrderResponse
  cor_fingerprint :: string

definition createOrder ::
    "(rat \<Rightarrow> string) \<Rightarrow> (string \<Rightarrow> string) \<Rightarrow> (nat \<Rightarrow> string) \<Rightarrow> string \<Rightarrow> CreateOrderRequest
      \<Rightarrow> string option \<Rightarrow> CreateOrderResult" where
  "createOrder num_text sha256 gen now request supplied =
     (let (correlation, k) = resolveCorrelationId gen 0 supplied;
          orderId = gen k;
          event_id = gen (k + 1);
          totalAmount = calculateTotalAmount (cr_items request)
      in \<lparr>cor_event = \<lparr>eventId = event_id, eventType = OrderCreated, occurredAt = now,
            correlationId = correlation,
            event_data = \<lparr>oc_orderId = orderId, oc_customerId = cr_customerId request,
              oc_items = cr_items request, oc_totalAmount = totalAmount\<rparr>\<rparr>,
          cor_response = \<lparr>res_orderId = orderId, res_totalAmount = totalAmount,
            res_correlationId = correlation\<rparr>,
          cor_fingerprint = fingerprintOrderRequest num_text sha256 request\<rparr>)"

section \<open>Which requests are accepted\<close>

definition valid_request_item :: "OrderItem \<Rightarrow> bool" where
  "valid_request_item i = (trim (productId i) \<noteq> [] \<and> length (productId i) \<le> 200
     \<and> 0 < quantity i \<and> quantity i \<le> MAX_ORDER_ITEM_QUANTITY \<and> valid_amount (unitPrice i))"

definition valid_request :: "CreateOrderRequest \<Rightarrow> bool" where
  "valid_request r = (trim (cr_customerId r) \<noteq> [] \<and> length (cr_customerId r) \<le> 200
     \<and> cr_items r \<noteq> [] \<and> length (cr_items r) \<le> MAX_ORDER_ITEMS
     \<and> list_all valid_request_item (cr_items r) \<and> isFinite (items_total (cr_items r)))"

lemma trim_Nil [simp]: "trim [] = []"
  by (simp add: trim_def)

lemma nonneg_items_total:
  assumes "list_all (\<lambda>i. 0 < quantity i \<and> valid_amount (unitPrice i)) items"
  shows "nonneg (items_total items)"
proof -
  have step: "nonneg (foldl (\<lambda>sum i. js_add sum (js_mul (Fin (of_int (quantity i))) (unitPrice i))) a items)"
    if "nonneg a" for a
    using that assms
  proof (induction items arbitrary: a)
    case (Cons i items)
    then obtain r where "unitPrice i = Fin r" "0 \<le> r" by (cases "unitPrice i") (auto simp: valid_amount_def)
    then have "nonneg (js_mul (Fin (of_int (quantity i))) (unitPrice i))"
      using Cons.prems(2) nonneg_js_mul [of "of_int (quantity i)" r] by simp
    then have "nonneg (js_add a (js_mul (Fin (of_int (quantity i))) (unitPrice i)))"
      using Cons.prems(1) by (rule nonneg_js_add [rotated])
    with Cons show ?case by simp
  qed simp
  show ?thesis unfolding items_total_def by (rule step) simp
qed

lemma valid_request_total:
  "valid_request r \<Longrightarrow> valid_amount (calculateTotalAmount (cr_items r))"
proof -
  assume v: "valid_request r"
  then have "nonneg (items_total (cr_items r))"
    by (intro nonneg_items_total) (auto simp: valid_request_def valid_request_item_def list_all_iff)
  with v show ?thesis
    by (simp add: valid_amount_def calculateTotalAmount_def valid_request_def number_toFixed2_nonneg
        number_toFixed2_finite)
qed

lemma valid_request_items: "valid_request r \<Longrightarrow> valid_items (cr_items r)"
proof -
  have "valid_identifier s" if "trim s \<noteq> []" "length s \<le> 200" for s
    using that by (cases s) (auto simp: valid_identifier_def)
  then show "valid_request r \<Longrightarrow> ?thesis"
    by (auto simp: valid_request_def valid_items_def valid_item_def valid_request_item_def list_all_iff
        MAX_ORDER_ITEM_QUANTITY_def)
qed

context documented_zod
begin

lemma request_identifier:
  "zod_parse z nonBlankIdentifierSchema v = Some w \<longleftrightarrow> (\<exists>s. v = JStr s \<and> w = v \<and> trim s \<noteq> [] \<and> length s \<le> 200)"
  by (cases v) (auto simp: nonBlankIdentifierSchema_def zod_eqs(1,8) not_blank_def EVENT_IDENTIFIER_MAX_LENGTH_def)

lemma request_quantity:
  "zod_parse z (ZNumber [ZInt, ZPositive, ZMaxValue MAX_ORDER_ITEM_QUANTITY]) v = Some w
    \<Longrightarrow> \<exists>n. w = int_js n \<and> 0 < n \<and> n \<le> MAX_ORDER_ITEM_QUANTITY"
  by (auto simp: zod_eqs int_js_def split: js.splits jsnum.splits if_splits elim!: safe_int)

lemma request_item_sound:
  assumes "zod_parse z requestItemSchema v = Some w"
  shows "\<exists>i. valid_request_item i \<and> w = item_js i"
proof -
  from assms obtain p q u where parts:
    "zod_parse z nonBlankIdentifierSchema (js_get v ''productId'') = Some p"
    "zod_parse z (ZNumber [ZInt, ZPositive, ZMaxValue MAX_ORDER_ITEM_QUANTITY]) (js_get v ''quantity'') = Some q"
    "zod_parse z (ZNumber [ZNonnegative]) (js_get v ''unitPrice'') = Some u"
    "w = JObj [(''productId'', p), (''quantity'', q), (''unitPrice'', u)]"
    unfolding requestItemSchema_def by (elim object_sound) (auto split: option.splits)
  obtain s n r where "p = JStr s" "trim s \<noteq> []" "length s \<le> 200" "q = int_js n" "0 < n"
    "n \<le> MAX_ORDER_ITEM_QUANTITY" "u = JNum r" "valid_amount r"
    using parts(1) request_quantity [OF parts(2)] amount_sound [OF parts(3)]
    by (auto simp: request_identifier)
  then have "valid_request_item \<lparr>productId = s, quantity = n, unitPrice = r\<rparr>
      \<and> w = item_js \<lparr>productId = s, quantity = n, unitPrice = r\<rparr>"
    using parts(4) by (simp add: valid_request_item_def item_js_def)
  then show ?thesis by blast
qed

lemma request_sound:
  assumes "parseCreateOrderRequest z input = Some r" shows "valid_request r"
proof -
  from assms obtain v where v: "zod_parse z createOrderRequestSchema input = Some v"
    "r = \<lparr>cr_customerId = read_string (js_get v ''customerId''), cr_items = read_list read_item (js_get v ''items'')\<rparr>"
    by (auto simp: parseCreateOrderRequest_def)
  from v(1) have fin: "total_is_finite v"
    and obj: "zod_parse z (ZObject [(''customerId'', nonBlankIdentifierSchema),
      (''items'', ZArray requestItemSchema (Some 1) (Some MAX_ORDER_ITEMS))]) input = Some v"
    by (auto simp: createOrderRequestSchema_def zod_eqs(8) split: option.splits if_splits)
  from obj obtain c i where parts:
    "zod_parse z nonBlankIdentifierSchema (js_get input ''customerId'') = Some c"
    "zod_parse z (ZArray requestItemSchema (Some 1) (Some MAX_ORDER_ITEMS)) (js_get input ''items'') = Some i"
    "v = JObj [(''customerId'', c), (''items'', i)]"
    by (elim object_sound) (auto split: option.splits)
  from parts(2) obtain xs ys where xs: "xs \<noteq> []" "length xs \<le> MAX_ORDER_ITEMS"
    "mapM_option (zod_parse z requestItemSchema) xs = Some ys" "i = JArr ys"
    by (cases "js_get input ''items''") (auto simp: zod_eqs(6) Suc_le_eq split: if_splits)
  from mapM_option_image [OF xs(3), of valid_request_item item_js] request_item_sound
  obtain items where items: "list_all valid_request_item items" "ys = map item_js items" "length items = length xs"
    by blast
  have "cr_items r = items" using v(2) parts(3) xs(4) items(2) by simp
  moreover have "items \<noteq> []" using xs(1) items(3) by auto
  moreover have "isFinite (items_total items)"
    using fin parts(3) xs(4) items(2) by (simp add: total_is_finite_def)
  moreover have "\<exists>s. c = JStr s \<and> trim s \<noteq> [] \<and> length s \<le> 200" using parts(1) by (auto simp: request_identifier)
  ultimately show ?thesis
    using v(2) parts(3) items(1,3) xs(2) by (auto simp: valid_request_def)
qed

end

text \<open>
  The correlation id is always short enough for the event contract and never holds white space
  or control characters.
\<close>

lemma resolveCorrelationId_ok:
  assumes "\<And>n. valid_identifier (gen n)"
  shows "valid_identifier (fst (resolveCorrelationId gen k supplied))"
  using assms by (auto simp: resolveCorrelationId_def valid_identifier_def CORRELATION_ID_PATTERN_def split: option.splits)

section \<open>Properties\<close>

text \<open>
  C12: the Order API never accepts a request whose OrderCreated event a consumer would reject.
  Whatever the body, if it parses, then for valid generated ids, an ISO time and any supplied
  correlation header, the event made of it passes the contract's own schema after
  serialisation, with the fixed-point total finite and not negative, and the total quantity of
  every product stays in the exact integer range of a double.
\<close>

theorem accepted_order_event_valid:
  assumes "zod_documented z" "parseCreateOrderRequest z body = Some request"
    "\<And>n. valid_identifier (gen n)" "iso_datetime z now"
  shows "parseOrderCreatedEvent z (json_wire (orderCreated_js
      (cor_event (createOrder num_text sha256 gen now request supplied)))) =
      Inr (cor_event (createOrder num_text sha256 gen now request supplied))
    \<and> (\<forall>p. sum_list (map quantity (filter (\<lambda>i. productId i = p) (cr_items request))) < 2 ^ 53)"
proof -
  have doc: "documented_zod z" using assms(1) by (rule documented_zod.intro)
  have v: "valid_request request" by (rule documented_zod.request_sound [OF doc assms(2)])
  let ?e = "cor_event (createOrder num_text sha256 gen now request supplied)"
  have "valid_OrderCreated z ?e"
    using v assms(3,4) valid_request_items [OF v] valid_request_total [OF v]
      resolveCorrelationId_ok [of gen 0 supplied]
    by (cases "cr_customerId request")
      (auto simp: valid_OrderCreated_def valid_envelope_def createOrder_def Let_def valid_request_def
        valid_identifier_def split: prod.splits)
  moreover have "sum_list (map quantity (filter (\<lambda>i. productId i = p) (cr_items request))) < 2 ^ 53" for p
  proof -
    have q: "quantity i \<le> 2147483647" if "i \<in> set (cr_items request)" for i
      using v that by (auto simp: valid_request_def valid_request_item_def list_all_iff MAX_ORDER_ITEM_QUANTITY_def)
    have "sum_list (map quantity (filter (\<lambda>i. productId i = p) (cr_items request)))
        \<le> sum_list (map (\<lambda>_. 2147483647) (filter (\<lambda>i. productId i = p) (cr_items request)))"
      using q by (intro sum_list_mono) auto
    also have "\<dots> \<le> 2147483647 * int (length (cr_items request))"
      by (simp add: sum_list_triv)
    also have "\<dots> \<le> 2147483647 * 100"
      using v by (simp add: valid_request_def MAX_ORDER_ITEMS_def)
    finally show ?thesis by simp
  qed
  ultimately show ?thesis by (simp add: documented_zod.OrderCreated_wire [OF doc])
qed

definition sample_body :: js where
  "sample_body = JObj [(''customerId'', JStr ''c-1''),
     (''items'', JArr [JObj [(''productId'', JStr ''A''), (''quantity'', JNum (Fin 2)), (''unitPrice'', JNum (Fin 3))]])]"

definition sample_request :: CreateOrderRequest where
  "sample_request = \<lparr>cr_customerId = ''c-1'',
     cr_items = [\<lparr>productId = ''A'', quantity = 2, unitPrice = Fin 3\<rparr>]\<rparr>"

lemma sample_parses: "parseCreateOrderRequest sample_zod sample_body = Some sample_request"
proof -
  let ?v = "JObj [(''customerId'', JStr ''c-1''), (''items'', JArr [item_js \<lparr>productId = ''A'', quantity = 2, unitPrice = Fin 3\<rparr>])]"
  have "zod_parse sample_zod (ZObject [(''customerId'', nonBlankIdentifierSchema),
      (''items'', ZArray requestItemSchema (Some 1) (Some MAX_ORDER_ITEMS))]) sample_body = Some ?v"
    by code_simp
  moreover have "total_is_finite ?v"
    using fl_int_exact [of 6] by (simp add: total_is_finite_def read_list_def items_total_def)
  ultimately have "zod_parse sample_zod createOrderRequestSchema sample_body = Some ?v"
    by (simp add: createOrderRequestSchema_def zod_documented_eqs(8) sample_zod_def zod_lib_ref_documented)
  then show ?thesis
    by (simp add: parseCreateOrderRequest_def sample_request_def read_list_def)
qed

theorem accepted_order_event_valid_witness:
  "parseOrderCreatedEvent sample_zod (json_wire (orderCreated_js
      (cor_event (createOrder (\<lambda>_. ''0'') (\<lambda>s. s) (\<lambda>_. ''id'') ''t'' sample_request None)))) =
      Inr (cor_event (createOrder (\<lambda>_. ''0'') (\<lambda>s. s) (\<lambda>_. ''id'') ''t'' sample_request None))"
proof -
  have d: "zod_documented sample_zod" by (simp add: sample_zod_def zod_lib_ref_documented)
  have t: "iso_datetime sample_zod ''t''" by (simp add: sample_zod_def zod_lib_ref_def)
  have i: "valid_identifier ''id''" by (simp add: valid_identifier_def)
  show ?thesis by (rule accepted_order_event_valid [OF d sample_parses i t, THEN conjunct1])
qed

section \<open>The fingerprint\<close>

text \<open>Reading a text back element by element, where each element's text ends itself.\<close>

lemma join_cancel:
  assumes cancel: "\<And>x y us vs. \<lbrakk>P x; P y; f x @ us = f y @ vs\<rbrakk> \<Longrightarrow> x = y \<and> us = vs"
    and head: "\<And>x. P x \<Longrightarrow> \<exists>c cs. f x = c # cs \<and> c \<noteq> CHR '']''"
  shows "\<lbrakk>list_all P xs; list_all P ys;
      join '','' (map f xs) @ CHR '']'' # us = join '','' (map f ys) @ CHR '']'' # vs\<rbrakk> \<Longrightarrow> xs = ys"
proof (induction xs arbitrary: ys)
  case Nil
  show ?case
  proof (cases ys)
    case (Cons y zs)
    with Nil(2) head obtain c cs where "f y = c # cs" "c \<noteq> CHR '']''" by force
    with Nil(3) Cons show ?thesis by (cases zs) auto
  qed simp
next
  case (Cons x xs)
  have split: "join '','' (map f (z # zs)) @ t = f z @ (if zs = [] then t else CHR '','' # join '','' (map f zs) @ t)" for z zs t
    by (cases zs) auto
  obtain c cs where x: "f x = c # cs" "c \<noteq> CHR '']''" using head Cons.prems(1) by force
  then obtain y zs where ys: "ys = y # zs" using Cons.prems(3) by (cases ys; cases xs) auto
  have "f x @ (if xs = [] then CHR '']'' # us else CHR '','' # join '','' (map f xs) @ CHR '']'' # us) =
      f y @ (if zs = [] then CHR '']'' # vs else CHR '','' # join '','' (map f zs) @ CHR '']'' # vs)"
    using Cons.prems(3) unfolding ys split .
  from cancel [OF _ _ this] Cons.prems(1,2) Cons.IH [of zs] show ?case
    unfolding ys by (auto split: if_splits)
qed

lemma until_cancel:
  assumes "c \<notin> set s" "c \<notin> set t" "s @ c # us = t @ c # vs" shows "s = t \<and> us = vs"
  using assms
proof (induction s arbitrary: t)
  case Nil
  then show ?case by (cases t) auto
next
  case (Cons a s)
  then show ?case by (cases t) auto
qed

text \<open>
  How numbers print: different numbers print differently, with none of the characters that
  end a number in JSON.
\<close>

definition number_printing :: "(rat \<Rightarrow> string) \<Rightarrow> bool" where
  "number_printing num_text \<longleftrightarrow> inj num_text \<and> (\<forall>r. CHR '','' \<notin> set (num_text r) \<and> CHR 0x7D \<notin> set (num_text r))"

definition item_text :: "(rat \<Rightarrow> string) \<Rightarrow> OrderItem \<Rightarrow> string" where
  "item_text num_text i = json_text num_text (item_js i)"

lemma item_text_eq:
  assumes "unitPrice i = Fin u"
  shows "item_text nt i @ us = CHR 0x7B # quote_text ''productId'' @ '':'' @ quote_text (productId i) @ '','' @
    quote_text ''quantity'' @ '':'' @ nt (of_int (quantity i)) @ CHR '','' #
    quote_text ''unitPrice'' @ '':'' @ nt u @ CHR 0x7D # us"
  using assms by (simp add: item_text_def item_js_def int_js_def)

lemma item_text_cancel:
  assumes "number_printing nt" "isFinite (unitPrice i)" "isFinite (unitPrice j)" "item_text nt i @ us = item_text nt j @ vs"
  shows "i = j \<and> us = vs"
proof -
  from assms(2,3) obtain u v where uv: "unitPrice i = Fin u" "unitPrice j = Fin v"
    by (cases "unitPrice i"; cases "unitPrice j") auto
  from assms(1) have inj: "nt a = nt b \<Longrightarrow> a = b" and comma: "CHR '','' \<notin> set (nt a)" and brace: "CHR 0x7D \<notin> set (nt a)" for a b
    by (auto simp: number_printing_def inj_def)
  from assms(4) have "quote_text (productId i) @ '','' @ quote_text ''quantity'' @ '':'' @ nt (of_int (quantity i)) @ CHR '','' #
      quote_text ''unitPrice'' @ '':'' @ nt u @ CHR 0x7D # us =
    quote_text (productId j) @ '','' @ quote_text ''quantity'' @ '':'' @ nt (of_int (quantity j)) @ CHR '','' #
      quote_text ''unitPrice'' @ '':'' @ nt v @ CHR 0x7D # vs"
    unfolding item_text_eq [OF uv(1)] item_text_eq [OF uv(2)] by simp
  from quote_text_cancel [OF this] have p: "productId i = productId j"
    and "nt (of_int (quantity i)) @ CHR '','' # quote_text ''unitPrice'' @ '':'' @ nt u @ CHR 0x7D # us =
      nt (of_int (quantity j)) @ CHR '','' # quote_text ''unitPrice'' @ '':'' @ nt v @ CHR 0x7D # vs" by simp_all
  from until_cancel [OF comma comma this(2)] have q: "quantity i = quantity j"
    and "nt u @ CHR 0x7D # us = nt v @ CHR 0x7D # vs" using inj by fastforce+
  from until_cancel [OF brace brace this(2)] have "u = v" "us = vs" using inj by auto
  with p q uv show ?thesis by simp
qed

lemma canonical_text:
  "json_text nt (canonical_request r) = CHR 0x7B # quote_text ''customerId'' @ '':'' @ quote_text (cr_customerId r) @
    '','' @ quote_text ''items'' @ '':'' @ CHR ''['' # join '','' (map (item_text nt) (cr_items r)) @ CHR '']'' # [CHR 0x7D]"
  by (simp add: canonical_request_def item_text_def [abs_def] comp_def)


text \<open>A way to print numbers that qualifies: numerator, slash, denominator.\<close>

definition fraction_text :: "rat \<Rightarrow> string" where
  "fraction_text r = (let (p, q) = quotient_of r in int_text p @ CHR ''/'' # int_text q)"

lemma fraction_text_printing: "number_printing fraction_text"
proof -
  have chars: "c \<notin> set (int_text n)" if "c \<in> {CHR ''/'', CHR '','', CHR 0x7D}" for c n
    using that int_text_chars [of c n] by auto
  have "r = r'" if "fraction_text r = fraction_text r'" for r r'
  proof -
    obtain p q p' q' where q: "quotient_of r = (p, q)" "quotient_of r' = (p', q')" by fastforce
    with that have "int_text p @ CHR ''/'' # int_text q = int_text p' @ CHR ''/'' # int_text q'"
      by (simp add: fraction_text_def)
    moreover have "CHR ''/'' \<notin> set (int_text n)" for n by (rule chars) simp
    ultimately have "int_text p = int_text p' \<and> int_text q = int_text q'" by (metis until_cancel)
    then have "quotient_of r = quotient_of r'" by (simp add: q int_text_inj)
    then show ?thesis by (rule quotient_of_inject)
  qed
  moreover have "CHR '','' \<notin> set (fraction_text r) \<and> CHR 0x7D \<notin> set (fraction_text r)" for r
    by (cases "quotient_of r") (simp add: fraction_text_def chars)
  ultimately show ?thesis by (simp add: number_printing_def inj_def)
qed

lemma sample_request_valid: "valid_request sample_request"
  by (rule documented_zod.request_sound [OF _ sample_parses])
    (simp add: documented_zod_def sample_zod_def zod_lib_ref_documented)


end
