(* ===== verification/OrderStore.thy ===== *)
theory OrderStore
  imports OrderStatus OrderRequests
begin

text \<open>
  services/order-service/src/orderStore.ts and inMemoryOrderStore.ts: the persistence port of the
  Order Service, what every adapter of it promises, what follows from the promise for any
  sequence of submissions and workflow events, and the in-memory adapter.
\<close>

section \<open>The port\<close>

record NewOrder =
  no_idempotencyKey :: string
  no_requestFingerprint :: string
  no_customerId :: string
  no_items :: "OrderItem list"
  no_totalAmount :: jsnum
  no_correlationId :: string
  no_event :: OrderCreatedEvent

record StoredOrder =
  so_orderId :: string
  so_customerId :: string
  so_items :: "OrderItem list"
  so_totalAmount :: jsnum
  so_correlationId :: string
  so_status :: OrderStatus
  so_createdAt :: string
  so_updatedAt :: string

datatype SubmitOrderOutcome = SubmitCreated StoredOrder | SubmitReplayed StoredOrder | KeyReused

record OrderWorkflowEventRecord =
  we_eventId :: string
  we_eventType :: OrderWorkflowEventType
  we_orderId :: string
  we_correlationId :: string
  we_occurredAt :: string
  we_data :: js

datatype RecordWorkflowEventOutcome = EventRecorded OrderStatus | EventDuplicate int | UnknownOrder

datatype TimelineRowKind = RowAccepted | RowReplayed | RowEvent

record TimelineRow =
  tr_kind :: TimelineRowKind
  tr_eventId :: "string option"
  tr_eventType :: "string option"
  tr_occurredAt :: string
  tr_recordedAt :: string
  tr_deliveries :: int
  tr_details :: js

record OrderPublication =
  op_eventId :: string
  op_createdAt :: string
  op_publishedAt :: "string option"
  op_attempts :: int
  op_lastError :: "string option"

record OrderDetails =
  od_order :: StoredOrder
  od_timeline :: "TimelineRow list"
  od_publication :: "OrderPublication option"

definition new_orderId :: "NewOrder \<Rightarrow> string" where
  "new_orderId n = oc_orderId (event_data (no_event n))"

section \<open>What a store promises\<close>

text \<open>
  The abstract view of a store: under which key which request (by fingerprint) created which
  order, and per order its status with the workflow events recorded for it.
\<close>

record OrderBook =
  bk_keys :: "string \<Rightarrow> (string \<times> string) option"
  bk_status :: "string \<Rightarrow> OrderStatus option"
  bk_history :: "string \<Rightarrow> (string \<times> OrderWorkflowEventType) list"

definition book_submit :: "NewOrder \<Rightarrow> string \<Rightarrow> OrderBook \<Rightarrow> OrderBook" where
  "book_submit n i b = b \<lparr>bk_keys := (bk_keys b)(no_idempotencyKey n \<mapsto> (no_requestFingerprint n, i)),
     bk_status := (bk_status b)(i \<mapsto> StatusCreated), bk_history := (bk_history b)(i := [])\<rparr>"

definition book_record :: "OrderWorkflowEventRecord \<Rightarrow> string \<Rightarrow> OrderBook \<Rightarrow> OrderBook" where
  "book_record e i b = b \<lparr>
     bk_status := (bk_status b)(i := map_option (\<lambda>st. applyWorkflowEvent st (we_eventType e)) (bk_status b i)),
     bk_history := (bk_history b)(i := bk_history b i @ [(we_eventId e, we_eventType e)])\<rparr>"

text \<open>
  A call may also fail, and a failed call may have taken effect: the acknowledgement of its
  COMMIT can be lost. It never takes effect in part.
\<close>

definition submit_allowed ::
    "NewOrder \<Rightarrow> OrderBook \<Rightarrow> js_error + SubmitOrderOutcome \<Rightarrow> OrderBook \<Rightarrow> bool" where
  "submit_allowed n b r b' \<longleftrightarrow>
     (case r of
        Inr (SubmitCreated st) \<Rightarrow> bk_keys b (no_idempotencyKey n) = None \<and> bk_status b (so_orderId st) = None
          \<and> so_status st = StatusCreated \<and> b' = book_submit n (so_orderId st) b
      | Inr (SubmitReplayed st) \<Rightarrow>
          bk_keys b (no_idempotencyKey n) = Some (no_requestFingerprint n, so_orderId st)
          \<and> bk_status b (so_orderId st) = Some (so_status st) \<and> b' = b
      | Inr KeyReused \<Rightarrow>
          (\<exists>fp i. bk_keys b (no_idempotencyKey n) = Some (fp, i) \<and> fp \<noteq> no_requestFingerprint n) \<and> b' = b
      | Inl e \<Rightarrow> b' = b \<or> (\<exists>i. bk_keys b (no_idempotencyKey n) = None \<and> bk_status b i = None
          \<and> b' = book_submit n i b))"

definition record_allowed ::
    "OrderWorkflowEventRecord \<Rightarrow> string option \<Rightarrow> OrderBook \<Rightarrow> js_error + RecordWorkflowEventOutcome
      \<Rightarrow> OrderBook \<Rightarrow> bool" where
  "record_allowed e oid b r b' \<longleftrightarrow>
     (case r of
        Inr (EventRecorded st) \<Rightarrow> (\<exists>i. oid = Some i \<and> bk_status b i \<noteq> None
          \<and> we_eventId e \<notin> fst ` set (bk_history b i) \<and> b' = book_record e i b \<and> bk_status b' i = Some st)
      | Inr (EventDuplicate n) \<Rightarrow> 2 \<le> n \<and> b' = b
      | Inr UnknownOrder \<Rightarrow> (\<forall>i. oid = Some i \<longrightarrow> bk_status b i = None) \<and> b' = b
      | Inl err \<Rightarrow> b' = b \<or> (\<exists>i. oid = Some i \<and> bk_status b i \<noteq> None
          \<and> we_eventId e \<notin> fst ` set (bk_history b i) \<and> b' = book_record e i b))"

text \<open>
  The operations of a store take the surroundings of the call (clock readings, faults). \<open>canon\<close>
  reads an order id the way the store does, and \<open>fresh\<close> is what the store assumes of the ids of
  a new order.
\<close>

locale order_store =
  fixes submit :: "'c \<Rightarrow> NewOrder \<Rightarrow> ('s, SubmitOrderOutcome) io"
    and record_event :: "'c \<Rightarrow> OrderWorkflowEventRecord \<Rightarrow> ('s, RecordWorkflowEventOutcome) io"
    and book :: "'s \<Rightarrow> OrderBook"
    and inv :: "'s \<Rightarrow> bool"
    and canon :: "string \<Rightarrow> string option"
    and fresh :: "'s \<Rightarrow> NewOrder \<Rightarrow> bool"
  assumes submit_inv: "\<lbrakk>inv s; fresh s n; submit c n s = (r, s')\<rbrakk> \<Longrightarrow> inv s'"
    and submit_law: "\<lbrakk>inv s; fresh s n; submit c n s = (r, s')\<rbrakk> \<Longrightarrow> submit_allowed n (book s) r (book s')"
    and record_inv: "\<lbrakk>inv s; record_event c e s = (q, s')\<rbrakk> \<Longrightarrow> inv s'"
    and record_law: "\<lbrakk>inv s; record_event c e s = (q, s')\<rbrakk>
        \<Longrightarrow> record_allowed e (canon (we_orderId e)) (book s) q (book s')"

section \<open>What follows for the clients of any store\<close>

datatype 'c order_op = SubmitOp 'c NewOrder | RecordOp 'c OrderWorkflowEventRecord

datatype order_answer =
    SubmitAnswer NewOrder "js_error + SubmitOrderOutcome"
  | RecordAnswer OrderWorkflowEventRecord "js_error + RecordWorkflowEventOutcome"

fun run_orders ::
    "('c \<Rightarrow> NewOrder \<Rightarrow> ('s, SubmitOrderOutcome) io)
      \<Rightarrow> ('c \<Rightarrow> OrderWorkflowEventRecord \<Rightarrow> ('s, RecordWorkflowEventOutcome) io)
      \<Rightarrow> 'c order_op list \<Rightarrow> 's \<Rightarrow> order_answer list \<times> 's" where
  "run_orders submit rec [] s = ([], s)"
| "run_orders submit rec (SubmitOp c n # ops) s =
     (let (r, s') = submit c n s; (as, s'') = run_orders submit rec ops s' in (SubmitAnswer n r # as, s''))"
| "run_orders submit rec (RecordOp c e # ops) s =
     (let (q, s') = rec c e s; (as, s'') = run_orders submit rec ops s' in (RecordAnswer e q # as, s''))"

text \<open>The two steps by their components, which is how the proofs use them.\<close>

lemma run_orders_Submit:
  "run_orders submit rec (SubmitOp c n # ops) s =
     (SubmitAnswer n (fst (submit c n s)) # fst (run_orders submit rec ops (snd (submit c n s))),
      snd (run_orders submit rec ops (snd (submit c n s))))"
  by (simp add: Let_def split: prod.split)

lemma run_orders_Record:
  "run_orders submit rec (RecordOp c e # ops) s =
     (RecordAnswer e (fst (rec c e s)) # fst (run_orders submit rec ops (snd (rec c e s))),
      snd (run_orders submit rec ops (snd (rec c e s))))"
  by (simp add: Let_def split: prod.split)

lemmas run_orders_steps = run_orders.simps(1) run_orders_Submit run_orders_Record

declare run_orders.simps [simp del]
declare run_orders_steps [simp]

fun run_fresh ::
    "('c \<Rightarrow> NewOrder \<Rightarrow> ('s, SubmitOrderOutcome) io)
      \<Rightarrow> ('c \<Rightarrow> OrderWorkflowEventRecord \<Rightarrow> ('s, RecordWorkflowEventOutcome) io)
      \<Rightarrow> ('s \<Rightarrow> NewOrder \<Rightarrow> bool) \<Rightarrow> 'c order_op list \<Rightarrow> 's \<Rightarrow> bool" where
  "run_fresh submit rec fresh [] s = True"
| "run_fresh submit rec fresh (SubmitOp c n # ops) s =
     (fresh s n \<and> run_fresh submit rec fresh ops (snd (submit c n s)))"
| "run_fresh submit rec fresh (RecordOp c e # ops) s = run_fresh submit rec fresh ops (snd (rec c e s))"

text \<open>The order a successful submission answered with.\<close>

fun answered_order :: "js_error + SubmitOrderOutcome \<Rightarrow> string option" where
  "answered_order (Inr (SubmitCreated st)) = Some (so_orderId st)"
| "answered_order (Inr (SubmitReplayed st)) = Some (so_orderId st)"
| "answered_order _ = None"

text \<open>
  A consistent book: no two keys share an order, the order of a key exists, and the status of an
  order is what its recorded events make of it, each event counted once.
\<close>

definition book_ok :: "OrderBook \<Rightarrow> bool" where
  "book_ok b \<longleftrightarrow>
     (\<forall>k k' fp fp' i. bk_keys b k = Some (fp, i) \<longrightarrow> bk_keys b k' = Some (fp', i) \<longrightarrow> k = k')
   \<and> (\<forall>k fp i. bk_keys b k = Some (fp, i) \<longrightarrow> bk_status b i \<noteq> None)
   \<and> (\<forall>i st. bk_status b i = Some st \<longrightarrow>
        st = foldl applyWorkflowEvent StatusCreated (map snd (bk_history b i)) \<and> distinct (map fst (bk_history b i)))"

lemma book_ok_submit:
  assumes "book_ok b" "bk_keys b (no_idempotencyKey n) = None" "bk_status b i = None"
  shows "book_ok (book_submit n i b)"
  using assms unfolding book_ok_def book_submit_def
  by simp (metis option.distinct(1) option.inject prod.inject)

lemma book_ok_record:
  assumes "book_ok b" "we_eventId e \<notin> fst ` set (bk_history b i)"
  shows "book_ok (book_record e i b)"
  using assms by (auto simp: book_ok_def book_record_def)

lemma allowed_submit_ok: "\<lbrakk>book_ok b; submit_allowed n b r b'\<rbrakk> \<Longrightarrow> book_ok b'"
  by (auto simp: submit_allowed_def intro: book_ok_submit split: sum.splits SubmitOrderOutcome.splits)

lemma allowed_record_ok: "\<lbrakk>book_ok b; record_allowed e oid b r b'\<rbrakk> \<Longrightarrow> book_ok b'"
  by (auto simp: record_allowed_def intro: book_ok_record split: sum.splits RecordWorkflowEventOutcome.splits)

text \<open>A key once taken keeps its request and its order; so does an answered submission.\<close>

lemma allowed_submit_keeps:
  "\<lbrakk>submit_allowed n b r b'; bk_keys b k = Some x\<rbrakk> \<Longrightarrow> bk_keys b' k = Some x"
  by (auto simp: submit_allowed_def book_submit_def split: sum.splits SubmitOrderOutcome.splits)

lemma allowed_record_keeps: "record_allowed e oid b r b' \<Longrightarrow> bk_keys b' = bk_keys b"
  by (auto simp: record_allowed_def book_record_def split: sum.splits RecordWorkflowEventOutcome.splits)

lemma allowed_submit_answer:
  assumes "submit_allowed n b r b'" "answered_order r = Some i"
  shows "bk_keys b' (no_idempotencyKey n) = Some (no_requestFingerprint n, i)"
  using assms by (cases r rule: answered_order.cases) (auto simp: submit_allowed_def book_submit_def)

context order_store
begin

lemma submit_laws:
  "\<lbrakk>inv s; fresh s n\<rbrakk> \<Longrightarrow> inv (snd (submit c n s))
     \<and> submit_allowed n (book s) (fst (submit c n s)) (book (snd (submit c n s)))"
  using submit_inv [OF _ _ surjective_pairing] submit_law [OF _ _ surjective_pairing] by blast

lemma record_laws:
  "inv s \<Longrightarrow> inv (snd (record_event c e s))
     \<and> record_allowed e (canon (we_orderId e)) (book s) (fst (record_event c e s)) (book (snd (record_event c e s)))"
  using record_inv [OF _ surjective_pairing] record_law [OF _ surjective_pairing] by blast

lemma run_inv:
  "\<lbrakk>inv s; run_fresh submit record_event fresh ops s\<rbrakk> \<Longrightarrow> inv (snd (run_orders submit record_event ops s))"
proof (induction ops arbitrary: s)
  case (Cons p ops)
  then show ?case by (cases p) (auto dest: submit_laws record_laws)
qed simp

lemma run_book_ok:
  "\<lbrakk>inv s; run_fresh submit record_event fresh ops s; book_ok (book s)\<rbrakk>
    \<Longrightarrow> book_ok (book (snd (run_orders submit record_event ops s)))"
proof (induction ops arbitrary: s)
  case (Cons p ops)
  show ?case
  proof (cases p)
    case (SubmitOp c n)
    with Cons show ?thesis using submit_laws [of s n c] by (auto intro: allowed_submit_ok)
  next
    case (RecordOp c e)
    with Cons show ?thesis using record_laws [of s c e] by (auto intro: allowed_record_ok)
  qed
qed simp

lemma run_keeps_keys:
  "\<lbrakk>inv s; run_fresh submit record_event fresh ops s; bk_keys (book s) k = Some x\<rbrakk>
    \<Longrightarrow> bk_keys (book (snd (run_orders submit record_event ops s))) k = Some x"
proof (induction ops arbitrary: s)
  case (Cons p ops)
  show ?case
  proof (cases p)
    case (SubmitOp c n)
    with Cons show ?thesis using submit_laws [of s n c] by (auto intro: allowed_submit_keeps)
  next
    case (RecordOp c e)
    with Cons show ?thesis using record_laws [of s c e] by (auto dest!: allowed_record_keeps)
  qed
qed simp

lemma run_answers:
  "\<lbrakk>inv s; run_fresh submit record_event fresh ops s;
    SubmitAnswer n r \<in> set (fst (run_orders submit record_event ops s)); answered_order r = Some i\<rbrakk>
    \<Longrightarrow> bk_keys (book (snd (run_orders submit record_event ops s))) (no_idempotencyKey n)
        = Some (no_requestFingerprint n, i)"
proof (induction ops arbitrary: s)
  case (Cons p ops)
  show ?case
  proof (cases p)
    case (SubmitOp c m)
    let ?s = "snd (submit c m s)"
    from Cons.prems SubmitOp have i: "inv ?s" and f: "run_fresh submit record_event fresh ops ?s"
      and l: "submit_allowed m (book s) (fst (submit c m s)) (book ?s)"
      by (auto dest: submit_laws)
    from Cons.prems(3) SubmitOp consider "n = m" "r = fst (submit c m s)"
      | "SubmitAnswer n r \<in> set (fst (run_orders submit record_event ops ?s))" by auto
    then show ?thesis
    proof cases
      case 1
      with l Cons.prems(4) have "bk_keys (book ?s) (no_idempotencyKey n) = Some (no_requestFingerprint n, i)"
        by (auto dest: allowed_submit_answer)
      from run_keeps_keys [OF i f this] show ?thesis by (simp add: SubmitOp)
    next
      case 2
      from Cons.IH [OF i f 2 Cons.prems(4)] show ?thesis by (simp add: SubmitOp)
    qed
  next
    case (RecordOp c e)
    with Cons show ?thesis using record_laws [of s c e] by simp
  qed
qed simp

text \<open>Whatever happens in between, one key and one request stand for one order.\<close>

lemma answers_agree:
  assumes "inv s" "run_fresh submit record_event fresh ops s"
    and "SubmitAnswer n r \<in> set (fst (run_orders submit record_event ops s))" "answered_order r = Some i"
    and "SubmitAnswer m q \<in> set (fst (run_orders submit record_event ops s))" "answered_order q = Some j"
    and "no_idempotencyKey n = no_idempotencyKey m"
  shows "i = j \<and> no_requestFingerprint n = no_requestFingerprint m"
  using run_answers [OF assms(1,2,3,4)] run_answers [OF assms(1,2,5,6)] assms(7) by simp

end

section \<open>The in-memory adapter\<close>

record OrderEntry =
  oe_order :: StoredOrder
  oe_idempotencyKey :: string
  oe_requestFingerprint :: string
  oe_timeline :: "TimelineRow list"
  oe_publication :: OrderPublication

record InMemoryOrderStore =
  imo_orders :: "(string, OrderEntry) jsmap"
  imo_orderIdByKey :: "(string, string) jsmap"

definition emptyOrderStore :: InMemoryOrderStore where
  "emptyOrderStore = \<lparr>imo_orders = [], imo_orderIdByKey = []\<rparr>"

text \<open>
  The store is called with the readings \<open>now 0, now 1, ...\<close> of its clock during the call. An
  entry is an object that the code mutates in place; it is reachable through the map only.
\<close>

definition requireEntry :: "InMemoryOrderStore \<Rightarrow> string \<Rightarrow> js_error + OrderEntry" where
  "requireEntry s oid =
     (case map_get (imo_orders s) oid of
        None \<Rightarrow> Inl (JsError (''Unknown order '' @ oid @ ''.''))
      | Some entry \<Rightarrow> Inr entry)"

definition put_entry :: "string \<Rightarrow> OrderEntry \<Rightarrow> InMemoryOrderStore \<Rightarrow> InMemoryOrderStore" where
  "put_entry oid entry s = s \<lparr>imo_orders := map_set oid entry (imo_orders s)\<rparr>"

definition plain_row :: "TimelineRowKind \<Rightarrow> string \<Rightarrow> TimelineRow" where
  "plain_row kind time = \<lparr>tr_kind = kind, tr_eventId = None, tr_eventType = None, tr_occurredAt = time,
     tr_recordedAt = time, tr_deliveries = 1, tr_details = JNull\<rparr>"

definition new_stored_order :: "string \<Rightarrow> NewOrder \<Rightarrow> StoredOrder" where
  "new_stored_order time n = \<lparr>so_orderId = new_orderId n, so_customerId = no_customerId n,
     so_items = no_items n, so_totalAmount = no_totalAmount n, so_correlationId = no_correlationId n,
     so_status = StatusCreated, so_createdAt = time, so_updatedAt = time\<rparr>"

definition new_entry :: "string \<Rightarrow> NewOrder \<Rightarrow> OrderEntry" where
  "new_entry time n = \<lparr>oe_order = new_stored_order time n, oe_idempotencyKey = no_idempotencyKey n,
     oe_requestFingerprint = no_requestFingerprint n, oe_timeline = [plain_row RowAccepted time],
     oe_publication = \<lparr>op_eventId = eventId (no_event n), op_createdAt = time, op_publishedAt = None,
       op_attempts = 0, op_lastError = None\<rparr>\<rparr>"

definition imo_submitOrder ::
    "(nat \<Rightarrow> string) \<Rightarrow> NewOrder \<Rightarrow> (InMemoryOrderStore, SubmitOrderOutcome) io" where
  "imo_submitOrder now n s =
     (case map_get (imo_orderIdByKey s) (no_idempotencyKey n) of
        Some existingId \<Rightarrow>
          (case requireEntry s existingId of
             Inl e \<Rightarrow> (Inl e, s)
           | Inr existing \<Rightarrow>
               if oe_requestFingerprint existing \<noteq> no_requestFingerprint n then (Inr KeyReused, s)
               else (Inr (SubmitReplayed (oe_order existing)),
                 put_entry existingId
                   (existing \<lparr>oe_timeline := oe_timeline existing @ [plain_row RowReplayed (now 0)]\<rparr>) s))
      | None \<Rightarrow>
          (let entry = new_entry (now 0) n
           in (Inr (SubmitCreated (oe_order entry)),
               (put_entry (new_orderId n) entry s)
                 \<lparr>imo_orderIdByKey := map_set (no_idempotencyKey n) (new_orderId n) (imo_orderIdByKey s)\<rparr>)))"

definition event_row :: "string \<Rightarrow> OrderWorkflowEventRecord \<Rightarrow> TimelineRow" where
  "event_row time e = \<lparr>tr_kind = RowEvent, tr_eventId = Some (we_eventId e),
     tr_eventType = Some (eventType_text (workflow_eventType (we_eventType e))),
     tr_occurredAt = we_occurredAt e, tr_recordedAt = time, tr_deliveries = 1, tr_details = we_data e\<rparr>"

text \<open>\<open>findIndex\<close>.\<close>

fun find_index :: "('a \<Rightarrow> bool) \<Rightarrow> 'a list \<Rightarrow> nat option" where
  "find_index p [] = None"
| "find_index p (x # xs) = (if p x then Some 0 else map_option Suc (find_index p xs))"

definition imo_recordWorkflowEvent ::
    "(nat \<Rightarrow> string) \<Rightarrow> OrderWorkflowEventRecord \<Rightarrow> (InMemoryOrderStore, RecordWorkflowEventOutcome) io" where
  "imo_recordWorkflowEvent now e s =
     (case map_get (imo_orders s) (we_orderId e) of
        None \<Rightarrow> (Inr UnknownOrder, s)
      | Some entry \<Rightarrow>
          (case find_index (\<lambda>row. tr_eventId row = Some (we_eventId e)) (oe_timeline entry) of
             Some recorded \<Rightarrow>
               (let row = oe_timeline entry ! recorded;
                    deliveries = tr_deliveries row + 1
                in (Inr (EventDuplicate deliveries),
                    put_entry (we_orderId e)
                      (entry \<lparr>oe_timeline := (oe_timeline entry)[recorded := row \<lparr>tr_deliveries := deliveries\<rparr>]\<rparr>) s))
           | None \<Rightarrow>
               (let st = applyWorkflowEvent (so_status (oe_order entry)) (we_eventType e)
                in (Inr (EventRecorded st),
                    put_entry (we_orderId e)
                      (entry \<lparr>oe_timeline := oe_timeline entry @ [event_row (now 0) e],
                        oe_order := (oe_order entry) \<lparr>so_status := st, so_updatedAt := now 1\<rparr>\<rparr>) s))))"

definition imo_getOrderDetails :: "InMemoryOrderStore \<Rightarrow> string \<Rightarrow> OrderDetails option" where
  "imo_getOrderDetails s oid =
     map_option (\<lambda>entry. \<lparr>od_order = oe_order entry, od_timeline = oe_timeline entry,
       od_publication = Some (oe_publication entry)\<rparr>) (map_get (imo_orders s) oid)"

definition imo_listRecentOrders :: "InMemoryOrderStore \<Rightarrow> nat \<Rightarrow> StoredOrder list" where
  "imo_listRecentOrders s limit = take limit (rev (map oe_order (map snd (imo_orders s))))"

definition imo_markPublished :: "string \<Rightarrow> string \<Rightarrow> (InMemoryOrderStore, unit) io" where
  "imo_markPublished oid publishedAt s =
     (case requireEntry s oid of
        Inl e \<Rightarrow> (Inl e, s)
      | Inr entry \<Rightarrow> (Inr (), put_entry oid (entry \<lparr>oe_publication := (oe_publication entry)
          \<lparr>op_publishedAt := Some publishedAt, op_attempts := op_attempts (oe_publication entry) + 1\<rparr>\<rparr>) s))"

section \<open>The in-memory adapter keeps the promise\<close>

definition workflow_of_text :: "string \<Rightarrow> OrderWorkflowEventType option" where
  "workflow_of_text t = List.find (\<lambda>w. eventType_text (workflow_eventType w) = t) ORDER_WORKFLOW_EVENT_TYPES"

lemma workflow_of_text_text [simp]: "workflow_of_text (eventType_text (workflow_eventType w)) = Some w"
  by (cases w) (simp_all add: workflow_of_text_def ORDER_WORKFLOW_EVENT_TYPES_def)

definition row_event :: "TimelineRow \<Rightarrow> (string \<times> OrderWorkflowEventType) list" where
  "row_event r = (case (tr_eventId r, tr_eventType r) of
     (Some i, Some t) \<Rightarrow> (case workflow_of_text t of Some w \<Rightarrow> [(i, w)] | None \<Rightarrow> []) | _ \<Rightarrow> [])"

definition row_ok :: "TimelineRow \<Rightarrow> bool" where
  "row_ok r = (1 \<le> tr_deliveries r
     \<and> (case tr_eventId r of None \<Rightarrow> True | Some i \<Rightarrow> map fst (row_event r) = [i]))"

definition entry_ok :: "string \<Rightarrow> OrderEntry \<Rightarrow> bool" where
  "entry_ok oid en = (so_orderId (oe_order en) = oid \<and> list_all row_ok (oe_timeline en))"

definition imo_book :: "InMemoryOrderStore \<Rightarrow> OrderBook" where
  "imo_book s = \<lparr>
     bk_keys = (\<lambda>k. case map_get (imo_orderIdByKey s) k of None \<Rightarrow> None
       | Some i \<Rightarrow> map_option (\<lambda>en. (oe_requestFingerprint en, i)) (map_get (imo_orders s) i)),
     bk_status = (\<lambda>i. map_option (\<lambda>en. so_status (oe_order en)) (map_get (imo_orders s) i)),
     bk_history = (\<lambda>i. case map_get (imo_orders s) i of None \<Rightarrow> []
       | Some en \<Rightarrow> concat (map row_event (oe_timeline en)))\<rparr>"

definition imo_inv :: "InMemoryOrderStore \<Rightarrow> bool" where
  "imo_inv s \<longleftrightarrow> (\<forall>k i. map_get (imo_orderIdByKey s) k = Some i \<longrightarrow> map_get (imo_orders s) i \<noteq> None)
     \<and> (\<forall>i en. map_get (imo_orders s) i = Some en \<longrightarrow> entry_ok i en)"

definition imo_fresh :: "InMemoryOrderStore \<Rightarrow> NewOrder \<Rightarrow> bool" where
  "imo_fresh s n = (map_get (imo_orders s) (new_orderId n) = None)"

lemmas imo_defs = imo_book_def imo_inv_def imo_fresh_def put_entry_def

lemma row_event_plain [simp]: "row_event (plain_row k t) = []"
  by (simp add: row_event_def plain_row_def)

lemma row_ok_plain [simp]: "row_ok (plain_row k t)"
  by (simp add: row_ok_def plain_row_def)

lemma row_event_event [simp]: "row_event (event_row t e) = [(we_eventId e, we_eventType e)]"
  by (simp add: row_event_def event_row_def)

lemma row_ok_event [simp]: "row_ok (event_row t e)"
  unfolding row_ok_def by (simp add: event_row_def row_event_def)

lemma find_index_Some: "find_index p xs = Some i \<Longrightarrow> i < length xs \<and> p (xs ! i)"
  by (induction xs arbitrary: i) (auto split: if_splits)

lemma find_index_None: "find_index p xs = None \<longleftrightarrow> (\<forall>x \<in> set xs. \<not> p x)"
  by (induction xs) auto

lemma row_events_ids:
  "list_all row_ok rows \<Longrightarrow> fst ` set (concat (map row_event rows)) = {i. \<exists>r \<in> set rows. tr_eventId r = Some i}"
proof (induction rows)
  case (Cons r rows)
  have "fst ` set (row_event r) = {i. tr_eventId r = Some i}"
    using Cons.prems by (cases "tr_eventId r") (auto simp: row_ok_def row_event_def split: option.splits)
  with Cons show ?case by (auto simp: image_Un)
qed simp

text \<open>Counting one more delivery of a row changes neither its event nor its validity.\<close>

lemma row_event_deliveries [simp]: "row_event (r \<lparr>tr_deliveries := d\<rparr>) = row_event r"
  by (simp add: row_event_def)

lemma count_delivery_events:
  "i < length rows \<Longrightarrow> map row_event (rows[i := (rows ! i) \<lparr>tr_deliveries := d\<rparr>]) = map row_event rows"
  by (simp add: map_update list_update_same_conv)

lemma count_delivery_ok:
  "\<lbrakk>list_all row_ok rows; i < length rows; 1 \<le> d\<rbrakk> \<Longrightarrow> list_all row_ok (rows[i := (rows ! i) \<lparr>tr_deliveries := d\<rparr>])"
  by (auto simp: list_all_length nth_list_update row_ok_def split: option.split)

text \<open>Putting an entry back changes what the book says of its order, and nothing else.\<close>

lemma put_entry_effect:
  assumes "imo_inv s" "map_get (imo_orders s) i = Some en" "entry_ok i en'"
    and "oe_requestFingerprint en' = oe_requestFingerprint en"
  shows "imo_inv (put_entry i en' s) \<and> imo_book (put_entry i en' s) = (imo_book s)
    \<lparr>bk_status := (bk_status (imo_book s))(i \<mapsto> so_status (oe_order en')),
     bk_history := (bk_history (imo_book s))(i := concat (map row_event (oe_timeline en')))\<rparr>"
  using assms by (auto simp: imo_defs fun_eq_iff split: option.split)

lemma put_entry_same:
  assumes "imo_inv s" "map_get (imo_orders s) i = Some en" "entry_ok i en'"
    and "oe_requestFingerprint en' = oe_requestFingerprint en" "so_status (oe_order en') = so_status (oe_order en)"
    and "map row_event (oe_timeline en') = map row_event (oe_timeline en) @ replicate k []"
  shows "imo_inv (put_entry i en' s) \<and> imo_book (put_entry i en' s) = imo_book s"
  using put_entry_effect [OF assms(1-4)] assms(2,5,6) by (auto simp: imo_book_def fun_eq_iff)

lemma entry_ok_new: "entry_ok (new_orderId n) (new_entry time n)"
  by (simp add: entry_ok_def new_entry_def new_stored_order_def)

lemma imo_submit_effect:
  assumes "imo_inv s" "imo_fresh s n" "imo_submitOrder now n s = (r, s')"
  shows "imo_inv s' \<and> submit_allowed n (imo_book s) r (imo_book s')"
proof (cases "map_get (imo_orderIdByKey s) (no_idempotencyKey n)")
  case None
  let ?en = "new_entry (now 0) n"
  from None assms(3) have r: "r = Inr (SubmitCreated (oe_order ?en))" and s': "s' = (put_entry (new_orderId n) ?en s)
      \<lparr>imo_orderIdByKey := map_set (no_idempotencyKey n) (new_orderId n) (imo_orderIdByKey s)\<rparr>"
    by (simp_all add: imo_submitOrder_def Let_def)
  have "imo_inv s'"
    using assms(1) entry_ok_new by (simp add: s' imo_inv_def put_entry_def)
  moreover have "bk_keys (imo_book s') k = bk_keys (book_submit n (new_orderId n) (imo_book s)) k" for k
    using assms(1,2) by (fastforce simp: s' imo_defs book_submit_def new_entry_def split: option.split)
  moreover have "so_orderId (oe_order ?en) = new_orderId n" "so_status (oe_order ?en) = StatusCreated"
    "concat (map row_event (oe_timeline ?en)) = []" "oe_requestFingerprint ?en = no_requestFingerprint n"
    by (simp_all add: new_entry_def new_stored_order_def)
  ultimately show ?thesis
    using None assms(2) by (auto simp: r s' imo_defs submit_allowed_def book_submit_def fun_eq_iff)
next
  case (Some i)
  with assms(1) obtain en where en: "map_get (imo_orders s) i = Some en" "entry_ok i en"
    by (fastforce simp: imo_inv_def)
  let ?en = "en \<lparr>oe_timeline := oe_timeline en @ [plain_row RowReplayed (now 0)]\<rparr>"
  have "entry_ok i ?en" using en(2) by (simp add: entry_ok_def)
  from put_entry_same [OF assms(1) en(1) this, of 1]
  have "imo_inv (put_entry i ?en s) \<and> imo_book (put_entry i ?en s) = imo_book s" by simp
  with en Some assms(1,3) show ?thesis
    by (auto simp: imo_submitOrder_def requireEntry_def entry_ok_def submit_allowed_def imo_book_def
        split: if_splits)
qed

lemma imo_record_effect:
  assumes "imo_inv s" "imo_recordWorkflowEvent now e s = (q, s')"
  shows "imo_inv s' \<and> record_allowed e (Some (we_orderId e)) (imo_book s) q (imo_book s')"
proof (cases "map_get (imo_orders s) (we_orderId e)")
  case None
  with assms show ?thesis
    by (auto simp: imo_recordWorkflowEvent_def record_allowed_def imo_book_def)
next
  case (Some en)
  with assms(1) have ok: "entry_ok (we_orderId e) en" by (simp add: imo_inv_def)
  let ?hit = "find_index (\<lambda>row. tr_eventId row = Some (we_eventId e)) (oe_timeline en)"
  show ?thesis
  proof (cases ?hit)
    case None
    then have new: "we_eventId e \<notin> fst ` set (concat (map row_event (oe_timeline en)))"
      using ok by (simp only: entry_ok_def row_events_ids) (auto simp: find_index_None)
    let ?st = "applyWorkflowEvent (so_status (oe_order en)) (we_eventType e)"
    let ?en = "en \<lparr>oe_timeline := oe_timeline en @ [event_row (now 0) e],
      oe_order := (oe_order en) \<lparr>so_status := ?st, so_updatedAt := now 1\<rparr>\<rparr>"
    from assms(2) None Some have run: "q = Inr (EventRecorded ?st)" "s' = put_entry (we_orderId e) ?en s"
      by (simp_all add: imo_recordWorkflowEvent_def Let_def)
    have "entry_ok (we_orderId e) ?en" using ok by (simp add: entry_ok_def)
    from put_entry_effect [OF assms(1) Some this] new Some show ?thesis
      by (auto simp: run record_allowed_def book_record_def imo_book_def fun_eq_iff)
  next
    case hit: (Some j)
    let ?row = "oe_timeline en ! j"
    let ?en = "en \<lparr>oe_timeline := (oe_timeline en)[j := ?row \<lparr>tr_deliveries := tr_deliveries ?row + 1\<rparr>]\<rparr>"
    from find_index_Some [OF hit] have j: "j < length (oe_timeline en)" by simp
    with ok have d: "1 \<le> tr_deliveries ?row" by (simp add: entry_ok_def row_ok_def list_all_length)
    from assms(2) hit Some have run: "q = Inr (EventDuplicate (tr_deliveries ?row + 1))" "s' = put_entry (we_orderId e) ?en s"
      by (simp_all add: imo_recordWorkflowEvent_def Let_def)
    have "entry_ok (we_orderId e) ?en" using ok d j by (simp add: entry_ok_def count_delivery_ok)
    from put_entry_same [OF assms(1) Some this, of 0]
    have "imo_inv (put_entry (we_orderId e) ?en s) \<and> imo_book (put_entry (we_orderId e) ?en s) = imo_book s"
      by (simp add: count_delivery_events [OF j])
    with d show ?thesis by (simp add: run record_allowed_def)
  qed
qed

interpretation imo: order_store imo_submitOrder imo_recordWorkflowEvent imo_book imo_inv Some imo_fresh
  by unfold_locales (blast dest: imo_submit_effect imo_record_effect)+

end
