(* ===== verification/OrderTimeline.thy ===== *)
theory OrderTimeline
  imports OrderStore Outbox
begin

text \<open>
  services/order-service/src/orderTimeline.ts: the timeline that GET /orders/:orderId returns,
  built from the stored history of an order. \<open>Date.parse\<close> is a parameter (\<open>None\<close> is NaN).
\<close>

section \<open>Entries\<close>

datatype TimelineEntryKind =
    EntryAccepted
  | EntryReplayed
  | EntryPublished
  | EntryPublicationPending
  | EntryEvent

datatype EntryOutcome = EntrySuccess | EntryFailure | EntryInfo | EntryWaiting

record TimelineEntry =
  te_kind :: TimelineEntryKind
  te_at :: string
  te_service :: string
  te_title :: string
  te_description :: string
  te_eventType :: "string option"
  te_eventId :: "string option"
  te_simulated :: bool
  te_deliveries :: int
  te_producerTime :: "string option"
  te_outcome :: EntryOutcome

record OrderTimelineView =
  tv_order :: StoredOrder
  tv_outcome :: OrderOutcome
  tv_summary :: string
  tv_entries :: "TimelineEntry list"

definition PRODUCERS :: "string \<Rightarrow> string option" where
  "PRODUCERS = map_of
     [(''PaymentAuthorized'', ''payment-service''), (''InventoryReserved'', ''inventory-service''),
      (''InventoryReservationFailed'', ''inventory-service''), (''DeliveryBooked'', ''delivery-service'')]"

text \<open>\<open>value.toFixed(2)\<close> as text.\<close>

definition toFixed2_text :: "(rat \<Rightarrow> string) \<Rightarrow> jsnum \<Rightarrow> string" where
  "toFixed2_text num_text n =
     (case n of
        Fin r \<Rightarrow>
          if 10 ^ 21 \<le> \<bar>r\<bar> then num_text r
          else (let h = hundredths \<bar>r\<bar>
                in (if r < 0 then ''-'' else []) @ int_text (h div 100) @ ''.'' @
                   [digit_char (nat (h mod 100 div 10)), digit_char (nat (h mod 10))])
      | _ \<Rightarrow> String_of num_text (JNum n))"

definition formatAmount :: "(rat \<Rightarrow> string) \<Rightarrow> js \<Rightarrow> string" where
  "formatAmount num_text v = (case v of JNum n \<Rightarrow> toFixed2_text num_text n | _ \<Rightarrow> ''?'')"

definition text_or_mark :: "js \<Rightarrow> string" where
  "text_or_mark v = (case v of JStr s \<Rightarrow> if 0 < length s then s else ''?'' | _ \<Rightarrow> ''?'')"

definition option_or :: "'a \<Rightarrow> 'a option \<Rightarrow> 'a" where
  "option_or d x = (case x of None \<Rightarrow> d | Some y \<Rightarrow> y)"

definition toEventEntry :: "(rat \<Rightarrow> string) \<Rightarrow> TimelineRow \<Rightarrow> TimelineEntry" where
  "toEventEntry num_text row =
     (let data = (if isRecord (tr_details row) then tr_details row else JObj []);
          base = \<lparr>te_kind = EntryEvent, te_at = tr_recordedAt row,
            te_service = option_or ''unknown'' (PRODUCERS (option_or [] (tr_eventType row))),
            te_title = option_or ''Event'' (tr_eventType row), te_description = [],
            te_eventType = tr_eventType row, te_eventId = tr_eventId row, te_simulated = False,
            te_deliveries = tr_deliveries row, te_producerTime = Some (tr_occurredAt row),
            te_outcome = EntryInfo\<rparr>;
          field = (\<lambda>k. text_or_mark (js_get data k))
      in if tr_eventType row = Some ''PaymentAuthorized'' then
           base \<lparr>te_title := ''Payment authorized'',
             te_description := ''Payment '' @ field ''paymentId'' @ '' for '' @
               formatAmount num_text (js_get data ''amount'') @ ''. '' @
               ''Simulated: the Payment Service always authorizes.'',
             te_simulated := True, te_outcome := EntrySuccess\<rparr>
         else if tr_eventType row = Some ''InventoryReserved'' then
           base \<lparr>te_title := ''Stock reserved'',
             te_description := ''Reservation '' @ field ''reservationId'' @ '' committed in PostgreSQL '' @
               ''together with this event (transactional outbox).'',
             te_outcome := EntrySuccess\<rparr>
         else if tr_eventType row = Some ''InventoryReservationFailed'' then
           base \<lparr>te_title := ''Stock reservation failed'',
             te_description := field ''reason'' @ '' The payment is not refunded: there is no '' @
               ''compensating step (no saga) in this project.'',
             te_outcome := EntryFailure\<rparr>
         else if tr_eventType row = Some ''DeliveryBooked'' then
           base \<lparr>te_title := ''Delivery booked'',
             te_description := ''Carrier '' @ field ''carrier'' @ '', estimated '' @
               field ''estimatedDeliveryDate'' @ ''. '' @ ''Simulated: no carrier is contacted.'',
             te_simulated := True, te_outcome := EntrySuccess\<rparr>
         else base)"

definition toEntry :: "(rat \<Rightarrow> string) \<Rightarrow> StoredOrder \<Rightarrow> TimelineRow \<Rightarrow> TimelineEntry" where
  "toEntry num_text order row =
     (let base = \<lparr>te_kind = EntryAccepted, te_at = tr_occurredAt row, te_service = ''order-service'',
            te_title = ''Order accepted'',
            te_description = ''POST /orders answered 201. The order and its OrderCreated event were '' @
              ''stored in one PostgreSQL transaction (total '' @
              formatAmount num_text (JNum (so_totalAmount order)) @ '').'',
            te_eventType = None, te_eventId = None, te_simulated = False, te_deliveries = 1,
            te_producerTime = None, te_outcome = EntrySuccess\<rparr>
      in case tr_kind row of
           RowAccepted \<Rightarrow> base
         | RowReplayed \<Rightarrow> base \<lparr>te_kind := EntryReplayed,
             te_title := ''Retry answered from the stored order'',
             te_description := ''The same Idempotency-Key and request were sent again. The original order '' @
               ''was returned (200); no second order or event was created.'',
             te_outcome := EntryInfo\<rparr>
         | RowEvent \<Rightarrow> toEventEntry num_text row)"

definition publication_entries :: "OrderPublication option \<Rightarrow> TimelineEntry list" where
  "publication_entries publication =
     (case publication of
        None \<Rightarrow> []
      | Some p \<Rightarrow>
          (let base = \<lparr>te_kind = EntryPublicationPending, te_at = op_createdAt p, te_service = ''order-service'',
                 te_title = ''OrderCreated waiting in the outbox'',
                 te_description = (case op_lastError p of
                     Some err \<Rightarrow>
                       (if err \<noteq> [] then ''Not yet confirmed by the broker (attempt '' @ int_text (op_attempts p) @
                          ''): '' @ err @ ''. The relay keeps retrying; the order is safe.''
                        else ''Stored with the order; the outbox relay publishes it shortly.'')
                   | None \<Rightarrow> ''Stored with the order; the outbox relay publishes it shortly.''),
                 te_eventType = Some ''OrderCreated'', te_eventId = Some (op_eventId p), te_simulated = False,
                 te_deliveries = 1, te_producerTime = None, te_outcome = EntryWaiting\<rparr>;
               published = (\<lambda>time. base \<lparr>te_kind := EntryPublished, te_at := time,
                 te_title := ''OrderCreated confirmed by RabbitMQ'',
                 te_description := ''The outbox relay published the event and the broker confirmed and '' @
                   ''routed it'' @ (if 1 < op_attempts p then '' after '' @ int_text (op_attempts p) @ '' attempts.''
                     else ''.''),
                 te_outcome := EntrySuccess\<rparr>)
           in case op_publishedAt p of
                Some time \<Rightarrow> if time \<noteq> [] then [published time] else [base]
              | None \<Rightarrow> [base]))"

section \<open>The order of the entries\<close>

definition STAGE_BY_EVENT_TYPE :: "string \<Rightarrow> int option" where
  "STAGE_BY_EVENT_TYPE = map_of
     [(''PaymentAuthorized'', 2), (''InventoryReserved'', 3), (''InventoryReservationFailed'', 3), (''DeliveryBooked'', 4)]"

definition entry_stage :: "TimelineEntry \<Rightarrow> int" where
  "entry_stage e =
     (case te_kind e of
        EntryAccepted \<Rightarrow> 0
      | EntryPublished \<Rightarrow> 1
      | EntryPublicationPending \<Rightarrow> 1
      | EntryEvent \<Rightarrow> option_or 5 (STAGE_BY_EVENT_TYPE (option_or [] (te_eventType e)))
      | EntryReplayed \<Rightarrow> - 1)"

text \<open>A difference with NaN is NaN, which sorts as 0 and is falsy; a comparison with NaN is false.\<close>

definition byTime :: "(string \<Rightarrow> int option) \<Rightarrow> TimelineEntry \<Rightarrow> TimelineEntry \<Rightarrow> int" where
  "byTime date_parse left right =
     (case (date_parse (te_at left), date_parse (te_at right)) of (Some l, Some r) \<Rightarrow> l - r | _ \<Rightarrow> 0)"

definition before :: "(string \<Rightarrow> int option) \<Rightarrow> TimelineEntry \<Rightarrow> TimelineEntry \<Rightarrow> bool" where
  "before date_parse left right =
     (case (date_parse (te_at left), date_parse (te_at right)) of (Some l, Some r) \<Rightarrow> l < r | _ \<Rightarrow> False)"

definition byStage :: "(string \<Rightarrow> int option) \<Rightarrow> TimelineEntry \<Rightarrow> TimelineEntry \<Rightarrow> int" where
  "byStage date_parse left right =
     (if entry_stage left - entry_stage right \<noteq> 0 then entry_stage left - entry_stage right
      else byTime date_parse left right)"

text \<open>
  The loop over the steps: \<open>while\<close> takes the retries observed before a step off the queue, the
  first step excepted.
\<close>

fun place_retries ::
    "(string \<Rightarrow> int option) \<Rightarrow> nat \<Rightarrow> TimelineEntry list \<Rightarrow> TimelineEntry list \<Rightarrow> TimelineEntry list" where
  "place_retries date_parse index [] retries = retries"
| "place_retries date_parse index (step # steps) retries =
     (if 0 < index then
        takeWhile (\<lambda>r. before date_parse r step) retries @ step #
          place_retries date_parse (index + 1) steps (dropWhile (\<lambda>r. before date_parse r step) retries)
      else step # place_retries date_parse (index + 1) steps retries)"

definition is_retry :: "TimelineEntry \<Rightarrow> bool" where
  "is_retry e = (te_kind e = EntryReplayed)"

definition orderCausally :: "(string \<Rightarrow> int option) \<Rightarrow> TimelineEntry list \<Rightarrow> TimelineEntry list" where
  "orderCausally date_parse entries =
     place_retries date_parse 0
       (sort_by (byStage date_parse) (filter (\<lambda>e. \<not> is_retry e) entries))
       (sort_by (byTime date_parse) (filter is_retry entries))"

section \<open>The view\<close>

fun describeStatus :: "OrderStatus \<Rightarrow> string" where
  "describeStatus StatusCreated = ''waiting for the payment''"
| "describeStatus (StatusOf WfPaymentAuthorized) = ''payment authorized, waiting for the stock reservation''"
| "describeStatus (StatusOf WfInventoryReserved) = ''stock reserved, waiting for the delivery booking''"
| "describeStatus (StatusOf w) = order_status_text (StatusOf w)"

fun summarize :: "StoredOrder \<Rightarrow> OrderOutcome \<Rightarrow> string" where
  "summarize order Completed =
     ''Completed: payment authorized (simulated), stock reserved and delivery booked (simulated).''"
| "summarize order Failed = ''Failed: the stock could not be reserved. The simulated payment is not refunded.''"
| "summarize order InProgress = ''In progress: '' @ describeStatus (so_status order) @ ''.''"

definition timeline_entries :: "(rat \<Rightarrow> string) \<Rightarrow> OrderDetails \<Rightarrow> TimelineEntry list" where
  "timeline_entries num_text details =
     map (toEntry num_text (od_order details)) (od_timeline details) @ publication_entries (od_publication details)"

definition buildOrderTimeline ::
    "(rat \<Rightarrow> string) \<Rightarrow> (string \<Rightarrow> int option) \<Rightarrow> OrderDetails \<Rightarrow> OrderTimelineView" where
  "buildOrderTimeline num_text date_parse details =
     (let outcome = getOrderOutcome (so_status (od_order details))
      in \<lparr>tv_order = od_order details, tv_outcome = outcome, tv_summary = summarize (od_order details) outcome,
          tv_entries = orderCausally date_parse (timeline_entries num_text details)\<rparr>)"

section \<open>Facts about the order\<close>

lemma set_sort_by [simp]: "set (sort_by cmp xs) = set xs"
  by (metis mset_sort_by set_mset_mset)

lemma sorted_wrt_insert_by:
  assumes tot: "\<And>x y. \<lbrakk>x \<in> S; y \<in> S\<rbrakk> \<Longrightarrow> cmp x y \<le> 0 \<or> cmp y x \<le> (0 :: int)"
    and trans: "\<And>x y z. \<lbrakk>x \<in> S; y \<in> S; z \<in> S; cmp x y \<le> 0; cmp y z \<le> 0\<rbrakk> \<Longrightarrow> cmp x z \<le> 0"
  shows "\<lbrakk>x \<in> S; set xs \<subseteq> S; sorted_wrt (\<lambda>a b. cmp a b \<le> 0) xs\<rbrakk> \<Longrightarrow> sorted_wrt (\<lambda>a b. cmp a b \<le> 0) (insert_by cmp x xs)"
proof (induction xs)
  case (Cons y ys)
  have "set (insert_by cmp x ys) = insert x (set ys)"
    using mset_insert_by [of cmp x ys] by (metis set_mset_add_mset_insert set_mset_mset)
  with Cons tot [of x y] show ?case by (auto intro: trans [of x y])
qed simp

lemma sorted_wrt_sort_by:
  assumes "\<And>x y. \<lbrakk>x \<in> S; y \<in> S\<rbrakk> \<Longrightarrow> cmp x y \<le> 0 \<or> cmp y x \<le> (0 :: int)"
    and "\<And>x y z. \<lbrakk>x \<in> S; y \<in> S; z \<in> S; cmp x y \<le> 0; cmp y z \<le> 0\<rbrakk> \<Longrightarrow> cmp x z \<le> 0"
  shows "set xs \<subseteq> S \<Longrightarrow> sorted_wrt (\<lambda>a b. cmp a b \<le> 0) (sort_by cmp xs)"
proof (induction xs)
  case (Cons x xs)
  have "sort_by cmp (x # xs) = insert_by cmp x (sort_by cmp xs)" by (simp add: sort_by_def)
  with Cons show ?case by (simp add: sorted_wrt_insert_by [OF assms, of S])
qed (simp add: sort_by_def)

definition dated :: "(string \<Rightarrow> int option) \<Rightarrow> TimelineEntry \<Rightarrow> bool" where
  "dated date_parse e = (date_parse (te_at e) \<noteq> None)"

lemma byTime_dated:
  "\<lbrakk>dated p x; dated p y\<rbrakk> \<Longrightarrow> byTime p x y = the (p (te_at x)) - the (p (te_at y))"
  "\<lbrakk>dated p x; dated p y\<rbrakk> \<Longrightarrow> before p x y \<longleftrightarrow> the (p (te_at x)) < the (p (te_at y))"
  by (auto simp: byTime_def before_def dated_def)

lemma sorted_retries:
  assumes "list_all (dated p) xs"
  shows "sorted_wrt (\<lambda>a b. byTime p a b \<le> 0) (sort_by (byTime p) xs)"
  using assms by (intro sorted_wrt_sort_by [of "Collect (dated p)"]) (auto simp: byTime_dated list_all_iff)

lemma sorted_steps:
  assumes "list_all (dated p) xs"
  shows "sorted (map entry_stage (sort_by (byStage p) xs))"
proof -
  have "sorted_wrt (\<lambda>a b. byStage p a b \<le> 0) (sort_by (byStage p) xs)"
    using assms
    by (intro sorted_wrt_sort_by [of "Collect (dated p)"])
      (auto simp: byStage_def byTime_dated list_all_iff split: if_splits)
  then have "sorted_wrt (\<lambda>a b. entry_stage a \<le> entry_stage b) (sort_by (byStage p) xs)"
    by (rule sorted_wrt_mono_rel [rotated]) (auto simp: byStage_def split: if_splits)
  then show ?thesis by (simp add: sorted_map)
qed

lemma place_retries_parts:
  assumes "list_all (\<lambda>e. \<not> is_retry e) steps" "list_all is_retry retries"
  shows "filter (\<lambda>e. \<not> is_retry e) (place_retries p i steps retries) = steps
    \<and> filter is_retry (place_retries p i steps retries) = retries"
  using assms
proof (induction p i steps retries rule: place_retries.induct)
  case (2 p i step steps retries)
  let ?early = "takeWhile (\<lambda>r. before p r step) retries" and ?late = "dropWhile (\<lambda>r. before p r step) retries"
  have "list_all is_retry ?early" "list_all is_retry ?late"
    using 2(4) by (auto simp: list_all_iff dest: set_takeWhileD set_dropWhileD)
  moreover from this have "filter is_retry ?early = ?early" "filter (\<lambda>e. \<not> is_retry e) ?early = []"
    by (simp_all add: list_all_iff filter_id_conv filter_empty_conv)
  ultimately show ?case using 2 by simp
qed (auto simp: list_all_iff filter_id_conv filter_empty_conv)

text \<open>After a step that is not the first, no retry follows that was observed before it.\<close>

definition after_step :: "(string \<Rightarrow> int option) \<Rightarrow> TimelineEntry \<Rightarrow> TimelineEntry \<Rightarrow> bool" where
  "after_step p a b = (\<not> is_retry a \<longrightarrow> is_retry b \<longrightarrow> \<not> before p b a)"

lemma late_retries:
  assumes "sorted_wrt (\<lambda>a b. byTime p a b \<le> 0) retries" "list_all (dated p) retries" "dated p step"
    and "r \<in> set (dropWhile (\<lambda>r. before p r step) retries)"
  shows "\<not> before p r step"
  using assms
proof (induction retries)
  case (Cons q retries)
  show ?case
  proof (cases "before p q step")
    case True
    with Cons show ?thesis by simp
  next
    case False
    with Cons.prems show ?thesis by (auto simp: byTime_dated list_all_iff)
  qed
qed simp

lemma place_retries_ordered:
  assumes "0 < i" "list_all (\<lambda>e. \<not> is_retry e) steps" "list_all is_retry retries"
    and "list_all (dated p) steps" "list_all (dated p) retries" "sorted_wrt (\<lambda>a b. byTime p a b \<le> 0) retries"
  shows "sorted_wrt (after_step p) (place_retries p i steps retries)"
  using assms
proof (induction p i steps retries rule: place_retries.induct)
  case (1 p i retries)
  then show ?case by (auto simp: sorted_wrt_iff_nth_less after_step_def list_all_length)
next
  case (2 p i step steps retries)
  let ?early = "takeWhile (\<lambda>r. before p r step) retries" and ?late = "dropWhile (\<lambda>r. before p r step) retries"
  let ?rest = "place_retries p (i + 1) steps ?late"
  have early: "list_all is_retry ?early" and late: "list_all is_retry ?late" "list_all (dated p) ?late"
    "sorted_wrt (\<lambda>a b. byTime p a b \<le> 0) ?late"
    using 2(5,7,8) sorted_wrt_dropWhile by (auto simp: list_all_iff dest: set_takeWhileD set_dropWhileD)
  have "sorted_wrt (after_step p) ?rest" using 2(1) [OF _ _ _ late(1) _ late(2,3)] 2(3-8) by simp
  moreover have "after_step p step b" if "b \<in> set ?rest" for b
  proof -
    have "filter is_retry ?rest = ?late" using 2(4) late(1) place_retries_parts [of steps ?late p "i + 1"] by simp
    then have "set (filter is_retry ?rest) = set ?late" by (rule arg_cong)
    with that have "is_retry b \<Longrightarrow> b \<in> set ?late" unfolding set_filter by blast
    moreover have "dated p step" using 2(6) by simp
    ultimately have "is_retry b \<Longrightarrow> \<not> before p b step" by (rule late_retries [OF 2(8,7), rotated])
    then show ?thesis by (simp add: after_step_def)
  qed
  moreover have "sorted_wrt (after_step p) ?early" "\<And>a b. a \<in> set ?early \<Longrightarrow> after_step p a b"
    using early by (auto simp: sorted_wrt_iff_nth_less after_step_def list_all_iff)
  ultimately show ?case using 2(3) by (simp add: sorted_wrt_append)
qed

lemma orderCausally_parts:
  "filter (\<lambda>e. \<not> is_retry e) (orderCausally p es) = sort_by (byStage p) (filter (\<lambda>e. \<not> is_retry e) es)
   \<and> filter is_retry (orderCausally p es) = sort_by (byTime p) (filter is_retry es)"
  unfolding orderCausally_def by (intro place_retries_parts) (simp_all add: list_all_iff)

lemma orderCausally_mset: "mset (orderCausally p es) = mset es"
proof -
  have split: "mset xs = mset (filter is_retry xs) + mset (filter (\<lambda>e. \<not> is_retry e) xs)" for xs
    by (induction xs) auto
  show ?thesis
    using orderCausally_parts [of p es] split [of es] split [of "orderCausally p es"] by simp
qed

lemma entry_stage_nonneg: "\<not> is_retry e \<Longrightarrow> 0 \<le> entry_stage e"
  by (auto simp: entry_stage_def is_retry_def option_or_def STAGE_BY_EVENT_TYPE_def
      split: TimelineEntryKind.split option.split)

lemma entry_stage_zero: "\<not> is_retry e \<Longrightarrow> entry_stage e = 0 \<longleftrightarrow> te_kind e = EntryAccepted"
  by (auto simp: entry_stage_def is_retry_def option_or_def STAGE_BY_EVENT_TYPE_def
      split: TimelineEntryKind.split option.split)

lemma orderCausally_shape:
  assumes "list_all (dated p) es" "\<exists>e \<in> set es. te_kind e = EntryAccepted"
  obtains first rest where "orderCausally p es = first # rest" "te_kind first = EntryAccepted" "sorted_wrt (after_step p) rest"
proof -
  let ?steps = "sort_by (byStage p) (filter (\<lambda>e. \<not> is_retry e) es)"
  let ?retries = "sort_by (byTime p) (filter is_retry es)"
  have d: "list_all (dated p) (filter (\<lambda>e. \<not> is_retry e) es)" "list_all (dated p) (filter is_retry es)"
    using assms(1) by (auto simp: list_all_iff)
  from assms(2) obtain e where e: "e \<in> set ?steps" "te_kind e = EntryAccepted" by (auto simp: is_retry_def)
  then obtain first steps where steps: "?steps = first # steps" by (cases ?steps) auto
  have "e \<in> set (first # steps)" using e(1) by (simp only: steps)
  with sorted_steps [OF d(1), unfolded steps] have "entry_stage first \<le> entry_stage e" by auto
  moreover have "entry_stage e = 0" using e(2) by (simp add: entry_stage_def)
  ultimately have stage: "entry_stage first \<le> 0" by simp
  have "set (first # steps) \<subseteq> set (filter (\<lambda>e. \<not> is_retry e) es)" by (simp flip: steps)
  then have rest: "\<not> is_retry first" "set steps \<subseteq> set (filter (\<lambda>e. \<not> is_retry e) es)" by simp_all
  from entry_stage_nonneg [OF rest(1)] entry_stage_zero [OF rest(1)] stage have "te_kind first = EntryAccepted" by linarith
  moreover from rest(2) have "list_all (\<lambda>e. \<not> is_retry e) steps" "list_all (dated p) steps"
    using d(1) by (auto simp: list_all_iff)
  then have "sorted_wrt (after_step p) (place_retries p (0 + 1) steps ?retries)"
    using d(2) sorted_retries [OF d(2)] by (intro place_retries_ordered) (simp_all add: list_all_iff)
  moreover have "orderCausally p es = first # place_retries p (0 + 1) steps ?retries"
    by (simp add: orderCausally_def steps)
  ultimately show ?thesis using that by blast
qed

text \<open>
  C20: the timeline shows what happened, in causal order. Every recorded row and the publication
  appear exactly once; an order with its Accepted row starts with it; the other steps follow in
  workflow stage order; retries follow in the order they were received, and none stands behind a
  later step that was observed after it.
\<close>

theorem timeline_in_causal_order:
  assumes "list_all (dated p) (timeline_entries num_text details)"
    and "\<exists>row \<in> set (od_timeline details). tr_kind row = RowAccepted"
  shows "let es = tv_entries (buildOrderTimeline num_text p details)
    in mset es = mset (timeline_entries num_text details)
     \<and> sorted (map entry_stage (filter (\<lambda>e. \<not> is_retry e) es))
     \<and> sorted_wrt (\<lambda>a b. \<not> before p b a) (filter is_retry es)
     \<and> (\<exists>first rest. es = first # rest \<and> te_kind first = EntryAccepted \<and> sorted_wrt (after_step p) rest)"
proof -
  let ?es = "timeline_entries num_text details"
  from assms(2) obtain row where "row \<in> set (od_timeline details)" "tr_kind row = RowAccepted" by blast
  then have "toEntry num_text (od_order details) row \<in> set ?es" by (auto simp: timeline_entries_def)
  moreover have "te_kind (toEntry num_text (od_order details) row) = EntryAccepted"
    using \<open>tr_kind row = RowAccepted\<close> by (simp add: toEntry_def Let_def)
  ultimately obtain first rest
    where shape: "orderCausally p ?es = first # rest" "te_kind first = EntryAccepted" "sorted_wrt (after_step p) rest"
    using orderCausally_shape [OF assms(1)] by metis
  have d: "list_all (dated p) (filter (\<lambda>e. \<not> is_retry e) ?es)" "list_all (dated p) (filter is_retry ?es)"
    using assms(1) by (auto simp: list_all_iff)
  have "sorted_wrt (\<lambda>a b. \<not> before p b a) (sort_by (byTime p) (filter is_retry ?es))"
    using d(2) by (intro sorted_wrt_mono_rel [OF _ sorted_retries [OF d(2)]]) (auto simp: byTime_dated list_all_iff)
  then show ?thesis
    using orderCausally_mset [of p ?es] orderCausally_parts [of p ?es] sorted_steps [OF d(1)] shape
    by (auto simp: buildOrderTimeline_def Let_def)
qed

definition sample_date :: "string \<Rightarrow> int option" where
  "sample_date s = (case s of [c] \<Rightarrow> Some (of_char c) | _ \<Rightarrow> None)"

definition sample_details :: OrderDetails where
  "sample_details =
     \<lparr>od_order = \<lparr>so_orderId = ''o'', so_customerId = ''c'', so_items = [], so_totalAmount = Fin 10, so_correlationId = ''x'',
        so_status = StatusOf WfPaymentAuthorized, so_createdAt = ''1'', so_updatedAt = ''4''\<rparr>,
      od_timeline =
        [plain_row RowAccepted ''1'', plain_row RowReplayed ''3'',
         \<lparr>tr_kind = RowEvent, tr_eventId = Some ''e'', tr_eventType = Some ''PaymentAuthorized'', tr_occurredAt = ''0'',
          tr_recordedAt = ''4'', tr_deliveries = 1, tr_details = JObj [(''paymentId'', JStr ''p''), (''amount'', JNum (Fin 10))]\<rparr>,
         plain_row RowReplayed ''2''],
      od_publication = Some \<lparr>op_eventId = ''oe'', op_createdAt = ''1'', op_publishedAt = Some ''5'', op_attempts = 2, op_lastError = None\<rparr>\<rparr>"

theorem timeline_in_causal_order_witness:
  "map te_at (tv_entries (buildOrderTimeline (\<lambda>_. []) sample_date sample_details)) = [''1'', ''2'', ''3'', ''5'', ''4'']
   \<and> mset (tv_entries (buildOrderTimeline (\<lambda>_. []) sample_date sample_details))
     = mset (timeline_entries (\<lambda>_. []) sample_details)"
proof -
  have "list_all (dated sample_date) (timeline_entries (\<lambda>_. []) sample_details)"
    "\<exists>row \<in> set (od_timeline sample_details). tr_kind row = RowAccepted" by code_simp+
  from timeline_in_causal_order [OF this]
  have "mset (tv_entries (buildOrderTimeline (\<lambda>_. []) sample_date sample_details))
     = mset (timeline_entries (\<lambda>_. []) sample_details)" unfolding Let_def by blast
  moreover have "map te_at (tv_entries (buildOrderTimeline (\<lambda>_. []) sample_date sample_details)) = [''1'', ''2'', ''3'', ''5'', ''4'']"
    by code_simp
  ultimately show ?thesis by blast
qed

end
