(* ===== verification/PostgresOrders.thy ===== *)
theory PostgresOrders
  imports OrderStore PostgresInventory
begin

text \<open>
  services/order-service/src/postgresOrderStore.ts with the tables of migrations.ts: the
  PostgreSQL adapter of the order port, statement by statement, the proof that it keeps the
  promise of the port, and what it promises beyond it: the order, its OrderCreated event and its
  first timeline row are one unit.
\<close>

section \<open>The tables\<close>

record OrderRow =
  ow_orderId :: string
  ow_idempotencyKey :: string
  ow_requestFingerprint :: string
  ow_customerId :: string
  ow_items :: js
  ow_totalAmount :: jsnum
  ow_correlationId :: string
  ow_createdEventId :: string
  ow_status :: string
  ow_createdAt :: int
  ow_updatedAt :: int

record TimelineDatabaseRow =
  tw_orderId :: string
  tw_kind :: TimelineRowKind
  tw_eventId :: "string option"
  tw_eventType :: "string option"
  tw_occurredAt :: int
  tw_recordedAt :: int
  tw_deliveries :: int
  tw_details :: js

text \<open>Rows stand in the order of their identity column.\<close>

record OrderDb =
  pdb_orders :: "OrderRow list"
  pdb_timeline :: "TimelineDatabaseRow list"
  pdb_outbox :: OutboxTable

text \<open>
  Reading and writing times is the driver's and the database's work: which instant a text
  denotes for TIMESTAMPTZ, to which instant the driver's \<open>Date\<close> rounds a stored one, and how
  \<open>toISOString\<close> prints that. Instants are microseconds.
\<close>

record time_lib =
  tl_timestamptz :: "string \<Rightarrow> int option"
  tl_date :: "int \<Rightarrow> int"
  tl_toISOString :: "int \<Rightarrow> string"

definition row_time :: "time_lib \<Rightarrow> int \<Rightarrow> string" where
  "row_time tm t = tl_toISOString tm (tl_date tm t)"

section \<open>Reading rows\<close>

text \<open>
  \<open>total_amount\<close> is NUMERIC and read back with \<open>Number(text)\<close>: the text of a number denotes
  that number, so the column holds the number that was sent.
\<close>

definition toStoredOrder :: "time_lib \<Rightarrow> OrderRow \<Rightarrow> StoredOrder" where
  "toStoredOrder tm row = \<lparr>so_orderId = ow_orderId row, so_customerId = ow_customerId row,
     so_items = read_list read_item (ow_items row), so_totalAmount = ow_totalAmount row,
     so_correlationId = ow_correlationId row,
     so_status = (case status_of_text (ow_status row) of Some st \<Rightarrow> st | None \<Rightarrow> StatusCreated),
     so_createdAt = row_time tm (ow_createdAt row), so_updatedAt = row_time tm (ow_updatedAt row)\<rparr>"

definition toTimelineRow :: "time_lib \<Rightarrow> TimelineDatabaseRow \<Rightarrow> TimelineRow" where
  "toTimelineRow tm row = \<lparr>tr_kind = tw_kind row, tr_eventId = tw_eventId row,
     tr_eventType = tw_eventType row, tr_occurredAt = row_time tm (tw_occurredAt row),
     tr_recordedAt = row_time tm (tw_recordedAt row), tr_deliveries = tw_deliveries row,
     tr_details = tw_details row\<rparr>"

definition toPublication :: "time_lib \<Rightarrow> OutboxRow option \<Rightarrow> OrderPublication option" where
  "toPublication tm = map_option (\<lambda>row. \<lparr>op_eventId = or_eventId row,
     op_createdAt = row_time tm (or_createdAt row),
     op_publishedAt = map_option (row_time tm) (or_publishedAt row),
     op_attempts = or_attempts row, op_lastError = or_lastError row\<rparr>)"

section \<open>submitOrder\<close>

text \<open>
  A statement may read the clock several times; the readings of one call are \<open>now 0, now 1, ...\<close>.
\<close>

definition negative_amount :: "jsnum \<Rightarrow> bool" where
  "negative_amount n = (case n of Fin r \<Rightarrow> r < 0 | NegInf \<Rightarrow> True | _ \<Rightarrow> False)"

text \<open>
  INSERT ... ON CONFLICT (idempotency_key) DO NOTHING RETURNING: the parameters must be
  storable, a row with the key makes it a no-op, and any other conflict is an error.
\<close>

definition insert_order :: "(nat \<Rightarrow> int) \<Rightarrow> NewOrder \<Rightarrow> (OrderDb, OrderRow option) tx" where
  "insert_order now n db =
     (let items = json_wire (JArr (map item_js (no_items n)));
          rows = pdb_orders db
      in if has_nul (no_idempotencyKey n) \<or> has_nul (no_requestFingerprint n) \<or> has_nul (no_customerId n)
            \<or> js_has_nul items \<or> has_nul (no_correlationId n) then Inl nul_error
         else case (uuid_in (new_orderId n), uuid_in (eventId (no_event n))) of
           (Some oid, Some eid) \<Rightarrow>
             (if negative_amount (no_totalAmount n) then
                Inl (DatabaseError ''violates check constraint orders_total_amount_nonnegative'')
              else if no_idempotencyKey n \<in> set (map ow_idempotencyKey rows) then Inr (None, db)
              else if oid \<in> set (map ow_orderId rows) \<or> eid \<in> set (map ow_createdEventId rows) then
                Inl (DatabaseError ''duplicate key value violates unique constraint'')
              else let row = \<lparr>ow_orderId = oid, ow_idempotencyKey = no_idempotencyKey n,
                     ow_requestFingerprint = no_requestFingerprint n, ow_customerId = no_customerId n,
                     ow_items = items, ow_totalAmount = no_totalAmount n,
                     ow_correlationId = no_correlationId n, ow_createdEventId = eid,
                     ow_status = ''Created'', ow_createdAt = now 0, ow_updatedAt = now 1\<rparr>
                   in Inr (Some row, db \<lparr>pdb_orders := rows @ [row]\<rparr>))
         | _ \<Rightarrow> Inl (DatabaseError ''invalid input syntax for type uuid''))"

definition insertOutboxEvent :: "NewOrder \<Rightarrow> (OrderDb, unit) tx" where
  "insertOutboxEvent n db =
     (let e = no_event n; payload = json_wire (orderCreated_js e)
      in if js_has_nul payload then Inl nul_error
         else case outbox_insert (eventId e) (eventType_text (eventType e)) (getRoutingKey (eventType e))
                payload (occurredAt e) (pdb_outbox db) of
           Inl err \<Rightarrow> Inl err
         | Inr (u, t) \<Rightarrow> Inr ((), db \<lparr>pdb_outbox := t\<rparr>))"

definition insert_plain_row :: "string \<Rightarrow> TimelineRowKind \<Rightarrow> int \<Rightarrow> int \<Rightarrow> (OrderDb, unit) tx" where
  "insert_plain_row oid kind occurred recorded db =
     Inr ((), db \<lparr>pdb_timeline := pdb_timeline db @
       [\<lparr>tw_orderId = oid, tw_kind = kind, tw_eventId = None, tw_eventType = None, tw_occurredAt = occurred,
         tw_recordedAt = recorded, tw_deliveries = 1, tw_details = JNull\<rparr>]\<rparr>)"

definition order_of_key :: "string \<Rightarrow> (OrderDb, OrderRow option) tx" where
  "order_of_key key db = Inr (List.find (\<lambda>r. ow_idempotencyKey r = key) (pdb_orders db), db)"

definition submit_work :: "time_lib \<Rightarrow> (nat \<Rightarrow> int) \<Rightarrow> NewOrder \<Rightarrow> (OrderDb, SubmitOrderOutcome) tx" where
  "submit_work tm now n =
     bindE (insert_order now n) (\<lambda>inserted.
     case inserted of
       Some created \<Rightarrow>
         bindE (insertOutboxEvent n) (\<lambda>_.
         bindE (insert_plain_row (ow_orderId created) RowAccepted (tl_date tm (ow_createdAt created)) (now 2)) (\<lambda>_.
         returnE (SubmitCreated (toStoredOrder tm created))))
     | None \<Rightarrow>
         bindE (order_of_key (no_idempotencyKey n)) (\<lambda>existing.
         case existing of
           None \<Rightarrow> throwE (JsError ''The order for this Idempotency-Key could not be read.'')
         | Some stored \<Rightarrow>
             if ow_requestFingerprint stored \<noteq> no_requestFingerprint n then returnE KeyReused
             else bindE (insert_plain_row (ow_orderId stored) RowReplayed (now 0) (now 1)) (\<lambda>_.
                  returnE (SubmitReplayed (toStoredOrder tm stored)))))"

definition pgo_submitOrder ::
    "time_lib \<Rightarrow> tx_env \<times> (nat \<Rightarrow> int) \<Rightarrow> NewOrder \<Rightarrow> (OrderDb, SubmitOrderOutcome) io" where
  "pgo_submitOrder tm c n = run_transaction (fst c) (submit_work tm (snd c) n)"

section \<open>recordWorkflowEvent\<close>

definition locked_status :: "string \<Rightarrow> (OrderDb, string option) tx" where
  "locked_status oid db =
     Inr (map_option ow_status (List.find (\<lambda>r. Some (ow_orderId r) = uuid_in oid) (pdb_orders db)), db)"

definition event_database_row :: "string \<Rightarrow> int \<Rightarrow> int \<Rightarrow> js \<Rightarrow> OrderWorkflowEventRecord \<Rightarrow> TimelineDatabaseRow" where
  "event_database_row oid occurred recorded details e =
     \<lparr>tw_orderId = oid, tw_kind = RowEvent, tw_eventId = Some (we_eventId e),
      tw_eventType = Some (eventType_text (workflow_eventType (we_eventType e))),
      tw_occurredAt = occurred, tw_recordedAt = recorded, tw_deliveries = 1, tw_details = details\<rparr>"

text \<open>
  INSERT ... ON CONFLICT (event_id) DO UPDATE SET deliveries + 1 RETURNING deliveries, inserted.
  The event id is unique in the whole table.
\<close>

definition upsert_event ::
    "time_lib \<Rightarrow> int \<Rightarrow> OrderWorkflowEventRecord \<Rightarrow> (OrderDb, int \<times> bool) tx" where
  "upsert_event tm recorded e db =
     (let rows = pdb_timeline db; details = json_wire (we_data e)
      in if has_nul (we_eventId e) \<or> js_has_nul details then Inl nul_error
         else case (uuid_in (we_orderId e), tl_timestamptz tm (we_occurredAt e)) of
           (Some oid, Some occurred) \<Rightarrow>
             (case List.find (\<lambda>r. tw_eventId r = Some (we_eventId e)) rows of
                Some r \<Rightarrow>
                  (if in_int4 (tw_deliveries r + 1) then
                     Inr ((tw_deliveries r + 1, False),
                       db \<lparr>pdb_timeline := map (\<lambda>q. if tw_eventId q = Some (we_eventId e)
                         then q \<lparr>tw_deliveries := tw_deliveries q + 1\<rparr> else q) rows\<rparr>)
                   else Inl (DatabaseError ''integer out of range''))
              | None \<Rightarrow> Inr ((1, True), db \<lparr>pdb_timeline := rows @
                  [event_database_row oid occurred recorded details e]\<rparr>))
         | _ \<Rightarrow> Inl (DatabaseError ''invalid input syntax''))"

definition update_status :: "string \<Rightarrow> string \<Rightarrow> int \<Rightarrow> (OrderDb, unit) tx" where
  "update_status oid st updated db =
     Inr ((), db \<lparr>pdb_orders := map (\<lambda>r. if Some (ow_orderId r) = uuid_in oid
       then r \<lparr>ow_status := st, ow_updatedAt := updated\<rparr> else r) (pdb_orders db)\<rparr>)"

definition record_work ::
    "time_lib \<Rightarrow> (nat \<Rightarrow> int) \<Rightarrow> OrderWorkflowEventRecord \<Rightarrow> (OrderDb, RecordWorkflowEventOutcome) tx" where
  "record_work tm now e =
     bindE (locked_status (we_orderId e)) (\<lambda>current.
     case current of
       None \<Rightarrow> returnE UnknownOrder
     | Some text \<Rightarrow>
         (case status_of_text text of
            None \<Rightarrow> returnE UnknownOrder
          | Some current \<Rightarrow>
              bindE (upsert_event tm (now 0) e) (\<lambda>(deliveries, inserted).
              if \<not> inserted then returnE (EventDuplicate deliveries)
              else let st = applyWorkflowEvent current (we_eventType e)
                   in if st \<noteq> current then
                        bindE (update_status (we_orderId e) (order_status_text st) (now 1)) (\<lambda>_.
                        returnE (EventRecorded st))
                      else returnE (EventRecorded st))))"

definition pgo_recordWorkflowEvent ::
    "time_lib \<Rightarrow> tx_env \<times> (nat \<Rightarrow> int) \<Rightarrow> OrderWorkflowEventRecord
      \<Rightarrow> (OrderDb, RecordWorkflowEventOutcome) io" where
  "pgo_recordWorkflowEvent tm c e db =
     (if \<not> UUID_PATTERN (we_orderId e) then (Inr UnknownOrder, db)
      else run_transaction (fst c) (record_work tm (snd c) e) db)"

section \<open>Reading orders\<close>

text \<open>
  \<open>getOrderDetails\<close> runs three statements outside of a transaction: each sees the database of
  its own moment.
\<close>

definition pgo_getOrderDetails ::
    "time_lib \<Rightarrow> OrderDb \<Rightarrow> OrderDb \<Rightarrow> OrderDb \<Rightarrow> string \<Rightarrow> OrderDetails option" where
  "pgo_getOrderDetails tm db1 db2 db3 oid =
     (if \<not> UUID_PATTERN oid then None
      else case List.find (\<lambda>r. Some (ow_orderId r) = uuid_in oid) (pdb_orders db1) of
        None \<Rightarrow> None
      | Some order \<Rightarrow> Some
          \<lparr>od_order = toStoredOrder tm order,
           od_timeline = map (toTimelineRow tm)
             (filter (\<lambda>r. Some (tw_orderId r) = uuid_in oid) (pdb_timeline db2)),
           od_publication = toPublication tm
             (List.find (\<lambda>r. or_eventId r = ow_createdEventId order) (ob_rows (pdb_outbox db3)))\<rparr>)"

text \<open>ORDER BY created_at DESC, order_id; a UUID sorts like its lower-case text.\<close>

fun compare_text :: "string \<Rightarrow> string \<Rightarrow> int" where
  "compare_text [] [] = 0"
| "compare_text [] (d # ds) = - 1"
| "compare_text (c # cs) [] = 1"
| "compare_text (c # cs) (d # ds) =
     (let m = of_char c :: int; n = of_char d :: int
      in if m < n then - 1 else if n < m then 1 else compare_text cs ds)"

definition newer_first :: "OrderRow \<Rightarrow> OrderRow \<Rightarrow> int" where
  "newer_first a b =
     (if ow_createdAt a > ow_createdAt b then - 1
      else if ow_createdAt a < ow_createdAt b then 1
      else compare_text (ow_orderId a) (ow_orderId b))"

definition pgo_listRecentOrders :: "time_lib \<Rightarrow> OrderDb \<Rightarrow> nat \<Rightarrow> StoredOrder list" where
  "pgo_listRecentOrders tm db limit = map (toStoredOrder tm) (take limit (sort_by newer_first (pdb_orders db)))"

section \<open>UUID texts\<close>

lemma lower_char_hex: "is_hex c \<Longrightarrow> is_hex (lower_char c) \<and> lower_char (lower_char c) = lower_char c"
proof -
  have "list_all (\<lambda>c. is_hex (lower_char c) \<and> lower_char (lower_char c) = lower_char c) ''0123456789abcdefABCDEF''"
    by code_simp
  then show "is_hex c \<Longrightarrow> ?thesis" unfolding is_hex_def [of c] list_all_iff by (rule bspec)
qed

lemma lower_hex_slice:
  "list_all is_hex (str_slice i j s) \<Longrightarrow> list_all is_hex (str_slice i j (map lower_char s))"
  by (auto simp: str_slice_def drop_map take_map list_all_iff lower_char_hex)

lemma UUID_PATTERN_lower: "UUID_PATTERN s \<Longrightarrow> UUID_PATTERN (map lower_char s)"
  by (auto simp: UUID_PATTERN_def lower_hex_slice lower_char_def)

lemma lower_char_idem [simp]: "lower_char (lower_char c) = lower_char c"
  by (simp add: lower_char_def Let_def)

lemma uuid_in_canonical: "uuid_in s = Some u \<Longrightarrow> uuid_in u = Some u"
  by (auto simp: uuid_in_def UUID_PATTERN_lower split: if_splits)

section \<open>The invariant of the tables\<close>

text \<open>
  Each order row has one outbox row, in the same position, that carries its OrderCreated event,
  and one Accepted timeline row; keys, ids and recorded event ids are unique.
\<close>

definition announces_order :: "OrderRow \<Rightarrow> OutboxRow \<Rightarrow> bool" where
  "announces_order r ob = (or_eventId ob = ow_createdEventId r
     \<and> or_eventType ob = ''OrderCreated'' \<and> or_routingKey ob = ''order.created''
     \<and> js_get (or_payload ob) ''eventType'' = JStr ''OrderCreated''
     \<and> Option.bind (js_string (js_get (js_get (or_payload ob) ''data'') ''orderId'')) uuid_in = Some (ow_orderId r))"

definition timeline_row_ok :: "TimelineDatabaseRow \<Rightarrow> bool" where
  "timeline_row_ok r = (1 \<le> tw_deliveries r \<and> (tw_kind r = RowEvent) = (tw_eventId r \<noteq> None)
     \<and> (tw_eventId r \<noteq> None \<longrightarrow> Option.bind (tw_eventType r) workflow_of_text \<noteq> None))"

definition event_ids :: "TimelineDatabaseRow list \<Rightarrow> string list" where
  "event_ids rows = map the (filter (\<lambda>i. i \<noteq> None) (map tw_eventId rows))"

definition accepted_orders :: "TimelineDatabaseRow list \<Rightarrow> string list" where
  "accepted_orders rows = map tw_orderId (filter (\<lambda>r. tw_kind r = RowAccepted) rows)"

definition pgo_inv :: "OrderDb \<Rightarrow> bool" where
  "pgo_inv db \<longleftrightarrow>
     distinct (map ow_idempotencyKey (pdb_orders db)) \<and> distinct (map ow_orderId (pdb_orders db))
   \<and> list_all (\<lambda>r. uuid_in (ow_orderId r) = Some (ow_orderId r) \<and> status_of_text (ow_status r) \<noteq> None) (pdb_orders db)
   \<and> list_all timeline_row_ok (pdb_timeline db) \<and> distinct (event_ids (pdb_timeline db))
   \<and> tw_orderId ` set (pdb_timeline db) \<subseteq> ow_orderId ` set (pdb_orders db)
   \<and> accepted_orders (pdb_timeline db) = map ow_orderId (pdb_orders db)
   \<and> list_all2 announces_order (pdb_orders db) (ob_rows (pdb_outbox db))"

definition timeline_event :: "TimelineDatabaseRow \<Rightarrow> (string \<times> OrderWorkflowEventType) list" where
  "timeline_event r = (case (tw_eventId r, tw_eventType r) of
     (Some i, Some t) \<Rightarrow> (case workflow_of_text t of Some w \<Rightarrow> [(i, w)] | None \<Rightarrow> []) | _ \<Rightarrow> [])"

definition pgo_book :: "OrderDb \<Rightarrow> OrderBook" where
  "pgo_book db = \<lparr>
     bk_keys = (\<lambda>k. map_option (\<lambda>r. (ow_requestFingerprint r, ow_orderId r))
       (List.find (\<lambda>r. ow_idempotencyKey r = k) (pdb_orders db))),
     bk_status = (\<lambda>i. Option.bind (List.find (\<lambda>r. ow_orderId r = i) (pdb_orders db)) (\<lambda>r. status_of_text (ow_status r))),
     bk_history = (\<lambda>i. concat (map timeline_event (filter (\<lambda>r. tw_orderId r = i) (pdb_timeline db))))\<rparr>"

lemma event_ids_append [simp]: "event_ids (xs @ ys) = event_ids xs @ event_ids ys"
  by (simp add: event_ids_def)

lemma accepted_orders_append [simp]: "accepted_orders (xs @ ys) = accepted_orders xs @ accepted_orders ys"
  by (simp add: accepted_orders_def)

lemma set_event_ids: "i \<in> set (event_ids rows) \<longleftrightarrow> (\<exists>r \<in> set rows. tw_eventId r = Some i)"
  by (force simp: event_ids_def)

lemma find_unique_key:
  "\<lbrakk>distinct (map f xs); x \<in> set xs\<rbrakk> \<Longrightarrow> List.find (\<lambda>y. f y = f x) xs = Some x"
  by (induction xs) (auto simp: image_iff)

section \<open>The effect of a submission\<close>

lemma insert_order_cases [consumes 1, case_names inserted conflict]:
  assumes "insert_order now n db = Inr (q, db')"
  obtains oid eid row where "q = Some row" "uuid_in (new_orderId n) = Some oid" "uuid_in (eventId (no_event n)) = Some eid"
      "no_idempotencyKey n \<notin> set (map ow_idempotencyKey (pdb_orders db))" "oid \<notin> set (map ow_orderId (pdb_orders db))"
      "ow_orderId row = oid" "ow_idempotencyKey row = no_idempotencyKey n"
      "ow_requestFingerprint row = no_requestFingerprint n" "ow_createdEventId row = eid" "ow_status row = ''Created''"
      "db' = db \<lparr>pdb_orders := pdb_orders db @ [row]\<rparr>"
    | "q = None" "db' = db" "no_idempotencyKey n \<in> set (map ow_idempotencyKey (pdb_orders db))"
  using assms by (auto simp: insert_order_def Let_def split: if_splits option.splits)

lemma outbox_event_effect:
  assumes "insertOutboxEvent n db = Inr (u, db')" "uuid_in (eventId (no_event n)) = Some eid"
    and "ow_createdEventId row = eid" "uuid_in (new_orderId n) = Some (ow_orderId row)" "eventType (no_event n) = OrderCreated"
  obtains ob where "announces_order row ob"
    "db' = db \<lparr>pdb_outbox := (pdb_outbox db) \<lparr>ob_rows := ob_rows (pdb_outbox db) @ [ob], ob_next := ob_next (pdb_outbox db) + 1\<rparr>\<rparr>"
proof -
  let ?p = "json_wire (orderCreated_js (no_event n))"
  have p: "js_get ?p ''eventType'' = JStr ''OrderCreated''"
    "js_get (js_get ?p ''data'') ''orderId'' = JStr (new_orderId n)"
    by (simp_all add: orderCreated_js_def envelope_js_def js_get_def assms(5) new_orderId_def)
  let ?t = "pdb_outbox db"
  let ?ob = "\<lparr>or_sequenceId = ob_next ?t, or_eventId = eid, or_eventType = ''OrderCreated'',
      or_routingKey = ''order.created'', or_payload = ?p, or_occurredAt = occurredAt (no_event n),
      or_createdAt = ob_clock ?t, or_publishedAt = None, or_attempts = 0, or_availableAt = ob_clock ?t,
      or_claimedBy = None, or_lastError = None\<rparr>"
  from assms have "db' = db \<lparr>pdb_outbox := ?t \<lparr>ob_rows := ob_rows ?t @ [?ob], ob_next := ob_next ?t + 1\<rparr>\<rparr>"
    by (auto simp: insertOutboxEvent_def Let_def outbox_insert_def getRoutingKey_def
        split: if_splits sum.splits option.splits)
  moreover have "announces_order row ?ob" using p assms(3,4) by (simp add: announces_order_def js_string_def)
  ultimately show ?thesis by (rule that [rotated])
qed

definition created_order :: "NewOrder \<Rightarrow> bool" where
  "created_order n = (eventType (no_event n) = OrderCreated)"

lemma find_snoc: "List.find P (xs @ [x]) = (case List.find P xs of None \<Rightarrow> if P x then Some x else None | Some y \<Rightarrow> Some y)"
  by (simp add: find_append split: option.split)

text \<open>A plain timeline row changes neither the events nor the history.\<close>

lemma plain_row_effect:
  assumes "insert_plain_row oid k a b db = Inr (u, db')" "k \<noteq> RowEvent"
  shows "pdb_orders db' = pdb_orders db" "pdb_outbox db' = pdb_outbox db"
    "event_ids (pdb_timeline db') = event_ids (pdb_timeline db)"
    "accepted_orders (pdb_timeline db') = accepted_orders (pdb_timeline db) @ (if k = RowAccepted then [oid] else [])"
    "list_all timeline_row_ok (pdb_timeline db') = list_all timeline_row_ok (pdb_timeline db)"
    "tw_orderId ` set (pdb_timeline db') = insert oid (tw_orderId ` set (pdb_timeline db))"
    "concat (map timeline_event (filter P (pdb_timeline db'))) = concat (map timeline_event (filter P (pdb_timeline db)))"
  using assms by (auto simp: insert_plain_row_def event_ids_def accepted_orders_def timeline_row_ok_def timeline_event_def)

lemma created_status_text: "status_of_text ''Created'' = Some StatusCreated"
  using status_of_text_text [of StatusCreated] by simp

lemma submit_created_effect:
  assumes inv: "pgo_inv db" and n: "created_order n"
    and ins: "insert_order now n db = Inr (Some row, db1)" and out: "insertOutboxEvent n db1 = Inr (u, db2)"
    and acc: "insert_plain_row (ow_orderId row) RowAccepted a b db2 = Inr (v, db')"
  shows "pgo_inv db' \<and> submit_allowed n (pgo_book db) (Inr (SubmitCreated (toStoredOrder tm row))) (pgo_book db')
    \<and> pgo_book db' = book_submit n (ow_orderId row) (pgo_book db)"
proof -
  from ins obtain oid eid where row: "uuid_in (new_orderId n) = Some oid" "uuid_in (eventId (no_event n)) = Some eid"
      "no_idempotencyKey n \<notin> ow_idempotencyKey ` set (pdb_orders db)" "oid \<notin> ow_orderId ` set (pdb_orders db)"
      "ow_orderId row = oid" "ow_idempotencyKey row = no_idempotencyKey n"
      "ow_requestFingerprint row = no_requestFingerprint n" "ow_createdEventId row = eid" "ow_status row = ''Created''"
      and db1: "db1 = db \<lparr>pdb_orders := pdb_orders db @ [row]\<rparr>"
    by (cases rule: insert_order_cases) auto
  from outbox_event_effect [OF out row(2,8)] row(1,5) n obtain ob where ob: "announces_order row ob"
    and db2: "db2 = db1 \<lparr>pdb_outbox := (pdb_outbox db1) \<lparr>ob_rows := ob_rows (pdb_outbox db1) @ [ob],
        ob_next := ob_next (pdb_outbox db1) + 1\<rparr>\<rparr>"
    unfolding created_order_def by blast
  note eff = plain_row_effect [OF acc] 
  have same: "pdb_orders db' = pdb_orders db @ [row]" "ob_rows (pdb_outbox db') = ob_rows (pdb_outbox db) @ [ob]"
    using eff(1,2) by (simp_all add: db2 db1)
  have "pgo_inv db'"
    using inv row ob eff by (auto simp: pgo_inv_def same db2 db1 created_status_text uuid_in_canonical
        intro!: list_all2_appendI)
  moreover have none: "List.find (\<lambda>r. ow_orderId r = oid) (pdb_orders db) = None"
    "List.find (\<lambda>r. ow_idempotencyKey r = no_idempotencyKey n) (pdb_orders db) = None"
    using row(3,4) by (force simp: find_None_iff')+
  moreover have "filter (\<lambda>r. tw_orderId r = oid) (pdb_timeline db) = []"
    using inv row(4) by (auto simp: pgo_inv_def filter_empty_conv)
  ultimately show ?thesis
    using row eff(7) by (auto simp: pgo_book_def submit_allowed_def book_submit_def same db2 db1 fun_eq_iff find_snoc
        toStoredOrder_def created_status_text split: option.split)
qed

lemma submit_replayed_effect:
  assumes inv: "pgo_inv db" and key: "no_idempotencyKey n \<in> set (map ow_idempotencyKey (pdb_orders db))"
    and row: "List.find (\<lambda>r. ow_idempotencyKey r = no_idempotencyKey n) (pdb_orders db) = Some row"
    and fp: "ow_requestFingerprint row = no_requestFingerprint n"
    and acc: "insert_plain_row (ow_orderId row) RowReplayed a b db = Inr (v, db')"
  shows "pgo_inv db' \<and> submit_allowed n (pgo_book db) (Inr (SubmitReplayed (toStoredOrder tm row))) (pgo_book db')
    \<and> pgo_book db' = pgo_book db"
proof -
  note eff = plain_row_effect [OF acc]
  from find_Some_mem [OF row] have mem: "row \<in> set (pdb_orders db)" by simp
  with inv have d: "List.find (\<lambda>r. ow_orderId r = ow_orderId row) (pdb_orders db) = Some row"
    by (auto simp: pgo_inv_def intro: find_unique_key)
  from mem inv obtain st where st: "status_of_text (ow_status row) = Some st"
    by (auto simp: pgo_inv_def list_all_iff)
  have "pgo_inv db'" using inv mem eff by (auto simp: pgo_inv_def)
  moreover have "pgo_book db' = pgo_book db" using eff by (simp add: pgo_book_def fun_eq_iff)
  ultimately show ?thesis using row fp d st by (simp add: submit_allowed_def pgo_book_def toStoredOrder_def)
qed

lemma submit_work_effect:
  assumes inv: "pgo_inv db" and n: "created_order n" and run: "submit_work tm now n db = Inr (out, db')"
  shows "pgo_inv db' \<and> submit_allowed n (pgo_book db) (Inr out) (pgo_book db')"
proof -
  from run obtain q db1 where ins: "insert_order now n db = Inr (q, db1)"
    unfolding submit_work_def by blast
  show ?thesis
  proof (cases q)
    case (Some row)
    with run ins obtain u v db2 where "insertOutboxEvent n db1 = Inr (u, db2)"
      "insert_plain_row (ow_orderId row) RowAccepted (tl_date tm (ow_createdAt row)) (now 2) db2 = Inr (v, db')"
      "out = SubmitCreated (toStoredOrder tm row)"
      by (auto simp: submit_work_def bindE_eq_Inr)
    with submit_created_effect [OF inv n] ins Some show ?thesis by blast
  next
    case None
    with ins have db1: "db1 = db" and key: "no_idempotencyKey n \<in> set (map ow_idempotencyKey (pdb_orders db))"
      by (auto elim: insert_order_cases)
    then obtain row where row: "List.find (\<lambda>r. ow_idempotencyKey r = no_idempotencyKey n) (pdb_orders db) = Some row"
      by (fastforce simp: find_None_iff' dest: not_None_eq [THEN iffD1])
    show ?thesis
    proof (cases "ow_requestFingerprint row = no_requestFingerprint n")
      case True
      with run ins None row db1 obtain v where
        "insert_plain_row (ow_orderId row) RowReplayed (now 0) (now 1) db = Inr (v, db')"
        "out = SubmitReplayed (toStoredOrder tm row)"
        by (auto simp: submit_work_def bindE_eq_Inr order_of_key_def)
      with submit_replayed_effect [OF inv key row True] show ?thesis by blast
    next
      case False
      with run ins None row db1 have "out = KeyReused" "db' = db"
        by (auto simp: submit_work_def bindE_eq_Inr order_of_key_def)
      with inv row False show ?thesis by (auto simp: submit_allowed_def pgo_book_def)
    qed
  qed
qed

text \<open>A transaction with a lost COMMIT acknowledgement has the effect of one that returned.\<close>

lemma submit_allowed_lost: "submit_allowed n b (Inr out) b' \<Longrightarrow> submit_allowed n b (Inl e) b'"
  by (auto simp: submit_allowed_def split: SubmitOrderOutcome.splits)

lemma pgo_submit_effect:
  assumes "pgo_inv db" "created_order n" "pgo_submitOrder tm c n db = (r, db')"
  shows "pgo_inv db' \<and> submit_allowed n (pgo_book db) r (pgo_book db')"
  using assms(3) unfolding pgo_submitOrder_def
proof (cases rule: run_transaction_cases)
  case (returned x)
  with submit_work_effect [OF assms(1,2)] show ?thesis by blast
next
  case (lost e x)
  with submit_work_effect [OF assms(1,2)] submit_allowed_lost show ?thesis by blast
next
  case (nothing e)
  with assms(1) show ?thesis by (simp add: submit_allowed_def)
qed

section \<open>The effect of a workflow event\<close>

text \<open>Another delivery of an event raises a counter that the book does not show.\<close>

definition count_delivery :: "string \<Rightarrow> TimelineDatabaseRow list \<Rightarrow> TimelineDatabaseRow list" where
  "count_delivery eid rows = map (\<lambda>q. if tw_eventId q = Some eid then q \<lparr>tw_deliveries := tw_deliveries q + 1\<rparr> else q) rows"

lemma count_delivery_keeps:
  "event_ids (count_delivery eid rows) = event_ids rows"
  "accepted_orders (count_delivery eid rows) = accepted_orders rows"
  "tw_orderId ` set (count_delivery eid rows) = tw_orderId ` set rows"
  "concat (map timeline_event (filter (\<lambda>r. tw_orderId r = i) (count_delivery eid rows))) =
   concat (map timeline_event (filter (\<lambda>r. tw_orderId r = i) rows))"
  by (induction rows) (auto simp: count_delivery_def event_ids_def accepted_orders_def timeline_event_def)

lemma counted_rows_ok:
  "list_all timeline_row_ok rows \<Longrightarrow> list_all timeline_row_ok (count_delivery eid rows)"
  by (induction rows) (auto simp: count_delivery_def timeline_row_ok_def)

lemma upsert_event_cases [consumes 1, case_names repeated new]:
  assumes "upsert_event tm recorded e db = Inr ((d, ins), db')"
  obtains r where "\<not> ins" "r \<in> set (pdb_timeline db)" "d = tw_deliveries r + 1"
      "db' = db \<lparr>pdb_timeline := count_delivery (we_eventId e) (pdb_timeline db)\<rparr>"
    | oid occurred details where "ins" "uuid_in (we_orderId e) = Some oid" "we_eventId e \<notin> set (event_ids (pdb_timeline db))"
      "db' = db \<lparr>pdb_timeline := pdb_timeline db @ [event_database_row oid occurred recorded details e]\<rparr>"
  using assms
  by (auto simp: upsert_event_def Let_def count_delivery_def set_event_ids find_None_iff'
      dest: find_Some_mem split: if_splits option.splits)

lemma timeline_history_ids:
  "fst ` set (concat (map timeline_event rows)) \<subseteq> set (event_ids rows)"
  by (auto simp: timeline_event_def set_event_ids split: option.splits)

text \<open>Moving the status of one order leaves the keys and the rest of the orders alone.\<close>

lemma update_status_effect:
  assumes "pgo_inv db" "update_status oid st t db = Inr (u, db')" "status_of_text st = Some s" "uuid_in oid = Some i"
  shows "pgo_inv db' \<and> pdb_timeline db' = pdb_timeline db \<and> bk_keys (pgo_book db') = bk_keys (pgo_book db)
    \<and> bk_status (pgo_book db') = (bk_status (pgo_book db))(i := map_option (\<lambda>_. s) (bk_status (pgo_book db) i))"
proof -
  define f :: "OrderRow \<Rightarrow> OrderRow" where "f = (\<lambda>r. if ow_orderId r = i then r \<lparr>ow_status := st, ow_updatedAt := t\<rparr> else r)"
  from assms(2,4) have db': "db' = db \<lparr>pdb_orders := map f (pdb_orders db)\<rparr>"
    by (auto simp: update_status_def f_def intro!: arg_cong2 [where f = map])
  have f: "ow_orderId (f r) = ow_orderId r" "ow_idempotencyKey (f r) = ow_idempotencyKey r"
    "ow_requestFingerprint (f r) = ow_requestFingerprint r" "announces_order (f r) = announces_order r"
    "status_of_text (ow_status (f r)) = (if ow_orderId r = i then Some s else status_of_text (ow_status r))" for r
    using assms(3) by (auto simp: f_def announces_order_def fun_eq_iff)
  have maps: "map (\<lambda>x. ow_orderId (f x)) xs = map ow_orderId xs"
    "map (\<lambda>x. ow_idempotencyKey (f x)) xs = map ow_idempotencyKey xs" for xs
    by (simp_all add: f)
  have "pgo_inv db'"
    using assms(1) by (auto simp: pgo_inv_def db' comp_def maps f list_all_iff list_all2_map1 image_image)
  moreover have "bk_keys (pgo_book db') = bk_keys (pgo_book db)"
    by (simp add: pgo_book_def db' find_map f fun_eq_iff option.map_comp comp_def)
  moreover have "bk_status (pgo_book db') j = (if j = i then map_option (\<lambda>_. s) (bk_status (pgo_book db) i)
      else bk_status (pgo_book db) j)" for j
  proof (cases "List.find (\<lambda>r. ow_orderId r = j) (pdb_orders db)")
    case None
    then show ?thesis by (auto simp: pgo_book_def db' find_map f)
  next
    case (Some r)
    with find_Some_mem [OF this] assms(1) show ?thesis
      by (auto simp: pgo_book_def db' find_map f pgo_inv_def list_all_iff)
  qed
  ultimately show ?thesis by (auto simp: db' fun_eq_iff)
qed

lemma record_work_effect:
  assumes inv: "pgo_inv db" and run: "record_work tm now e db = Inr (out, db')"
  shows "pgo_inv db' \<and> record_allowed e (uuid_in (we_orderId e)) (pgo_book db) (Inr out) (pgo_book db')"
proof (cases "List.find (\<lambda>r. Some (ow_orderId r) = uuid_in (we_orderId e)) (pdb_orders db)")
  case None
  with run have "out = UnknownOrder" "db' = db" by (auto simp: record_work_def locked_status_def bindE_eq_Inr)
  moreover have "bk_status (pgo_book db) i = None" if "uuid_in (we_orderId e) = Some i" for i
  proof -
    have "List.find (\<lambda>r. ow_orderId r = i) (pdb_orders db) = None"
      using None that by (auto simp: find_None_iff')
    then show ?thesis by (simp add: pgo_book_def)
  qed
  ultimately show ?thesis using inv by (simp add: record_allowed_def)
next
  case (Some r)
  from find_Some_mem [OF Some] have mem: "r \<in> set (pdb_orders db)" and i: "uuid_in (we_orderId e) = Some (ow_orderId r)"
    by auto
  let ?i = "ow_orderId r"
  from mem inv obtain st where st: "status_of_text (ow_status r) = Some st" by (auto simp: pgo_inv_def list_all_iff)
  from inv mem have d: "List.find (\<lambda>q. ow_orderId q = ?i) (pdb_orders db) = Some r"
    by (auto simp: pgo_inv_def intro: find_unique_key)
  with st have cur: "bk_status (pgo_book db) ?i = Some st" by (simp add: pgo_book_def)
  from run Some st obtain n ins db1 where up: "upsert_event tm (now 0) e db = Inr ((n, ins), db1)"
    by (auto simp: record_work_def locked_status_def bindE_eq_Inr)
  from up show ?thesis
  proof (cases rule: upsert_event_cases)
    case (repeated q)
    with up run Some st have "out = EventDuplicate n" "db' = db1"
      by (auto simp: record_work_def locked_status_def bindE_eq_Inr)
    moreover have "1 \<le> tw_deliveries q" using inv repeated(2) by (auto simp: pgo_inv_def list_all_iff timeline_row_ok_def)
    moreover have "pgo_inv db1" using inv by (simp add: pgo_inv_def repeated(4) count_delivery_keeps counted_rows_ok)
    moreover have "pgo_book db1 = pgo_book db" by (simp add: pgo_book_def repeated(4) count_delivery_keeps)
    ultimately show ?thesis using repeated(3) by (simp add: record_allowed_def)
  next
    case (new oid occurred details)
    let ?st = "applyWorkflowEvent st (we_eventType e)"
    have oid: "oid = ?i" using new(2) i by simp
    have inv1: "pgo_inv db1"
      using inv new mem by (auto simp: pgo_inv_def timeline_row_ok_def event_ids_def accepted_orders_def oid
          event_database_row_def)
    let ?rows = "filter (\<lambda>q. tw_orderId q = ?i) (pdb_timeline db)"
    have "bk_history (pgo_book db) ?i = concat (map timeline_event ?rows)" by (simp add: pgo_book_def)
    moreover have "set (event_ids ?rows) \<subseteq> set (event_ids (pdb_timeline db))" by (auto simp: set_event_ids)
    ultimately have notin: "we_eventId e \<notin> fst ` set (bk_history (pgo_book db) ?i)"
      using timeline_history_ids [of ?rows] new(3) by (metis subsetD)
    have hist: "bk_history (pgo_book db1) = (bk_history (pgo_book db))(?i := bk_history (pgo_book db) ?i @ [(we_eventId e, we_eventType e)])"
      using new(4) oid by (auto simp: pgo_book_def timeline_event_def event_database_row_def fun_eq_iff)
    have rest: "bk_keys (pgo_book db1) = bk_keys (pgo_book db)" "bk_status (pgo_book db1) = bk_status (pgo_book db)"
      by (simp_all add: pgo_book_def new(4))
    have "pgo_inv db' \<and> pgo_book db' = book_record e ?i (pgo_book db) \<and> out = EventRecorded ?st"
    proof (cases "?st = st")
      case True
      with up run Some st new(1) have "out = EventRecorded ?st" "db' = db1"
        by (auto simp: record_work_def locked_status_def bindE_eq_Inr)
      with inv1 True cur hist rest show ?thesis by (simp add: book_record_def fun_upd_idem)
    next
      case False
      with up run Some st new(1) obtain u where out: "out = EventRecorded ?st"
        and u: "update_status (we_orderId e) (order_status_text ?st) (now 1) db1 = Inr (u, db')"
        by (auto simp: record_work_def locked_status_def bindE_eq_Inr Let_def)
      from update_status_effect [OF inv1 u _ i] have eff: "pgo_inv db'" "pdb_timeline db' = pdb_timeline db1"
        "bk_keys (pgo_book db') = bk_keys (pgo_book db1)"
        "bk_status (pgo_book db') = (bk_status (pgo_book db1))(?i := map_option (\<lambda>_. ?st) (bk_status (pgo_book db1) ?i))"
        by simp_all
      moreover from eff(2) have "bk_history (pgo_book db') = bk_history (pgo_book db1)" by (simp add: pgo_book_def)
      ultimately show ?thesis using out cur hist rest by (simp add: book_record_def)
    qed
    with i cur notin show ?thesis by (auto simp: record_allowed_def book_record_def)
  qed
qed

lemma record_allowed_lost: "record_allowed e i b (Inr out) b' \<Longrightarrow> record_allowed e i b (Inl err) b'"
  by (auto simp: record_allowed_def split: RecordWorkflowEventOutcome.splits)

lemma pgo_record_effect:
  assumes inv: "pgo_inv db" and run: "pgo_recordWorkflowEvent tm c e db = (q, db')"
  shows "pgo_inv db' \<and> record_allowed e (uuid_in (we_orderId e)) (pgo_book db) q (pgo_book db')"
proof (cases "UUID_PATTERN (we_orderId e)")
  case False
  with assms show ?thesis by (auto simp: pgo_recordWorkflowEvent_def record_allowed_def uuid_in_def)
next
  case True
  with run have "run_transaction (fst c) (record_work tm (snd c) e) db = (q, db')"
    by (simp add: pgo_recordWorkflowEvent_def)
  then show ?thesis
  proof (cases rule: run_transaction_cases)
    case (returned x)
    with record_work_effect [OF inv] show ?thesis by blast
  next
    case (lost err x)
    with record_work_effect [OF inv] record_allowed_lost show ?thesis by blast
  next
    case (nothing err)
    with inv show ?thesis by (simp add: record_allowed_def)
  qed
qed

interpretation pgo: order_store "pgo_submitOrder tm" "pgo_recordWorkflowEvent tm" pgo_book pgo_inv uuid_in
    "\<lambda>_. created_order" for tm
  by unfold_locales (blast dest: pgo_submit_effect pgo_record_effect)+

section \<open>What the Order Service relies on\<close>

definition orders_run ::
    "time_lib \<Rightarrow> (tx_env \<times> (nat \<Rightarrow> int)) order_op list \<Rightarrow> OrderDb \<Rightarrow> order_answer list \<times> OrderDb" where
  "orders_run tm = run_orders (pgo_submitOrder tm) (pgo_recordWorkflowEvent tm)"

definition typed_ops :: "'c order_op list \<Rightarrow> bool" where
  "typed_ops ops = list_all (\<lambda>p. case p of SubmitOp c n \<Rightarrow> created_order n | RecordOp c e \<Rightarrow> True) ops"

lemma typed_ops_fresh: "typed_ops ops \<Longrightarrow> run_fresh sub rec (\<lambda>_. created_order) ops db"
proof (induction ops arbitrary: db)
  case (Cons p ops)
  then show ?case by (cases p) (simp_all add: typed_ops_def)
qed simp

definition empty_order_db :: OrderDb where
  "empty_order_db = \<lparr>pdb_orders = [], pdb_timeline = [], pdb_outbox = \<lparr>ob_rows = [], ob_next = 1, ob_clock = 0\<rparr>\<rparr>"

lemma empty_order_db_ok: "pgo_inv empty_order_db" "book_ok (pgo_book empty_order_db)"
  by (simp_all add: empty_order_db_def pgo_inv_def event_ids_def accepted_orders_def book_ok_def pgo_book_def)

lemma orders_run_ok:
  "\<lbrakk>typed_ops ops; pgo_inv db; book_ok (pgo_book db)\<rbrakk>
    \<Longrightarrow> pgo_inv (snd (orders_run tm ops db)) \<and> book_ok (pgo_book (snd (orders_run tm ops db)))"
  using pgo.run_inv [OF _ typed_ops_fresh] pgo.run_book_ok [OF _ typed_ops_fresh] by (simp add: orders_run_def)

text \<open>
  C16: one Idempotency-Key stands for one order. In any sequence of submissions and workflow
  events, whatever faults strike their transactions (lost COMMIT acknowledgements included), any
  two successful answers for the same key name the same order and answered the same request,
  and the table holds exactly one order with that key.
\<close>

theorem one_order_per_key:
  assumes "typed_ops ops" "pgo_inv db"
    and "SubmitAnswer n r \<in> set (fst (orders_run tm ops db))" "answered_order r = Some i"
    and "SubmitAnswer m q \<in> set (fst (orders_run tm ops db))" "answered_order q = Some j"
    and "no_idempotencyKey n = no_idempotencyKey m"
  shows "i = j \<and> no_requestFingerprint n = no_requestFingerprint m
    \<and> (\<exists>!row. row \<in> set (pdb_orders (snd (orders_run tm ops db))) \<and> ow_idempotencyKey row = no_idempotencyKey n)"
proof -
  let ?db = "snd (orders_run tm ops db)"
  note f = typed_ops_fresh [OF assms(1)]
  from pgo.answers_agree [OF assms(2) f] assms(3-7)
  have agree: "i = j \<and> no_requestFingerprint n = no_requestFingerprint m" unfolding orders_run_def by blast
  from pgo.run_answers [OF assms(2) f] assms(3,4)
  have "bk_keys (pgo_book ?db) (no_idempotencyKey n) = Some (no_requestFingerprint n, i)"
    unfolding orders_run_def by blast
  then obtain row where row: "row \<in> set (pdb_orders ?db)" "ow_idempotencyKey row = no_idempotencyKey n"
    by (auto simp: pgo_book_def dest: find_Some_mem)
  have "pgo_inv ?db" using pgo.run_inv [OF assms(2) f] by (simp add: orders_run_def)
  then have "distinct (map ow_idempotencyKey (pdb_orders ?db))" by (simp add: pgo_inv_def)
  with row have "\<exists>!row. row \<in> set (pdb_orders ?db) \<and> ow_idempotencyKey row = no_idempotencyKey n"
    by (metis distinct_map inj_onD)
  with agree show ?thesis by blast
qed

text \<open>
  C17: the order tables stay consistent. After any sequence of submissions and workflow events
  with any faults, the orders, their outbox rows and their Accepted rows correspond one to one
  and in order, each outbox row announcing its own order; and the status of every order is what
  its recorded events, each counted once, make of it.
\<close>

theorem order_tables_consistent:
  assumes "typed_ops ops" "orders_run tm ops empty_order_db = (answers, db)"
  shows "list_all2 announces_order (pdb_orders db) (ob_rows (pdb_outbox db))
    \<and> accepted_orders (pdb_timeline db) = map ow_orderId (pdb_orders db)
    \<and> distinct (event_ids (pdb_timeline db)) \<and> distinct (map ow_orderId (pdb_orders db))
    \<and> list_all (\<lambda>row. status_of_text (ow_status row) = Some (foldl applyWorkflowEvent StatusCreated
        (map snd (concat (map timeline_event (filter (\<lambda>r. tw_orderId r = ow_orderId row) (pdb_timeline db)))))))
        (pdb_orders db)"
proof -
  from orders_run_ok [OF assms(1) empty_order_db_ok, of tm] have ok: "pgo_inv db" "book_ok (pgo_book db)"
    by (simp_all add: assms(2))
  have "status_of_text (ow_status row) = Some (foldl applyWorkflowEvent StatusCreated
        (map snd (bk_history (pgo_book db) (ow_orderId row))))" if "row \<in> set (pdb_orders db)" for row
  proof -
    from ok(1) that have "List.find (\<lambda>q. ow_orderId q = ow_orderId row) (pdb_orders db) = Some row"
      by (auto simp: pgo_inv_def intro: find_unique_key)
    moreover from ok(1) that obtain st where "status_of_text (ow_status row) = Some st"
      by (auto simp: pgo_inv_def list_all_iff)
    ultimately have "bk_status (pgo_book db) (ow_orderId row) = Some st" "status_of_text (ow_status row) = Some st"
      by (simp_all add: pgo_book_def)
    with ok(2) show ?thesis by (auto simp: book_ok_def)
  qed
  with ok(1) show ?thesis by (simp add: pgo_inv_def list_all_iff pgo_book_def)
qed

section \<open>Retrying a submission\<close>

definition storable_order :: "NewOrder \<Rightarrow> bool" where
  "storable_order n \<longleftrightarrow> \<not> has_nul (no_idempotencyKey n) \<and> \<not> has_nul (no_requestFingerprint n)
     \<and> \<not> has_nul (no_customerId n) \<and> \<not> js_has_nul (json_wire (JArr (map item_js (no_items n))))
     \<and> \<not> has_nul (no_correlationId n) \<and> UUID_PATTERN (new_orderId n) \<and> UUID_PATTERN (eventId (no_event n))
     \<and> \<not> negative_amount (no_totalAmount n) \<and> \<not> js_has_nul (json_wire (orderCreated_js (no_event n)))"

definition unused_ids :: "OrderDb \<Rightarrow> NewOrder \<Rightarrow> bool" where
  "unused_ids db n \<longleftrightarrow> map lower_char (new_orderId n) \<notin> set (map ow_orderId (pdb_orders db))
     \<and> map lower_char (eventId (no_event n)) \<notin> set (map ow_createdEventId (pdb_orders db))"

lemma outbox_event_ids: "pgo_inv db \<Longrightarrow> map or_eventId (ob_rows (pdb_outbox db)) = map ow_createdEventId (pdb_orders db)"
proof -
  have "list_all2 announces_order rs obs \<Longrightarrow> map or_eventId obs = map ow_createdEventId rs" for rs obs
    by (induction rule: list_all2_induct) (simp_all add: announces_order_def)
  then show "pgo_inv db \<Longrightarrow> ?thesis" by (simp add: pgo_inv_def)
qed

lemma healthy_submit:
  assumes "pgo_inv db" "created_order n" "storable_order n" "unused_ids db n"
    and "\<And>fp i. bk_keys (pgo_book db) (no_idempotencyKey n) = Some (fp, i) \<Longrightarrow> fp = no_requestFingerprint n"
  shows "\<exists>out db'. pgo_submitOrder tm (healthy, now) n db = (Inr out, db') \<and> out \<noteq> KeyReused"
proof (cases "no_idempotencyKey n \<in> set (map ow_idempotencyKey (pdb_orders db))")
  case False
  with assms obtain row db1 where ins: "insert_order now n db = Inr (Some row, db1)"
    and same: "pdb_outbox db1 = pdb_outbox db"
    by (auto simp: insert_order_def storable_order_def unused_ids_def uuid_in_def Let_def)
  have "insertOutboxEvent n db1 \<noteq> Inl e" for e
    using assms(3,4) outbox_event_ids [OF assms(1)]
    by (auto simp: insertOutboxEvent_def outbox_insert_def storable_order_def unused_ids_def uuid_in_def Let_def same
        simp flip: set_map)
  then obtain u db2 where "insertOutboxEvent n db1 = Inr (u, db2)" by (cases "insertOutboxEvent n db1") auto
  with ins show ?thesis
    by (simp add: pgo_submitOrder_def submit_work_def bindE_def insert_plain_row_def)
next
  case True
  with assms(3) have ins: "insert_order now n db = Inr (None, db)"
    by (auto simp: insert_order_def storable_order_def uuid_in_def Let_def)
  from True obtain row where row: "List.find (\<lambda>r. ow_idempotencyKey r = no_idempotencyKey n) (pdb_orders db) = Some row"
    by (fastforce simp: find_None_iff' dest: not_None_eq [THEN iffD1])
  with assms(5) have "ow_requestFingerprint row = no_requestFingerprint n" by (simp add: pgo_book_def)
  with ins row show ?thesis
    by (simp add: pgo_submitOrder_def submit_work_def bindE_def insert_plain_row_def order_of_key_def)
qed

text \<open>
  A client that retries gets its order. After a submission with a new key failed in any way,
  the same request sent again with the same key to a healthy database succeeds, with the order
  the failed attempt had committed if it had, and with a new one if it had not.
\<close>

lemma submit_retry_completes:
  assumes "pgo_inv db" "created_order n" "bk_keys (pgo_book db) (no_idempotencyKey n) = None"
    and "pgo_submitOrder tm c n db = (Inl e, db1)"
    and "created_order m" "storable_order m" "unused_ids db1 m"
    and "no_idempotencyKey m = no_idempotencyKey n" "no_requestFingerprint m = no_requestFingerprint n"
  shows "\<exists>out db2 i. pgo_submitOrder tm (healthy, now) m db1 = (Inr out, db2) \<and> answered_order (Inr out) = Some i
    \<and> bk_keys (pgo_book db2) (no_idempotencyKey n) = Some (no_requestFingerprint n, i)
    \<and> (\<forall>fp j. bk_keys (pgo_book db1) (no_idempotencyKey n) = Some (fp, j) \<longrightarrow> i = j)"
proof -
  from pgo_submit_effect [OF assms(1,2,4)] have inv1: "pgo_inv db1"
    and allowed: "submit_allowed n (pgo_book db) (Inl e) (pgo_book db1)" by blast+
  from allowed assms(3) have fp: "fp = no_requestFingerprint m"
    if "bk_keys (pgo_book db1) (no_idempotencyKey m) = Some (fp, i)" for fp i
    using that assms(8,9) by (auto simp: submit_allowed_def book_submit_def)
  from healthy_submit [OF inv1 assms(5,6,7), of tm now] fp obtain out db2
    where run: "pgo_submitOrder tm (healthy, now) m db1 = (Inr out, db2)" and out: "out \<noteq> KeyReused" by blast
  from out obtain i where i: "answered_order (Inr out) = Some i" by (cases out) auto
  from pgo_submit_effect [OF inv1 assms(5) run] have law: "submit_allowed m (pgo_book db1) (Inr out) (pgo_book db2)" by blast
  from allowed_submit_answer [OF law i] have "bk_keys (pgo_book db2) (no_idempotencyKey n) = Some (no_requestFingerprint n, i)"
    by (simp add: assms(8,9))
  moreover have "i = j" if "bk_keys (pgo_book db1) (no_idempotencyKey n) = Some (fp, j)" for fp j
    using allowed_submit_keeps [OF law that] calculation by simp
  ultimately show ?thesis using run i by blast
qed


lemma recorded_row:
  assumes "record_work tm now e db = Inr (EventRecorded st, db1)"
  obtains row where "List.find (\<lambda>r. tw_eventId r = Some (we_eventId e)) (pdb_timeline db1) = Some row"
    "tw_deliveries row = 1" "tl_timestamptz tm (we_occurredAt e) \<noteq> None"
    "\<not> has_nul (we_eventId e)" "\<not> js_has_nul (json_wire (we_data e))"
proof -
  from assms obtain d ins db0 where up: "upsert_event tm (now 0) e db = Inr ((d, ins), db0)"
    and step: "if ins then pdb_timeline db1 = pdb_timeline db0 else False"
    by (auto simp: record_work_def locked_status_def bindE_eq_Inr update_status_def Let_def
        split: option.splits if_splits)
  from step have "ins" by (simp split: if_splits)
  from up show ?thesis
  proof (cases rule: upsert_event_cases)
    case (repeated r)
    with \<open>ins\<close> show ?thesis by simp
  next
    case (new oid occurred details)
    let ?row = "event_database_row oid occurred (now 0) details e"
    from new(3) have "List.find (\<lambda>r. tw_eventId r = Some (we_eventId e)) (pdb_timeline db) = None"
      by (auto simp: find_None_iff' set_event_ids)
    with step new(1,4) have "List.find (\<lambda>r. tw_eventId r = Some (we_eventId e)) (pdb_timeline db1) = Some ?row"
      by (simp add: find_snoc event_database_row_def)
    moreover have "tl_timestamptz tm (we_occurredAt e) \<noteq> None" "\<not> has_nul (we_eventId e)" "\<not> js_has_nul (json_wire (we_data e))"
      using up by (auto simp: upsert_event_def Let_def split: if_splits option.splits)
    ultimately show ?thesis using that by (simp add: event_database_row_def)
  qed
qed

text \<open>
  A redelivered workflow event is counted, not recorded again: the second delivery answers
  \<open>Duplicate\<close> with count 2 and leaves the orders, their status and their history as they were.
\<close>

lemma redelivered_event_counted:
  assumes "pgo_inv db" "pgo_recordWorkflowEvent tm c e db = (Inr (EventRecorded st), db1)"
  shows "\<exists>db2. pgo_recordWorkflowEvent tm (healthy, now) e db1 = (Inr (EventDuplicate 2), db2)
    \<and> pdb_orders db2 = pdb_orders db1 \<and> pgo_book db2 = pgo_book db1"
proof -
  from assms(2) have uuid: "UUID_PATTERN (we_orderId e)" and "record_work tm (snd c) e db = Inr (EventRecorded st, db1)"
    by (auto simp: pgo_recordWorkflowEvent_def elim!: run_transaction_cases split: if_splits)
  then obtain row where row: "List.find (\<lambda>r. tw_eventId r = Some (we_eventId e)) (pdb_timeline db1) = Some row"
    "tw_deliveries row = 1" "tl_timestamptz tm (we_occurredAt e) \<noteq> None"
    "\<not> has_nul (we_eventId e)" "\<not> js_has_nul (json_wire (we_data e))"
    by (blast elim: recorded_row)
  let ?db2 = "db1 \<lparr>pdb_timeline := count_delivery (we_eventId e) (pdb_timeline db1)\<rparr>"
  from uuid obtain i where i: "uuid_in (we_orderId e) = Some i" by (simp add: uuid_in_def)
  from pgo_record_effect [OF assms] i have "bk_status (pgo_book db1) i = Some st"
    unfolding record_allowed_def by (simp only: sum.case RecordWorkflowEventOutcome.case) (metis option.inject)
  then obtain order where order: "List.find (\<lambda>r. ow_orderId r = i) (pdb_orders db1) = Some order"
    "status_of_text (ow_status order) = Some st"
    by (auto simp: pgo_book_def bind_eq_Some_conv)
  have "upsert_event tm (now 0) e db1 = Inr ((2, False), ?db2)"
    using row i by (auto simp: upsert_event_def Let_def in_int4_def count_delivery_def)
  with order i have "record_work tm now e db1 = Inr (EventDuplicate 2, ?db2)"
    by (simp add: record_work_def locked_status_def bindE_def eq_commute [of "Some i"])
  with uuid have "pgo_recordWorkflowEvent tm (healthy, now) e db1 = (Inr (EventDuplicate 2), ?db2)"
    by (simp add: pgo_recordWorkflowEvent_def)
  moreover have "pgo_book ?db2 = pgo_book db1" by (simp add: pgo_book_def count_delivery_keeps)
  ultimately show ?thesis by (intro exI [of _ ?db2]) simp
qed

section \<open>Witnesses\<close>

definition sample_times :: time_lib where
  "sample_times = \<lparr>tl_timestamptz = (\<lambda>s. Some 0), tl_date = (\<lambda>t. t), tl_toISOString = (\<lambda>t. ''t'')\<rparr>"

definition sample_clock :: "nat \<Rightarrow> int" where
  "sample_clock i = int i"

definition sample_new_order :: "string \<Rightarrow> string \<Rightarrow> string \<Rightarrow> string \<Rightarrow> NewOrder" where
  "sample_new_order key customer oid eid =
     (let items = [\<lparr>productId = ''A'', quantity = 2, unitPrice = Fin 5\<rparr>]
      in \<lparr>no_idempotencyKey = key, no_requestFingerprint = ''f'', no_customerId = customer, no_items = items,
          no_totalAmount = Fin 10, no_correlationId = ''c'',
          no_event = \<lparr>eventId = eid, eventType = OrderCreated, occurredAt = ''t'', correlationId = ''c'',
            event_data = \<lparr>oc_orderId = oid, oc_customerId = customer, oc_items = items, oc_totalAmount = Fin 10\<rparr>\<rparr>\<rparr>)"

definition sample_uuid :: "char \<Rightarrow> string" where
  "sample_uuid c = ''00000000-0000-4000-8000-00000000000'' @ [c]"

definition first_try :: NewOrder where
  "first_try = sample_new_order ''k'' ''cust'' (sample_uuid (CHR ''a'')) (sample_uuid (CHR ''b''))"

definition second_try :: NewOrder where
  "second_try = sample_new_order ''k'' ''cust'' (sample_uuid (CHR ''C'')) (sample_uuid (CHR ''d''))"

definition lost_commit :: tx_env where
  "lost_commit = healthy \<lparr>env_commit := FailAfter (JsError ''reset'')\<rparr>"

definition paid_event :: OrderWorkflowEventRecord where
  "paid_event = \<lparr>we_eventId = ''e-1'', we_eventType = WfPaymentAuthorized, we_orderId = sample_uuid (CHR ''A''),
     we_correlationId = ''c'', we_occurredAt = ''t'', we_data = JObj []\<rparr>"

text \<open>The first submission loses its COMMIT acknowledgement; the retries find the order.\<close>

definition after_lost :: OrderDb where
  "after_lost = snd (pgo_submitOrder sample_times (lost_commit, sample_clock) first_try empty_order_db)"

definition after_retry :: OrderDb where
  "after_retry = snd (pgo_submitOrder sample_times (healthy, sample_clock) second_try after_lost)"

definition sample_ops :: "(tx_env \<times> (nat \<Rightarrow> int)) order_op list" where
  "sample_ops = [SubmitOp (lost_commit, sample_clock) first_try, SubmitOp (healthy, sample_clock) second_try,
     SubmitOp (healthy, sample_clock) first_try, RecordOp (healthy, sample_clock) paid_event]"

lemma typed_sample: "typed_ops sample_ops"
  by (simp add: typed_ops_def sample_ops_def created_order_def first_try_def second_try_def sample_new_order_def Let_def)

lemma sample_answers:
  "answered_order (fst (pgo_submitOrder sample_times (healthy, sample_clock) second_try after_lost)) = Some (sample_uuid (CHR ''a''))"
  "answered_order (fst (pgo_submitOrder sample_times (healthy, sample_clock) first_try after_retry)) = Some (sample_uuid (CHR ''a''))"
  by code_simp+

theorem one_order_per_key_witness:
  "\<exists>!row. row \<in> set (pdb_orders (snd (orders_run sample_times sample_ops empty_order_db))) \<and> ow_idempotencyKey row = ''k''"
proof -
  let ?run = "orders_run sample_times sample_ops empty_order_db"
  have "SubmitAnswer second_try (fst (pgo_submitOrder sample_times (healthy, sample_clock) second_try after_lost)) \<in> set (fst ?run)"
    "SubmitAnswer first_try (fst (pgo_submitOrder sample_times (healthy, sample_clock) first_try after_retry)) \<in> set (fst ?run)"
    by (simp_all add: orders_run_def sample_ops_def after_lost_def after_retry_def)
  moreover have "no_idempotencyKey second_try = no_idempotencyKey first_try" "no_idempotencyKey second_try = ''k''"
    by code_simp+
  ultimately show ?thesis
    using one_order_per_key [OF typed_sample empty_order_db_ok(1) _ sample_answers(1) _ sample_answers(2)] by simp
qed

theorem order_tables_consistent_witness:
  "let db = snd (orders_run sample_times sample_ops empty_order_db)
   in list_all2 announces_order (pdb_orders db) (ob_rows (pdb_outbox db)) \<and> length (pdb_orders db) = 1"
proof -
  have "list_all2 announces_order (pdb_orders (snd (orders_run sample_times sample_ops empty_order_db)))
      (ob_rows (pdb_outbox (snd (orders_run sample_times sample_ops empty_order_db))))"
    using order_tables_consistent [OF typed_sample surjective_pairing] by blast
  moreover have "length (pdb_orders (snd (orders_run sample_times sample_ops empty_order_db))) = 1"
    by code_simp
  ultimately show ?thesis by (simp add: Let_def)
qed


end
