(* ===== verification/OrderApp.thy ===== *)
theory OrderApp
  imports Http OrderTimeline PostgresOrders
begin

text \<open>
  services/order-service/src/app.ts: the Order API over any order store, and the guarantees a
  client has when the store is the PostgreSQL one.
\<close>

definition DEFAULT_LIST_LIMIT :: nat where "DEFAULT_LIST_LIMIT = 20"

definition MAX_LIST_LIMIT :: nat where "MAX_LIST_LIMIT = 100"

definition quoted :: "string \<Rightarrow> string" where
  "quoted s = [CHR 0x27] @ s @ [CHR 0x27]"

definition CONTENT_SECURITY_POLICY :: string where
  "CONTENT_SECURITY_POLICY =
     ''default-src '' @ quoted ''none'' @ ''; script-src '' @ quoted ''self'' @ ''; style-src '' @ quoted ''self'' @ ''; '' @
     ''connect-src '' @ quoted ''self'' @ ''; img-src '' @ quoted ''self'' @ '' data:; base-uri '' @ quoted ''none'' @ ''; '' @
     ''form-action '' @ quoted ''none'' @ ''; frame-ancestors '' @ quoted ''none''"

text \<open>Set on every response before any handler runs.\<close>

definition SECURITY_HEADERS :: "(string \<times> string) list" where
  "SECURITY_HEADERS =
     [(''Content-Security-Policy'', CONTENT_SECURITY_POLICY), (''X-Content-Type-Options'', ''nosniff''),
      (''Referrer-Policy'', ''no-referrer'')]"

definition order_response :: "nat \<Rightarrow> (string \<times> string) list \<Rightarrow> js \<Rightarrow> HttpResponse" where
  "order_response status headers body =
     \<lparr>http_status = status, http_headers = SECURITY_HEADERS @ headers, http_body = body\<rparr>"

section \<open>POST /orders\<close>

record 's post_result =
  pr_response :: HttpResponse
  pr_logs :: "log_call list"
  pr_accepted :: bool
  pr_state :: 's

definition toCreatedResponse :: "StoredOrder \<Rightarrow> js" where
  "toCreatedResponse order = JObj
     [(''orderId'', JStr (so_orderId order)), (''status'', JStr ''Created''),
      (''totalAmount'', JNum (so_totalAmount order)), (''correlationId'', JStr (so_correlationId order))]"

definition invalid_request_error :: string where
  "invalid_request_error = ''Invalid order request. '' @ ''Expected customerId and '' @
     ''at least one order item '' @ ''with productId, quantity '' @ ''and unitPrice.''"

definition store_failed_error :: string where
  "store_failed_error = ''The order could not be stored right now. Retry '' @
     ''with the same Idempotency-Key; it will not be '' @ ''created twice.''"

definition key_reused_error :: string where
  "key_reused_error = ''This Idempotency-Key was already used for a '' @
     ''different order. Use a new key for a new order.''"

text \<open>
  A request as the handler sees it: the two headers it reads and the body Express parsed. The
  service's libraries are arguments: zod with the issues it reports, number printing, SHA-256,
  the id generator and the clock of \<open>OrderService\<close>.
\<close>

record PostRequest =
  rq_idempotencyKey :: "string option"
  rq_correlationId :: "string option"
  rq_body :: js

record order_libs =
  ol_zod :: zod_lib
  ol_issues :: "js \<Rightarrow> js"
  ol_num_text :: "rat \<Rightarrow> string"
  ol_sha256 :: "string \<Rightarrow> string"

definition new_order :: "string \<Rightarrow> CreateOrderRequest \<Rightarrow> CreateOrderResult \<Rightarrow> NewOrder" where
  "new_order key request result =
     \<lparr>no_idempotencyKey = key, no_requestFingerprint = cor_fingerprint result,
      no_customerId = cr_customerId request, no_items = cr_items request,
      no_totalAmount = res_totalAmount (cor_response result),
      no_correlationId = res_correlationId (cor_response result), no_event = cor_event result\<rparr>"

definition created_log :: "CreateOrderResult \<Rightarrow> StoredOrder \<Rightarrow> log_call" where
  "created_log result order = LogInfo ''Created order''
     [(''orderId'', JStr (so_orderId order)), (''eventId'', JStr (eventId (cor_event result))),
      (''customerId'', JStr (so_customerId order)), (''correlationId'', JStr (so_correlationId order)),
      (''totalAmount'', JNum (so_totalAmount order)), (''itemCount'', int_js (int (length (so_items order))))]"

definition answer_submission ::
    "CreateOrderResult \<Rightarrow> js_error + SubmitOrderOutcome \<Rightarrow> 's \<Rightarrow> 's post_result" where
  "answer_submission result outcome s =
     (let correlation = JStr (res_correlationId (cor_response result))
      in case outcome of
        Inl e \<Rightarrow>
          \<lparr>pr_response = order_response 503 [(''Retry-After'', ''5'')]
             (JObj [(''error'', JStr store_failed_error), (''correlationId'', correlation)]),
           pr_logs = [LogError ''Could not store the order'' e [(''correlationId'', correlation)]],
           pr_accepted = False, pr_state = s\<rparr>
      | Inr (SubmitCreated order) \<Rightarrow>
          \<lparr>pr_response = order_response 201 [(''x-correlation-id'', so_correlationId order)] (toCreatedResponse order),
           pr_logs = [created_log result order], pr_accepted = True, pr_state = s\<rparr>
      | Inr (SubmitReplayed order) \<Rightarrow>
          \<lparr>pr_response = order_response 200
             [(''x-correlation-id'', so_correlationId order), (''Idempotent-Replayed'', ''true'')] (toCreatedResponse order),
           pr_logs = [LogInfo ''Replayed order for a repeated Idempotency-Key''
             [(''orderId'', JStr (so_orderId order)), (''correlationId'', JStr (so_correlationId order))]],
           pr_accepted = False, pr_state = s\<rparr>
      | Inr KeyReused \<Rightarrow>
          \<lparr>pr_response = order_response 422 [] (error_body key_reused_error),
           pr_logs = [LogWarn ''Rejected an Idempotency-Key reused for a different order'' [(''correlationId'', correlation)]],
           pr_accepted = False, pr_state = s\<rparr>)"

definition post_orders ::
    "order_libs \<Rightarrow> (nat \<Rightarrow> string) \<Rightarrow> string \<Rightarrow> (NewOrder \<Rightarrow> ('s, SubmitOrderOutcome) io)
      \<Rightarrow> PostRequest \<Rightarrow> 's \<Rightarrow> 's post_result" where
  "post_orders libs gen now submit req s =
     (case parseIdempotencyKey (rq_idempotencyKey req) of
        Inl err \<Rightarrow>
          \<lparr>pr_response = order_response 400 [] (error_body err), pr_logs = [], pr_accepted = False, pr_state = s\<rparr>
      | Inr key \<Rightarrow>
          (case parseCreateOrderRequest (ol_zod libs) (rq_body req) of
             None \<Rightarrow>
               \<lparr>pr_response = order_response 400 [] (error_body invalid_request_error),
                pr_logs = [LogWarn ''Rejected invalid order request''
                  [(''validationIssues'', ol_issues libs (rq_body req))]],
                pr_accepted = False, pr_state = s\<rparr>
           | Some request \<Rightarrow>
               (let result = createOrder (ol_num_text libs) (ol_sha256 libs) gen now request (rq_correlationId req);
                    (outcome, s') = submit (new_order key request result) s
                in answer_submission result outcome s')))"

section \<open>GET /orders and GET /orders/:orderId\<close>

definition digits_value :: "string \<Rightarrow> nat" where
  "digits_value s = foldl (\<lambda>n c. 10 * n + (of_char c - 48)) 0 s"

definition parseLimit :: "js \<Rightarrow> nat option" where
  "parseLimit v =
     (case v of
        JUndefined \<Rightarrow> Some DEFAULT_LIST_LIMIT
      | JStr s \<Rightarrow>
          if 1 \<le> length s \<and> length s \<le> 3 \<and> list_all is_digit s then
            (let limit = digits_value s in if 1 \<le> limit \<and> limit \<le> MAX_LIST_LIMIT then Some limit else None)
          else None
      | _ \<Rightarrow> None)"

definition option_js :: "string option \<Rightarrow> js" where
  "option_js x = (case x of None \<Rightarrow> JNull | Some s \<Rightarrow> JStr s)"

definition storedOrder_js :: "StoredOrder \<Rightarrow> js" where
  "storedOrder_js st = JObj
     [(''orderId'', JStr (so_orderId st)), (''customerId'', JStr (so_customerId st)),
      (''items'', JArr (map item_js (so_items st))), (''totalAmount'', JNum (so_totalAmount st)),
      (''correlationId'', JStr (so_correlationId st)), (''status'', JStr (order_status_text (so_status st))),
      (''createdAt'', JStr (so_createdAt st)), (''updatedAt'', JStr (so_updatedAt st))]"

fun entry_kind_text :: "TimelineEntryKind \<Rightarrow> string" where
  "entry_kind_text EntryAccepted = ''Accepted''"
| "entry_kind_text EntryReplayed = ''Replayed''"
| "entry_kind_text EntryPublished = ''Published''"
| "entry_kind_text EntryPublicationPending = ''PublicationPending''"
| "entry_kind_text EntryEvent = ''Event''"

fun entry_outcome_text :: "EntryOutcome \<Rightarrow> string" where
  "entry_outcome_text EntrySuccess = ''Success''"
| "entry_outcome_text EntryFailure = ''Failure''"
| "entry_outcome_text EntryInfo = ''Info''"
| "entry_outcome_text EntryWaiting = ''Waiting''"

fun order_outcome_text :: "OrderOutcome \<Rightarrow> string" where
  "order_outcome_text InProgress = ''InProgress''"
| "order_outcome_text Completed = ''Completed''"
| "order_outcome_text Failed = ''Failed''"

definition entry_js :: "TimelineEntry \<Rightarrow> js" where
  "entry_js e = JObj
     [(''kind'', JStr (entry_kind_text (te_kind e))), (''at'', JStr (te_at e)), (''service'', JStr (te_service e)),
      (''title'', JStr (te_title e)), (''description'', JStr (te_description e)),
      (''eventType'', option_js (te_eventType e)), (''eventId'', option_js (te_eventId e)),
      (''simulated'', JBool (te_simulated e)), (''deliveries'', int_js (te_deliveries e)),
      (''producerTime'', option_js (te_producerTime e)), (''outcome'', JStr (entry_outcome_text (te_outcome e)))]"

definition publication_js :: "OrderPublication option \<Rightarrow> js" where
  "publication_js x = (case x of
     None \<Rightarrow> JNull
   | Some p \<Rightarrow> JObj
       [(''eventId'', JStr (op_eventId p)), (''createdAt'', JStr (op_createdAt p)),
        (''publishedAt'', option_js (op_publishedAt p)), (''attempts'', int_js (op_attempts p)),
        (''lastError'', option_js (op_lastError p))])"

definition limit_error :: string where
  "limit_error = ''limit must be an integer from 1 to '' @ nat_text MAX_LIST_LIMIT @ ''.''"

text \<open>\<open>Inl\<close> is an error that goes to the error middleware.\<close>

definition get_orders :: "(nat \<Rightarrow> js_error + StoredOrder list) \<Rightarrow> js \<Rightarrow> js_error + HttpResponse" where
  "get_orders listRecentOrders query_limit =
     (case parseLimit query_limit of
        None \<Rightarrow> Inr (order_response 400 [] (error_body limit_error))
      | Some limit \<Rightarrow>
          (case listRecentOrders limit of
             Inl e \<Rightarrow> Inl e
           | Inr orders \<Rightarrow> Inr (order_response 200 [] (JObj [(''orders'', JArr (map storedOrder_js orders))]))))"

definition get_order ::
    "(rat \<Rightarrow> string) \<Rightarrow> (string \<Rightarrow> int option) \<Rightarrow> (string \<Rightarrow> js_error + OrderDetails option)
      \<Rightarrow> string \<Rightarrow> js_error + HttpResponse" where
  "get_order num_text date_parse getOrderDetails oid =
     (case getOrderDetails oid of
        Inl e \<Rightarrow> Inl e
      | Inr None \<Rightarrow> Inr (order_response 404 [] (error_body ''Order not found.''))
      | Inr (Some details) \<Rightarrow>
          (let view = buildOrderTimeline num_text date_parse details
           in Inr (order_response 200 [] (JObj
                [(''order'', storedOrder_js (tv_order view)), (''outcome'', JStr (order_outcome_text (tv_outcome view))),
                 (''summary'', JStr (tv_summary view)), (''entries'', JArr (map entry_js (tv_entries view))),
                 (''publication'', publication_js (od_publication details))]))))"

section \<open>Errors\<close>

text \<open>
  What reaches the error middleware: an error of a handler, or the one Express raises for a body
  that is not JSON, which carries \<open>type = entity.parse.failed\<close>.
\<close>

datatype request_error = HandlerError js_error | BodyParserError js js_error

definition isMalformedJsonError :: "request_error \<Rightarrow> bool" where
  "isMalformedJsonError err = (case err of
     HandlerError e \<Rightarrow> False
   | BodyParserError type_property e \<Rightarrow> type_property = JStr ''entity.parse.failed'')"

definition request_error_of :: "request_error \<Rightarrow> js_error" where
  "request_error_of err = (case err of HandlerError e \<Rightarrow> e | BodyParserError t e \<Rightarrow> e)"

definition order_error_middleware :: "request_error \<Rightarrow> string \<Rightarrow> string \<Rightarrow> HttpResponse \<times> log_call list" where
  "order_error_middleware err verb path =
     (if isMalformedJsonError err then
        (order_response 400 [] (error_body ''The request body is not valid JSON.''), [])
      else (order_response 503 [] (error_body ''The order data is temporarily unavailable.''),
            [request_failed_log (request_error_of err) verb path]))"

section \<open>Orders keep their identity\<close>

definition row_identity :: "OrderRow \<Rightarrow> string \<times> string \<times> string \<times> jsnum \<times> string" where
  "row_identity r = (ow_idempotencyKey r, ow_requestFingerprint r, ow_orderId r, ow_totalAmount r, ow_correlationId r)"

definition orders_extend :: "OrderDb \<Rightarrow> OrderDb \<Rightarrow> bool" where
  "orders_extend db db' \<longleftrightarrow> row_identity ` set (pdb_orders db) \<subseteq> row_identity ` set (pdb_orders db')"

lemma orders_extend_trans [trans]: "orders_extend a b \<Longrightarrow> orders_extend b c \<Longrightarrow> orders_extend a c"
  by (auto simp: orders_extend_def)

lemma orders_extend_refl [simp]: "orders_extend a a"
  by (simp add: orders_extend_def)

text \<open>An answered submission names a row of the table.\<close>

definition answers_row :: "NewOrder \<Rightarrow> StoredOrder \<Rightarrow> OrderDb \<Rightarrow> bool" where
  "answers_row n st db \<longleftrightarrow>
     (no_idempotencyKey n, no_requestFingerprint n, so_orderId st, so_totalAmount st, so_correlationId st)
       \<in> row_identity ` set (pdb_orders db)"

lemma outbox_event_orders: "insertOutboxEvent n db = Inr (u, db') \<Longrightarrow> pdb_orders db' = pdb_orders db"
  by (auto simp: insertOutboxEvent_def Let_def split: if_splits sum.splits)

lemma submit_work_extends:
  assumes "submit_work tm now n db = Inr (out, db')"
  shows "orders_extend db db' \<and>
    (case out of SubmitCreated st \<Rightarrow> answers_row n st db' | SubmitReplayed st \<Rightarrow> answers_row n st db' | KeyReused \<Rightarrow> True)"
proof -
  from assms obtain q db1 where ins: "insert_order now n db = Inr (q, db1)" unfolding submit_work_def by blast
  then show ?thesis
  proof (cases rule: insert_order_cases)
    case (inserted oid eid row)
    with assms ins have "pdb_orders db' = pdb_orders db @ [row]" "out = SubmitCreated (toStoredOrder tm row)"
      by (auto simp: submit_work_def bindE_eq_Inr insert_plain_row_def dest: outbox_event_orders)
    with inserted show ?thesis by (auto simp: orders_extend_def answers_row_def row_identity_def toStoredOrder_def)
  next
    case conflict
    with assms ins obtain row where row: "List.find (\<lambda>r. ow_idempotencyKey r = no_idempotencyKey n) (pdb_orders db) = Some row"
      by (auto simp: submit_work_def bindE_eq_Inr order_of_key_def split: option.splits)
    with assms ins conflict have "pdb_orders db' = pdb_orders db"
      "out = (if ow_requestFingerprint row = no_requestFingerprint n then SubmitReplayed (toStoredOrder tm row) else KeyReused)"
      by (auto simp: submit_work_def bindE_eq_Inr order_of_key_def insert_plain_row_def split: if_splits)
    with find_Some_mem [OF row] show ?thesis
      by (auto simp: orders_extend_def answers_row_def row_identity_def toStoredOrder_def image_iff split: if_splits
          intro: bexI [of _ row])
  qed
qed

lemma pgo_submit_extends:
  assumes "pgo_submitOrder tm c n db = (r, db')"
  shows "orders_extend db db' \<and>
    (case r of Inr (SubmitCreated st) \<Rightarrow> answers_row n st db' | Inr (SubmitReplayed st) \<Rightarrow> answers_row n st db' | _ \<Rightarrow> True)"
  using assms unfolding pgo_submitOrder_def
proof (cases rule: run_transaction_cases)
  case (returned x)
  from submit_work_extends [OF returned(2)] returned(1) show ?thesis by (simp split: SubmitOrderOutcome.splits)
next
  case (lost e x)
  from submit_work_extends [OF lost(2)] lost(1) show ?thesis by simp
qed simp

lemma upsert_event_orders: "upsert_event tm t e db = Inr (x, db') \<Longrightarrow> pdb_orders db' = pdb_orders db"
  by (auto simp: upsert_event_def Let_def split: if_splits option.splits)

lemma update_status_identity:
  "update_status oid st t db = Inr (u, db') \<Longrightarrow> row_identity ` set (pdb_orders db') = row_identity ` set (pdb_orders db)"
proof -
  assume "update_status oid st t db = Inr (u, db')"
  then have "pdb_orders db' = map (\<lambda>r. if Some (ow_orderId r) = uuid_in oid
      then r \<lparr>ow_status := st, ow_updatedAt := t\<rparr> else r) (pdb_orders db)"
    by (auto simp: update_status_def)
  moreover have "row_identity (if P then r \<lparr>ow_status := st, ow_updatedAt := t\<rparr> else r) = row_identity r" for P r
    by (simp add: row_identity_def)
  ultimately show ?thesis by (simp only: set_map image_image)
qed

lemma record_work_extends: "record_work tm now e db = Inr (out, db') \<Longrightarrow> orders_extend db db'"
  by (auto simp: record_work_def bindE_eq_Inr locked_status_def orders_extend_def Let_def
      dest!: upsert_event_orders update_status_identity split: option.splits if_splits)

lemma pgo_record_extends:
  assumes "pgo_recordWorkflowEvent tm c e db = (q, db')"
  shows "orders_extend db db'"
proof (cases "UUID_PATTERN (we_orderId e)")
  case True
  with assms have "run_transaction (fst c) (record_work tm (snd c) e) db = (q, db')" by (simp add: pgo_recordWorkflowEvent_def)
  then show ?thesis by (cases rule: run_transaction_cases) (auto dest: record_work_extends)
qed (use assms in \<open>auto simp: pgo_recordWorkflowEvent_def\<close>)

lemma orders_run_extends: "orders_extend db (snd (orders_run tm ops db))"
  unfolding orders_run_def
proof (induction ops arbitrary: db)
  case (Cons p ops)
  show ?case
  proof (cases p)
    case (SubmitOp c n)
    with Cons pgo_submit_extends [of tm c n db, OF surjective_pairing] show ?thesis by (auto intro: orders_extend_trans)
  next
    case (RecordOp c e)
    with Cons pgo_record_extends [of tm c e db, OF surjective_pairing] show ?thesis by (auto intro: orders_extend_trans)
  qed
qed simp

section \<open>What a client of the API can rely on\<close>

lemma created_order_new: "created_order (new_order key request (createOrder nt sha gen now request supplied))"
  by (simp add: created_order_def new_order_def createOrder_def Let_def split: prod.split)

text \<open>An order answer: the store answered with an order, and the body is that order's.\<close>

lemma post_order_answer:
  assumes "post_orders libs gen now submit req s = r" "http_status (pr_response r) \<in> {200, 201}"
  obtains n key st where "created_order n" "rq_idempotencyKey req = Some key" "no_idempotencyKey n = key"
    "submit n s = (Inr (if pr_accepted r then SubmitCreated st else SubmitReplayed st), pr_state r)"
    "http_status (pr_response r) = (if pr_accepted r then 201 else 200)"
    "http_body (pr_response r) = toCreatedResponse st"
proof -
  from assms obtain key request where k: "parseIdempotencyKey (rq_idempotencyKey req) = Inr key"
    and b: "parseCreateOrderRequest (ol_zod libs) (rq_body req) = Some request"
    by (auto simp: post_orders_def order_response_def split: sum.splits option.splits)
  let ?res = "createOrder (ol_num_text libs) (ol_sha256 libs) gen now request (rq_correlationId req)"
  let ?n = "new_order key request ?res"
  obtain out s' where run: "submit ?n s = (out, s')" by fastforce
  with assms(1) k b have r: "r = answer_submission ?res out s'" by (simp add: post_orders_def Let_def)
  have key: "rq_idempotencyKey req = Some key"
    using k by (auto simp: parseIdempotencyKey_def split: option.splits if_splits)
  have n: "created_order ?n" "no_idempotencyKey ?n = key" using created_order_new by (simp_all add: new_order_def)
  show ?thesis
  proof (cases out)
    case (Inl e)
    with assms(2) show ?thesis by (simp add: r answer_submission_def Let_def order_response_def)
  next
    case (Inr q)
    with assms(2) run that [OF n(1) key n(2)] show ?thesis
      by (cases q) (auto simp: r answer_submission_def Let_def order_response_def)
  qed
qed

text \<open>
  C18: a client that repeats a request gets the same order and the same answer. If POST /orders
  answered a key with an order (201 or 200), then after any further submissions and workflow
  events with any faults, an order answer for that key again is a 200 with the identical body,
  and it wakes no relay because nothing new was stored.
\<close>

theorem api_retry_same_answer:
  assumes "pgo_inv db" "typed_ops ops" "rq_idempotencyKey req2 = rq_idempotencyKey req1"
    and "post_orders libs gen1 now1 (pgo_submitOrder tm c1) req1 db = r1" "http_status (pr_response r1) \<in> {200, 201}"
    and "post_orders libs gen2 now2 (pgo_submitOrder tm c2) req2 (snd (orders_run tm ops (pr_state r1))) = r2"
    and "http_status (pr_response r2) \<in> {200, 201}"
  shows "http_status (pr_response r2) = 200 \<and> http_body (pr_response r2) = http_body (pr_response r1)
    \<and> \<not> pr_accepted r2"
proof -
  let ?db1 = "pr_state r1" and ?db2 = "snd (orders_run tm ops (pr_state r1))" and ?db3 = "pr_state r2"
  from post_order_answer [OF assms(4,5)] obtain n key st where n: "created_order n" "rq_idempotencyKey req1 = Some key"
    "no_idempotencyKey n = key" and run1: "pgo_submitOrder tm c1 n db = (Inr (if pr_accepted r1 then SubmitCreated st else SubmitReplayed st), ?db1)"
    and b1: "http_body (pr_response r1) = toCreatedResponse st" by metis
  from post_order_answer [OF assms(6,7)] assms(3) n(2) obtain m st2 where m: "created_order m" "no_idempotencyKey m = key"
    and run2: "pgo_submitOrder tm c2 m ?db2 = (Inr (if pr_accepted r2 then SubmitCreated st2 else SubmitReplayed st2), ?db3)"
    and s2: "http_status (pr_response r2) = (if pr_accepted r2 then 201 else 200)"
    and b2: "http_body (pr_response r2) = toCreatedResponse st2" by (metis option.inject)
  from pgo_submit_effect [OF assms(1) n(1) run1] have inv1: "pgo_inv ?db1" by blast
  have inv2: "pgo_inv ?db2"
    using pgo.run_inv [OF inv1 typed_ops_fresh [OF assms(2)]] by (simp add: orders_run_def)
  from pgo_submit_effect [OF inv2 m(1) run2] have inv3: "pgo_inv ?db3"
    and law: "submit_allowed m (pgo_book ?db2) (Inr (if pr_accepted r2 then SubmitCreated st2 else SubmitReplayed st2)) (pgo_book ?db3)"
    by blast+
  from pgo_submit_extends [OF run1] have row1: "answers_row n st ?db1" by (simp split: if_splits)
  from pgo_submit_extends [OF run2] have row2: "answers_row m st2 ?db3" and ext: "orders_extend ?db2 ?db3"
    by (simp_all split: if_splits)
  from row1 orders_run_extends [of ?db1 tm ops] have row1': "answers_row n st ?db2"
    by (auto simp: answers_row_def orders_extend_def)
  with ext have row1'': "answers_row n st ?db3" by (auto simp: answers_row_def orders_extend_def)
  have "distinct (map ow_idempotencyKey (pdb_orders ?db3))" using inv3 by (simp add: pgo_inv_def)
  with row1'' row2 n(3) m(2) have "so_orderId st = so_orderId st2 \<and> so_totalAmount st = so_totalAmount st2
      \<and> so_correlationId st = so_correlationId st2"
    by (auto simp: answers_row_def row_identity_def distinct_map inj_on_def)
  moreover have "\<not> pr_accepted r2"
  proof
    assume "pr_accepted r2"
    with law have "bk_keys (pgo_book ?db2) key = None" using m(2) by (simp add: submit_allowed_def)
    then have "key \<notin> ow_idempotencyKey ` set (pdb_orders ?db2)"
      by (auto simp: pgo_book_def find_None_iff')
    with row1' n(3) show False by (auto simp: answers_row_def row_identity_def)
  qed
  ultimately show ?thesis using b1 b2 s2 by (simp add: toCreatedResponse_def)
qed

section \<open>Witness\<close>

text \<open>Libraries under which every body parses as it is and every request has one fingerprint.\<close>

definition sample_libs :: order_libs where
  "sample_libs = \<lparr>ol_zod = \<lparr>zod_parse = (\<lambda>schema v. Some v), iso_datetime = (\<lambda>_. True), iso_date = (\<lambda>_. True)\<rparr>,
     ol_issues = (\<lambda>_. JArr []), ol_num_text = (\<lambda>_. ''n''), ol_sha256 = (\<lambda>_. ''f'')\<rparr>"

definition sample_gen :: "char \<Rightarrow> nat \<Rightarrow> string" where
  "sample_gen c k = (if k = 0 then sample_uuid c else sample_uuid (CHR ''f''))"

definition sample_post :: "string \<Rightarrow> PostRequest" where
  "sample_post corr = \<lparr>rq_idempotencyKey = Some ''k'', rq_correlationId = Some corr,
     rq_body = JObj [(''customerId'', JStr ''u''), (''items'', JArr [])]\<rparr>"

definition posted :: "OrderDb post_result" where
  "posted = post_orders sample_libs (sample_gen (CHR ''a'')) ''t'' (pgo_submitOrder sample_times (healthy, sample_clock))
     (sample_post ''c'') empty_order_db"

definition posted_db :: OrderDb where
  "posted_db = \<lparr>
     pdb_orders = [\<lparr>ow_orderId = sample_uuid (CHR ''a''), ow_idempotencyKey = ''k'', ow_requestFingerprint = ''f'',
       ow_customerId = ''u'', ow_items = JArr [], ow_totalAmount = Fin 0, ow_correlationId = ''c'',
       ow_createdEventId = sample_uuid (CHR ''f''), ow_status = ''Created'', ow_createdAt = 0, ow_updatedAt = 1\<rparr>],
     pdb_timeline = [\<lparr>tw_orderId = sample_uuid (CHR ''a''), tw_kind = RowAccepted, tw_eventId = None, tw_eventType = None,
       tw_occurredAt = 0, tw_recordedAt = 2, tw_deliveries = 1, tw_details = JNull\<rparr>],
     pdb_outbox = pdb_outbox (pr_state posted)\<rparr>"

lemma posted_state: "pr_state posted = posted_db"
proof -
  have "pdb_orders (pr_state posted) = pdb_orders posted_db" "pdb_timeline (pr_state posted) = pdb_timeline posted_db"
    by code_simp+
  then show ?thesis by (simp add: posted_db_def)
qed

definition paid_db :: OrderDb where
  "paid_db = snd (orders_run sample_times [RecordOp (healthy, sample_clock) paid_event] posted_db)"

theorem api_retry_same_answer_witness:
  "http_body (pr_response (post_orders sample_libs (sample_gen (CHR ''b'')) ''t2'' (pgo_submitOrder sample_times (healthy, sample_clock))
       (sample_post ''c2'') paid_db)) = http_body (pr_response posted)"
proof -
  let ?ops = "[RecordOp (healthy, sample_clock) paid_event]"
  let ?r2 = "post_orders sample_libs (sample_gen (CHR ''b'')) ''t2'' (pgo_submitOrder sample_times (healthy, sample_clock))
       (sample_post ''c2'') paid_db"
  have "http_status (pr_response posted) \<in> {200, 201}" "http_status (pr_response ?r2) \<in> {200, 201}" by code_simp+
  moreover have "typed_ops ?ops" by (simp add: typed_ops_def)
  moreover have "rq_idempotencyKey (sample_post ''c2'') = rq_idempotencyKey (sample_post ''c'')"
    by (simp add: sample_post_def)
  moreover have "post_orders sample_libs (sample_gen (CHR ''b'')) ''t2'' (pgo_submitOrder sample_times (healthy, sample_clock))
       (sample_post ''c2'') (snd (orders_run sample_times ?ops (pr_state posted))) = ?r2"
    by (simp add: posted_state paid_db_def)
  ultimately show ?thesis
    using api_retry_same_answer [OF empty_order_db_ok(1) _ _ posted_def [symmetric]] by blast
qed

end
