(* ===== verification/OrderWorkflow.thy ===== *)
theory OrderWorkflow
  imports PostgresOrders MessageErrors
begin

text \<open>
  services/order-service/src/orderWorkflowEventHandler.ts: the consumer that records the other
  services' events in the order's timeline.
\<close>

datatype OrderWorkflowEvent =
    WePaymentAuthorized PaymentAuthorizedEvent
  | WeInventoryReserved InventoryReservedEvent
  | WeInventoryReservationFailed InventoryReservationFailedEvent
  | WeDeliveryBooked DeliveryBookedEvent

definition parseOrderWorkflowEvent :: "(rat \<Rightarrow> string) \<Rightarrow> zod_lib \<Rightarrow> js \<Rightarrow> js_error + OrderWorkflowEvent" where
  "parseOrderWorkflowEvent num_text z v =
     (let event_type = js_get v ''eventType''
      in if event_type = JStr ''PaymentAuthorized'' then map_sum id WePaymentAuthorized (parsePaymentAuthorizedEvent z v)
         else if event_type = JStr ''InventoryReserved'' then map_sum id WeInventoryReserved (parseInventoryReservedEvent z v)
         else if event_type = JStr ''InventoryReservationFailed'' then
           map_sum id WeInventoryReservationFailed (parseInventoryReservationFailedEvent z v)
         else if event_type = JStr ''DeliveryBooked'' then map_sum id WeDeliveryBooked (parseDeliveryBookedEvent z v)
         else Inl (JsError (''Unsupported event type for the order timeline: '' @ String_of num_text event_type)))"

text \<open>The record the handler stores; \<open>event.data\<close> goes to the timeline as it is.\<close>

definition workflow_record :: "OrderWorkflowEventType \<Rightarrow> ('d \<Rightarrow> string) \<Rightarrow> js \<Rightarrow> 'd DomainEvent \<Rightarrow> OrderWorkflowEventRecord" where
  "workflow_record w order_id data e = \<lparr>we_eventId = eventId e, we_eventType = w, we_orderId = order_id (event_data e),
     we_correlationId = correlationId e, we_occurredAt = occurredAt e, we_data = data\<rparr>"

fun event_record :: "OrderWorkflowEvent \<Rightarrow> OrderWorkflowEventRecord" where
  "event_record (WePaymentAuthorized e) =
     workflow_record WfPaymentAuthorized pa_orderId (js_get (paymentAuthorized_js e) ''data'') e"
| "event_record (WeInventoryReserved e) =
     workflow_record WfInventoryReserved ir_orderId (js_get (inventoryReserved_js e) ''data'') e"
| "event_record (WeInventoryReservationFailed e) =
     workflow_record WfInventoryReservationFailed rf_orderId (js_get (reservationFailed_js e) ''data'') e"
| "event_record (WeDeliveryBooked e) =
     workflow_record WfDeliveryBooked db_orderId (js_get (deliveryBooked_js e) ''data'') e"

definition workflow_context :: "OrderWorkflowEventRecord \<Rightarrow> log_context" where
  "workflow_context r =
     [(''eventId'', JStr (we_eventId r)),
      (''eventType'', JStr (eventType_text (workflow_eventType (we_eventType r)))),
      (''orderId'', JStr (we_orderId r)), (''correlationId'', JStr (we_correlationId r))]"

definition outcome_log :: "OrderWorkflowEventRecord \<Rightarrow> RecordWorkflowEventOutcome \<Rightarrow> log_call" where
  "outcome_log r outcome =
     (case outcome of
        EventRecorded st \<Rightarrow> LogInfo ''Recorded order workflow event''
          (spread (workflow_context r) [(''orderStatus'', JStr (order_status_text st))])
      | EventDuplicate deliveries \<Rightarrow> LogWarn ''Ignored duplicate order workflow event''
          (spread (workflow_context r) [(''deliveries'', int_js deliveries)])
      | UnknownOrder \<Rightarrow> LogWarn ''Ignored workflow event for an unknown order'' (workflow_context r))"

text \<open>What the handler leaves: the store, what it logged, and whether it threw (then it is retried).\<close>

definition orderWorkflowEventHandler ::
    "(OrderWorkflowEventRecord \<Rightarrow> ('s, RecordWorkflowEventOutcome) io) \<Rightarrow> OrderWorkflowEvent
      \<Rightarrow> 's \<Rightarrow> (js_error + log_call) \<times> 's" where
  "orderWorkflowEventHandler record event s =
     (case record (event_record event) s of
        (Inl e, s') \<Rightarrow> (Inl e, s')
      | (Inr outcome, s') \<Rightarrow> (Inr (outcome_log (event_record event) outcome), s'))"

section \<open>Redelivery\<close>

text \<open>
  A queue delivers each event at least once and in any order: \<open>handle_all\<close> is one sequence of
  deliveries, repetitions included, on a database without faults. A delivery that throws leaves
  what the handler left.
\<close>

definition handle_one :: "time_lib \<Rightarrow> OrderDb \<Rightarrow> OrderWorkflowEvent \<Rightarrow> OrderDb" where
  "handle_one tm db e = snd (orderWorkflowEventHandler (pgo_recordWorkflowEvent tm (healthy, int)) e db)"

definition handle_all :: "time_lib \<Rightarrow> OrderDb \<Rightarrow> OrderWorkflowEvent list \<Rightarrow> OrderDb" where
  "handle_all tm db events = foldl (handle_one tm) db events"

lemma handle_one_record:
  "handle_one tm db e = snd (pgo_recordWorkflowEvent tm (healthy, int) (event_record e) db)"
  by (simp add: handle_one_def orderWorkflowEventHandler_def split: prod.split sum.split)

text \<open>An event that the timeline of order \<open>i\<close> can hold.\<close>

definition recordable :: "time_lib \<Rightarrow> string \<Rightarrow> OrderWorkflowEvent \<Rightarrow> bool" where
  "recordable tm i e = (let r = event_record e in uuid_in (we_orderId r) = Some i \<and> \<not> has_nul (we_eventId r)
     \<and> \<not> js_has_nul (json_wire (we_data r)) \<and> tl_timestamptz tm (we_occurredAt r) \<noteq> None)"

definition event_key :: "OrderWorkflowEvent \<Rightarrow> string \<times> OrderWorkflowEventType" where
  "event_key e = (we_eventId (event_record e), we_eventType (event_record e))"

lemma pgo_find_order:
  assumes "bk_status (pgo_book db) i = Some st"
  obtains row where "List.find (\<lambda>r. ow_orderId r = i) (pdb_orders db) = Some row" "status_of_text (ow_status row) = Some st"
  using assms by (auto simp: pgo_book_def bind_eq_Some_conv)

text \<open>One delivery: a new event is appended to the history, a known one changes nothing visible.\<close>

lemma handle_one_effect:
  assumes inv: "pgo_inv db" and e: "recordable tm i e" and st: "bk_status (pgo_book db) i = Some st"
  shows "pgo_inv (handle_one tm db e) \<and>
    (if fst (event_key e) \<in> set (event_ids (pdb_timeline db))
     then pgo_book (handle_one tm db e) = pgo_book db \<and> set (event_ids (pdb_timeline (handle_one tm db e))) = set (event_ids (pdb_timeline db))
     else pgo_book (handle_one tm db e) = book_record (event_record e) i (pgo_book db)
       \<and> set (event_ids (pdb_timeline (handle_one tm db e))) = insert (fst (event_key e)) (set (event_ids (pdb_timeline db))))"
proof -
  let ?r = "event_record e" and ?db = "handle_one tm db e"
  from e have i: "uuid_in (we_orderId ?r) = Some i" and uuid: "UUID_PATTERN (we_orderId ?r)"
    and ok: "\<not> has_nul (we_eventId ?r)" "\<not> js_has_nul (json_wire (we_data ?r))"
    by (auto simp: recordable_def Let_def uuid_in_def split: if_splits)
  from e obtain occ where occ: "tl_timestamptz tm (we_occurredAt ?r) = Some occ" by (auto simp: recordable_def Let_def)
  obtain q where run: "pgo_recordWorkflowEvent tm (healthy, int) ?r db = (q, ?db)"
    by (metis handle_one_record prod.collapse)
  from pgo_record_effect [OF inv run] i have inv': "pgo_inv ?db"
    and law: "record_allowed ?r (Some i) (pgo_book db) q (pgo_book ?db)" by simp_all
  from pgo_find_order [OF st] obtain row where row: "List.find (\<lambda>r. ow_orderId r = i) (pdb_orders db) = Some row"
    "status_of_text (ow_status row) = Some st" by blast
  have locked: "locked_status (we_orderId ?r) db = Inr (Some (ow_status row), db)"
    using row(1) i by (simp add: locked_status_def eq_commute [of "Some i"])
  from run uuid have rw: "(q, ?db) = (case record_work tm int ?r db of Inl e \<Rightarrow> (Inl e, db) | Inr (x, s') \<Rightarrow> (Inr x, s'))"
    by (simp add: pgo_recordWorkflowEvent_def)
  show ?thesis
  proof (cases "we_eventId ?r \<in> set (event_ids (pdb_timeline db))")
    case True
    then obtain t where t: "List.find (\<lambda>r. tw_eventId r = Some (we_eventId ?r)) (pdb_timeline db) = Some t"
      by (cases "List.find (\<lambda>r. tw_eventId r = Some (we_eventId ?r)) (pdb_timeline db)") (auto simp: set_event_ids find_None_iff')
    let ?counted = "db \<lparr>pdb_timeline := count_delivery (we_eventId ?r) (pdb_timeline db)\<rparr>"
    have "?db = db \<or> ?db = ?counted"
      using rw locked row(2) t ok i occ
      by (auto simp: record_work_def bindE_def upsert_event_def Let_def count_delivery_def split: if_splits)
    moreover have "pgo_book ?counted = pgo_book db" by (simp add: pgo_book_def count_delivery_keeps)
    ultimately show ?thesis using True inv' by (auto simp: event_key_def count_delivery_keeps)
  next
    case False
    then have t: "List.find (\<lambda>r. tw_eventId r = Some (we_eventId ?r)) (pdb_timeline db) = None"
      by (auto simp: set_event_ids find_None_iff')
    let ?row = "event_database_row i occ (int 0) (json_wire (we_data ?r)) ?r"
    have "q \<noteq> Inl err" for err
      using rw locked row(2) t ok i occ
      by (auto simp: record_work_def bindE_def upsert_event_def Let_def update_status_def split: if_splits)
    moreover have "pdb_timeline ?db = pdb_timeline db @ [?row] \<and> q \<noteq> Inr UnknownOrder \<and> (\<forall>n. q \<noteq> Inr (EventDuplicate n))"
      using rw locked row(2) t ok i occ
      by (auto simp: record_work_def bindE_def upsert_event_def Let_def update_status_def split: if_splits)
    ultimately show ?thesis using law False inv'
      by (auto simp: event_key_def event_ids_def event_database_row_def record_allowed_def
          split: sum.splits RecordWorkflowEventOutcome.splits)
  qed
qed

text \<open>
  C19: the timeline consumer tolerates whatever the broker does. An accepted order that receives
  its workflow events in any order and with any repetitions has every event in its history
  exactly once, and its status is the furthest stage the events announce.
\<close>

theorem deliveries_determine_status:
  assumes "pgo_inv db" "bk_status (pgo_book db) i = Some StatusCreated" "bk_history (pgo_book db) i = []"
    and "list_all (recordable tm i) events" "\<forall>e \<in> set events. fst (event_key e) \<notin> set (event_ids (pdb_timeline db))"
    and "inj_on fst (event_key ` set events)" "one_decision (map (snd \<circ> event_key) events)"
  shows "set (bk_history (pgo_book (handle_all tm db events)) i) = event_key ` set events
    \<and> distinct (map fst (bk_history (pgo_book (handle_all tm db events)) i))
    \<and> bk_status (pgo_book (handle_all tm db events)) i = Some (furthest (snd ` event_key ` set events))"
proof -
  let ?b = "\<lambda>es. pgo_book (handle_all tm db es)"
  have "pgo_inv (handle_all tm db es) \<and> set (bk_history (?b es) i) = event_key ` set es \<and> distinct (map fst (bk_history (?b es) i))
    \<and> set (event_ids (pdb_timeline (handle_all tm db es))) = set (event_ids (pdb_timeline db)) \<union> fst ` event_key ` set es
    \<and> bk_status (?b es) i = Some (apply_all StatusCreated (map snd (bk_history (?b es) i)))"
    if "set es \<subseteq> set events" for es
    using that
  proof (induction es rule: rev_induct)
    case Nil
    then show ?case using assms(1-3) by (simp add: handle_all_def apply_all_def)
  next
    case (snoc e es)
    let ?db = "handle_all tm db es"
    from snoc have ih: "pgo_inv ?db" "set (bk_history (?b es) i) = event_key ` set es" "distinct (map fst (bk_history (?b es) i))"
      "set (event_ids (pdb_timeline ?db)) = set (event_ids (pdb_timeline db)) \<union> fst ` event_key ` set es"
      "bk_status (?b es) i = Some (apply_all StatusCreated (map snd (bk_history (?b es) i)))" by auto
    have step: "handle_all tm db (es @ [e]) = handle_one tm ?db e" by (simp add: handle_all_def)
    from snoc.prems assms(4,5) have e: "recordable tm i e" "fst (event_key e) \<notin> set (event_ids (pdb_timeline db))"
      by (auto simp: list_all_iff)
    note eff = handle_one_effect [OF ih(1) e(1) ih(5)]
    show ?case
    proof (cases "fst (event_key e) \<in> fst ` event_key ` set es")
      case True
      then obtain e' where e': "e' \<in> set es" "fst (event_key e) = fst (event_key e')" by auto
      with assms(6) snoc.prems have "event_key e = event_key e'" by (auto dest!: inj_onD)
      with e'(1) have "event_key e \<in> event_key ` set es" by blast
      with True eff ih e(2) show ?thesis by (auto simp: step)
    next
      case False
      with e(2) ih(4) have "fst (event_key e) \<notin> set (event_ids (pdb_timeline ?db))" by simp
      with eff ih False show ?thesis
        by (auto simp: step book_record_def apply_all_def event_key_def image_iff)
    qed
  qed
  from this [of events] have all: "set (bk_history (?b events) i) = event_key ` set events" "distinct (map fst (bk_history (?b events) i))"
    "bk_status (?b events) i = Some (apply_all StatusCreated (map snd (bk_history (?b events) i)))" by auto
  have types: "set (map snd (bk_history (?b events) i)) = snd ` event_key ` set events" by (simp add: all(1))
  with assms(7) have "one_decision (map snd (bk_history (?b events) i))" by (simp add: one_decision_def image_comp)
  from apply_all_furthest [OF this] types all show ?thesis by simp
qed

definition sample_paid :: OrderWorkflowEvent where
  "sample_paid = WePaymentAuthorized \<lparr>eventId = ''e-1'', eventType = PaymentAuthorized, occurredAt = ''t'', correlationId = ''c'',
     event_data = \<lparr>pa_orderId = sample_uuid (CHR ''a''), pa_paymentId = ''p'', pa_amount = Fin 10, pa_items = []\<rparr>\<rparr>"

definition sample_reserved :: OrderWorkflowEvent where
  "sample_reserved = WeInventoryReserved \<lparr>eventId = ''e-2'', eventType = InventoryReserved, occurredAt = ''t'', correlationId = ''c'',
     event_data = \<lparr>ir_orderId = sample_uuid (CHR ''a''), ir_reservationId = ''r'', ir_items = []\<rparr>\<rparr>"

theorem deliveries_determine_status_witness:
  "bk_status (pgo_book (handle_all sample_times after_lost [sample_reserved, sample_paid, sample_reserved])) (sample_uuid (CHR ''a''))
    = Some (StatusOf WfInventoryReserved)"
proof -
  let ?es = "[sample_reserved, sample_paid, sample_reserved]" and ?i = "sample_uuid (CHR ''a'')"
  have "pgo_inv after_lost" "bk_status (pgo_book after_lost) ?i = Some StatusCreated" "bk_history (pgo_book after_lost) ?i = []"
    "list_all (recordable sample_times ?i) ?es" "list_all (\<lambda>e. fst (event_key e) \<notin> set (event_ids (pdb_timeline after_lost))) ?es"
    "one_decision (map (snd \<circ> event_key) ?es)" by code_simp+
  moreover have "inj_on fst (event_key ` set ?es)"
    by (auto simp: inj_on_def event_key_def sample_paid_def sample_reserved_def workflow_record_def)
  ultimately have "bk_status (pgo_book (handle_all sample_times after_lost ?es)) ?i = Some (furthest (snd ` event_key ` set ?es))"
    using deliveries_determine_status by (fastforce simp: list_all_iff)
  moreover have "furthest (snd ` event_key ` set ?es) = StatusOf WfInventoryReserved"
    by (simp add: event_key_def sample_paid_def sample_reserved_def workflow_record_def furthest_def)
  ultimately show ?thesis by simp
qed

end
