(* ===== verification/ConfirmedPublisher.thy ===== *)
theory ConfirmedPublisher
  imports MessageErrors
begin

text \<open>
  shared/messaging/src/confirmedPublisher.ts: publications on a confirm channel, and the channel
  with its broker as a transition system. The protocol facts that the source file's header names
  are the steps of that system: the frames of a channel arrive in order, and the basic.return of
  an unroutable message is sent before its basic.ack.
\<close>

section \<open>The publisher\<close>

definition PUBLICATION_ID_HEADER :: string where
  "PUBLICATION_ID_HEADER = ''x-publication-id''"

record ReturnedFields =
  rf_replyCode :: int
  rf_replyText :: string
  rf_exchange :: string
  rf_routingKey :: string

record PublicationOptions =
  pub_contentType :: string
  pub_deliveryMode :: nat
  pub_messageId :: string
  pub_correlationId :: string
  pub_type :: string

record ConfirmPublishOptions = PublicationOptions +
  pub_mandatory :: bool
  pub_headers :: js

text \<open>The pending publications; the fields are there once a return has arrived.\<close>

record ConfirmedPublisher =
  cp_pending :: "(string, ReturnedFields option) jsmap"

definition confirmedPublisher :: ConfirmedPublisher where
  "confirmedPublisher = \<lparr>cp_pending = []\<rparr>"

definition pendingCount :: "ConfirmedPublisher \<Rightarrow> nat" where
  "pendingCount p = length (cp_pending p)"

text \<open>The listener of the channel's return event; \<open>headers\<close> may be undefined.\<close>

definition on_return :: "js \<Rightarrow> ReturnedFields \<Rightarrow> ConfirmedPublisher \<Rightarrow> ConfirmedPublisher" where
  "on_return headers f p =
     (case js_get headers PUBLICATION_ID_HEADER of
        JStr publicationId \<Rightarrow>
          (if publicationId \<in> set (map_keys (cp_pending p))
           then p \<lparr>cp_pending := map_set publicationId (Some f) (cp_pending p)\<rparr> else p)
      | _ \<Rightarrow> p)"

definition unroutable :: "ReturnedFields \<Rightarrow> js_error" where
  "unroutable f = UnroutableMessageError (rf_exchange f) (rf_routingKey f) (rf_replyCode f) (rf_replyText f)"

text \<open>The confirm callback: it settles the promise of its publication.\<close>

definition settle_publication ::
    "(rat \<Rightarrow> string) \<Rightarrow> string \<Rightarrow> thrown \<Rightarrow> ConfirmedPublisher \<Rightarrow> (js_error + unit) \<times> ConfirmedPublisher" where
  "settle_publication num_text publicationId err p =
     (let returned = map_get (cp_pending p) publicationId
      in (case err of
            ThrownError e \<Rightarrow> Inl e
          | ThrownValue v \<Rightarrow>
              (if v \<noteq> JNull \<and> v \<noteq> JUndefined then Inl (JsError (getErrorMessage num_text err))
               else case returned of
                 Some (Some f) \<Rightarrow> Inl (unroutable f)
               | _ \<Rightarrow> Inr ()),
          p \<lparr>cp_pending := AList.delete publicationId (cp_pending p)\<rparr>))"

definition confirm_options :: "string \<Rightarrow> PublicationOptions \<Rightarrow> ConfirmPublishOptions" where
  "confirm_options publicationId opts =
     PublicationOptions.extend opts
       \<lparr>pub_mandatory = True, pub_headers = JObj [(PUBLICATION_ID_HEADER, JStr publicationId)]\<rparr>"

text \<open>
  The publication itself. \<open>channel_publish\<close> is the channel's method: it takes the message with
  its options and may throw; otherwise the promise stays open until the confirm callback. The
  result is the error with which the promise was rejected at once.
\<close>

definition cp_publish ::
    "(string \<Rightarrow> string \<Rightarrow> string \<Rightarrow> ConfirmPublishOptions \<Rightarrow> js_error option) \<Rightarrow> string \<Rightarrow> string \<Rightarrow> string \<Rightarrow> string
      \<Rightarrow> PublicationOptions \<Rightarrow> ConfirmedPublisher \<Rightarrow> js_error option \<times> ConfirmedPublisher" where
  "cp_publish channel_publish publicationId exchange routingKey content opts p =
     (let p' = p \<lparr>cp_pending := map_set publicationId None (cp_pending p)\<rparr>
      in case channel_publish exchange routingKey content (confirm_options publicationId opts) of
           None \<Rightarrow> (None, p')
         | Some e \<Rightarrow> (Some e, p' \<lparr>cp_pending := AList.delete publicationId (cp_pending p')\<rparr>))"

section \<open>The channel and the broker\<close>

text \<open>What the broker makes of a mandatory message, and the frames it answers with.\<close>

datatype broker_decision = Routed | Unroutable ReturnedFields | Refused js_error

datatype frame = ReturnFrame js ReturnedFields | ConfirmFrame string thrown

fun decision_frames :: "string \<Rightarrow> broker_decision \<Rightarrow> frame list" where
  "decision_frames pid Routed = [ConfirmFrame pid (ThrownValue JNull)]"
| "decision_frames pid (Unroutable f) =
     [ReturnFrame (JObj [(PUBLICATION_ID_HEADER, JStr pid)]) f, ConfirmFrame pid (ThrownValue JNull)]"
| "decision_frames pid (Refused e) = [ConfirmFrame pid (ThrownError e)]"

fun decision_outcome :: "broker_decision \<Rightarrow> js_error + unit" where
  "decision_outcome Routed = Inr ()"
| "decision_outcome (Unroutable f) = Inl (unroutable f)"
| "decision_outcome (Refused e) = Inl e"

text \<open>
  The publisher, the callbacks the channel holds, the messages the broker has not decided on, its
  decisions, the frames under way and the promises that are settled.
\<close>

record wire =
  wi_open :: bool
  wi_publisher :: ConfirmedPublisher
  wi_unconfirmed :: "string list"
  wi_undecided :: "string list"
  wi_decisions :: "(string \<times> broker_decision) list"
  wi_frames :: "frame list"
  wi_settled :: "(string \<times> (js_error + unit)) list"

definition fresh_wire :: wire where
  "fresh_wire = \<lparr>wi_open = True, wi_publisher = confirmedPublisher, wi_unconfirmed = [], wi_undecided = [],
     wi_decisions = [], wi_frames = [], wi_settled = []\<rparr>"

definition used_ids :: "wire \<Rightarrow> string set" where
  "used_ids w = set (wi_unconfirmed w) \<union> set (map fst (wi_settled w))"

text \<open>A frame runs the return listener or a confirm callback.\<close>

fun receive :: "(rat \<Rightarrow> string) \<Rightarrow> frame
    \<Rightarrow> ConfirmedPublisher \<times> (string \<times> (js_error + unit)) list \<Rightarrow> ConfirmedPublisher \<times> (string \<times> (js_error + unit)) list" where
  "receive num_text (ReturnFrame headers f) (p, settled) = (on_return headers f p, settled)"
| "receive num_text (ConfirmFrame pid err) (p, settled) =
     (let (r, p') = settle_publication num_text pid err p in (p', settled @ [(pid, r)]))"

fun confirmed_id :: "frame \<Rightarrow> string list" where
  "confirmed_id (ReturnFrame headers f) = []"
| "confirmed_id (ConfirmFrame pid err) = [pid]"

text \<open>A returned message that no publisher of this module sent carries no publication id.\<close>

definition names_publication :: "js \<Rightarrow> bool" where
  "names_publication headers = (case js_get headers PUBLICATION_ID_HEADER of JStr _ \<Rightarrow> True | _ \<Rightarrow> False)"

text \<open>
  The steps. Publication ids are random UUIDs, so a new one differs from all before. A closed
  channel fails the callbacks it still holds and takes no further message.
\<close>

inductive wire_step :: "(rat \<Rightarrow> string) \<Rightarrow> wire \<Rightarrow> wire \<Rightarrow> bool" for num_text where
  publish: "\<lbrakk>wi_open w; pid \<notin> used_ids w;
      cp_publish (\<lambda>ex key c opts. None) pid exchange routingKey content opts (wi_publisher w) = (None, p)\<rbrakk>
    \<Longrightarrow> wire_step num_text w (w \<lparr>wi_publisher := p, wi_unconfirmed := wi_unconfirmed w @ [pid],
          wi_undecided := wi_undecided w @ [pid]\<rparr>)"
| publish_throws: "\<lbrakk>pid \<notin> used_ids w;
      cp_publish (\<lambda>ex key c opts. Some e) pid exchange routingKey content opts (wi_publisher w) = (Some e, p)\<rbrakk>
    \<Longrightarrow> wire_step num_text w (w \<lparr>wi_publisher := p, wi_settled := wi_settled w @ [(pid, Inl e)]\<rparr>)"
| decide: "\<lbrakk>wi_open w; pid \<in> set (wi_undecided w)\<rbrakk>
    \<Longrightarrow> wire_step num_text w (w \<lparr>wi_undecided := remove1 pid (wi_undecided w),
          wi_decisions := wi_decisions w @ [(pid, d)], wi_frames := wi_frames w @ decision_frames pid d\<rparr>)"
| stray: "\<lbrakk>wi_open w; \<not> names_publication headers\<rbrakk>
    \<Longrightarrow> wire_step num_text w (w \<lparr>wi_frames := wi_frames w @ [ReturnFrame headers f]\<rparr>)"
| arrive: "\<lbrakk>wi_frames w = f # fs; receive num_text f (wi_publisher w, wi_settled w) = (p, settled)\<rbrakk>
    \<Longrightarrow> wire_step num_text w (w \<lparr>wi_publisher := p, wi_settled := settled, wi_frames := fs,
          wi_unconfirmed := filter (\<lambda>pid. pid \<notin> set (confirmed_id f)) (wi_unconfirmed w)\<rparr>)"
| closes: "wi_open w \<Longrightarrow> wire_step num_text w (w \<lparr>wi_open := False, wi_undecided := [],
      wi_frames := map (\<lambda>pid. ConfirmFrame pid (ThrownError e)) (wi_unconfirmed w)\<rparr>)"

inductive wire_reachable :: "(rat \<Rightarrow> string) \<Rightarrow> wire \<Rightarrow> bool" for num_text where
  start: "wire_reachable num_text fresh_wire"
| further: "\<lbrakk>wire_reachable num_text w; wire_step num_text w w'\<rbrakk> \<Longrightarrow> wire_reachable num_text w'"

inductive_cases wire_stepE: "wire_step num_text w w'"

section \<open>Every promise tells what the broker decided\<close>

text \<open>The publisher and the settled promises once all frames under way have arrived.\<close>

definition run_frames :: "(rat \<Rightarrow> string) \<Rightarrow> frame list
    \<Rightarrow> ConfirmedPublisher \<times> (string \<times> (js_error + unit)) list \<Rightarrow> ConfirmedPublisher \<times> (string \<times> (js_error + unit)) list" where
  "run_frames num_text fs s = foldl (\<lambda>s f. receive num_text f s) s fs"

lemma run_frames_simps [simp]:
  "run_frames num_text [] s = s"
  "run_frames num_text (f # fs) s = run_frames num_text fs (receive num_text f s)"
  "run_frames num_text (fs @ gs) s = run_frames num_text gs (run_frames num_text fs s)"
  by (simp_all add: run_frames_def)

definition pending_ids :: "ConfirmedPublisher \<Rightarrow> string list" where
  "pending_ids p = map_keys (cp_pending p)"

definition confirm_ids :: "frame list \<Rightarrow> string list" where
  "confirm_ids fs = concat (map confirmed_id fs)"

lemma confirm_ids_simps [simp]:
  "confirm_ids [] = []" "confirm_ids (f # fs) = confirmed_id f @ confirm_ids fs"
  "confirm_ids (fs @ gs) = confirm_ids fs @ confirm_ids gs"
  by (simp_all add: confirm_ids_def)

fun returned_id :: "frame \<Rightarrow> string list" where
  "returned_id (ReturnFrame headers f) = (case js_get headers PUBLICATION_ID_HEADER of JStr pid \<Rightarrow> [pid] | _ \<Rightarrow> [])"
| "returned_id (ConfirmFrame pid err) = []"

definition frame_ids :: "frame list \<Rightarrow> string set" where
  "frame_ids fs = set (concat (map (\<lambda>f. confirmed_id f @ returned_id f) fs))"

lemma frame_ids_simps [simp]:
  "frame_ids [] = {}" "frame_ids (f # fs) = set (confirmed_id f) \<union> set (returned_id f) \<union> frame_ids fs"
  "frame_ids (fs @ gs) = frame_ids fs \<union> frame_ids gs"
  by (auto simp: frame_ids_def)

lemma pending_on_return [simp]: "pending_ids (on_return headers f p) = pending_ids p"
  by (simp add: on_return_def pending_ids_def map_keys_map_set split: js.split)

lemma pending_settled [simp]: "pending_ids (snd (settle_publication num_text pid err p)) = removeAll pid (pending_ids p)"
  by (simp add: settle_publication_def pending_ids_def delete_keys Let_def)

lemma pending_receive:
  "receive num_text f (p, settled) = (p', settled') \<Longrightarrow>
     set (pending_ids p') = set (pending_ids p) - set (confirmed_id f) \<and> map fst settled' = map fst settled @ confirmed_id f
     \<and> (distinct (pending_ids p) \<longrightarrow> distinct (pending_ids p'))"
proof (cases f)
  case (ConfirmFrame pid err)
  assume "receive num_text f (p, settled) = (p', settled')"
  with ConfirmFrame have "p' = snd (settle_publication num_text pid err p)" "map fst settled' = map fst settled @ [pid]"
    by (auto simp: Let_def split: prod.splits)
  with ConfirmFrame show ?thesis by (simp add: distinct_removeAll)
qed auto

text \<open>
  \<open>settled_ok\<close> speaks of the moment when all frames have arrived: what is still pending then is
  what the broker has not decided on, without a return, and every settled promise agrees with the
  decision.
\<close>

definition agrees :: "wire \<Rightarrow> string \<Rightarrow> js_error + unit \<Rightarrow> bool" where
  "agrees w pid r \<longleftrightarrow> (r = Inr () \<longrightarrow> map_of (wi_decisions w) pid = Some Routed)
     \<and> (wi_open w \<longrightarrow> (\<forall>d. map_of (wi_decisions w) pid = Some d \<longrightarrow> r = decision_outcome d))"

definition settled_ok :: "wire \<Rightarrow> ConfirmedPublisher \<Rightarrow> (string \<times> (js_error + unit)) list \<Rightarrow> bool" where
  "settled_ok w p settled \<longleftrightarrow>
     set (pending_ids p) = set (wi_undecided w) \<and> list_all (\<lambda>(pid, f). f = None) (cp_pending p)
     \<and> distinct (map fst settled) \<and> set (map fst settled) \<inter> set (wi_undecided w) = {}
     \<and> list_all (\<lambda>(pid, r). agrees w pid r) settled
     \<and> (\<forall>pid \<in> set (map fst (wi_decisions w)). pid \<in> set (map fst settled))"

definition wire_ok :: "(rat \<Rightarrow> string) \<Rightarrow> wire \<Rightarrow> bool" where
  "wire_ok num_text w \<longleftrightarrow>
     set (pending_ids (wi_publisher w)) = set (wi_unconfirmed w) \<and> distinct (pending_ids (wi_publisher w))
     \<and> distinct (wi_unconfirmed w) \<and> distinct (wi_undecided w) \<and> set (wi_undecided w) \<subseteq> set (wi_unconfirmed w)
     \<and> set (map fst (wi_decisions w)) \<subseteq> used_ids w \<and> frame_ids (wi_frames w) \<subseteq> used_ids w
     \<and> set (confirm_ids (wi_frames w)) \<subseteq> set (wi_unconfirmed w)
     \<and> set (map fst (wi_settled w)) \<inter> set (wi_unconfirmed w) = {}
     \<and> (case run_frames num_text (wi_frames w) (wi_publisher w, wi_settled w) of (p, settled) \<Rightarrow> settled_ok w p settled)"

lemma fresh_wire_ok: "wire_ok num_text fresh_wire"
  by (simp add: wire_ok_def fresh_wire_def confirmedPublisher_def settled_ok_def pending_ids_def)

lemma run_frames_settled:
  "run_frames num_text fs (p, settled) = (p', settled') \<Longrightarrow>
     set (pending_ids p') = set (pending_ids p) - set (confirm_ids fs) \<and> map fst settled' = map fst settled @ confirm_ids fs"
proof (induction fs arbitrary: p settled)
  case (Cons f fs)
  obtain p1 s1 where r: "receive num_text f (p, settled) = (p1, s1)" by fastforce
  with Cons.prems have "run_frames num_text fs (p1, s1) = (p', settled')" by simp
  from Cons.IH [OF this] pending_receive [OF r] show ?case by auto
qed simp

lemma run_frames_prefix:
  "run_frames num_text fs (p, settled) =
     (fst (run_frames num_text fs (p, [])), settled @ snd (run_frames num_text fs (p, [])))"
proof (induction fs arbitrary: p settled)
  case (Cons f fs)
  obtain p1 s1 where r: "receive num_text f (p, []) = (p1, s1)" by fastforce
  then have "receive num_text f (p, settled) = (p1, settled @ s1)" by (cases f) (auto simp: Let_def split: prod.splits)
  with r Cons.IH [of p1 "settled @ s1"] Cons.IH [of p1 s1] show ?case by simp
qed simp

text \<open>A publication that no frame under way concerns stays pending meanwhile.\<close>

definition add_pending :: "string \<Rightarrow> ConfirmedPublisher \<Rightarrow> ConfirmedPublisher" where
  "add_pending pid p = p \<lparr>cp_pending := cp_pending p @ [(pid, None)]\<rparr>"

lemma map_set_append: "q \<in> set (map_keys m) \<Longrightarrow> map_set q v (m @ n) = map_set q v m @ n"
  by (induction m) auto

lemma map_get_snoc: "q \<noteq> k \<Longrightarrow> map_get (m @ [(k, v)]) q = map_get m q"
  by (simp add: map_add_def split: option.split)

lemma on_return_add_pending:
  "pid \<notin> set (returned_id (ReturnFrame headers f))
    \<Longrightarrow> on_return headers f (add_pending pid p) = add_pending pid (on_return headers f p)"
  by (auto simp: on_return_def add_pending_def map_set_append simp del: set_map split: js.split)

lemma receive_add_pending:
  assumes "pid \<notin> set (confirmed_id f) \<union> set (returned_id f)" "receive num_text f (p, settled) = (p', settled')"
  shows "receive num_text f (add_pending pid p, settled) = (add_pending pid p', settled')"
proof (cases f)
  case (ReturnFrame headers g)
  with assms show ?thesis by (auto simp: on_return_add_pending simp del: returned_id.simps)
next
  case (ConfirmFrame q err)
  with assms show ?thesis
    by (auto simp: add_pending_def settle_publication_def Let_def map_get_snoc AList.delete_eq
        simp del: map_of_append)
qed

lemma run_frames_add_pending:
  assumes "pid \<notin> frame_ids fs"
  shows "run_frames num_text fs (add_pending pid p, settled) =
    (case run_frames num_text fs (p, settled) of (p', settled') \<Rightarrow> (add_pending pid p', settled'))"
  using assms
proof (induction fs arbitrary: p settled)
  case (Cons f fs)
  obtain p1 s1 where r: "receive num_text f (p, settled) = (p1, s1)" by fastforce
  with receive_add_pending [of pid f num_text p settled] Cons show ?case by simp
qed simp

lemma publish_ok:
  assumes ok: "wire_ok num_text w" and fresh: "pid \<notin> used_ids w"
  shows "wire_ok num_text (w \<lparr>wi_publisher := add_pending pid (wi_publisher w),
    wi_unconfirmed := wi_unconfirmed w @ [pid], wi_undecided := wi_undecided w @ [pid]\<rparr>)"
proof -
  obtain p settled where run: "run_frames num_text (wi_frames w) (wi_publisher w, wi_settled w) = (p, settled)" by fastforce
  from ok fresh have "pid \<notin> frame_ids (wi_frames w)" by (auto simp: wire_ok_def)
  from run_frames_add_pending [OF this] run
  have run': "run_frames num_text (wi_frames w) (add_pending pid (wi_publisher w), wi_settled w) = (add_pending pid p, settled)"
    by simp
  from ok run have s: "settled_ok w p settled" by (simp add: wire_ok_def)
  have keys: "set (map fst settled) \<subseteq> used_ids w"
    using run_frames_settled [OF run] ok by (auto simp: wire_ok_def used_ids_def)
  have cp_add: "cp_pending (add_pending pid q) = cp_pending q @ [(pid, None)]" for q by (simp add: add_pending_def)
  have pend: "pending_ids (add_pending pid q) = pending_ids q @ [pid]" for q by (simp add: pending_ids_def add_pending_def)
  have "settled_ok (w \<lparr>wi_publisher := add_pending pid (wi_publisher w),
    wi_unconfirmed := wi_unconfirmed w @ [pid], wi_undecided := wi_undecided w @ [pid]\<rparr>) (add_pending pid p) settled"
    using s keys fresh by (auto simp: settled_ok_def agrees_def pend cp_add list_all_iff simp del: set_map)
  with ok fresh run' show ?thesis by (auto simp: wire_ok_def used_ids_def pend simp del: set_map)
qed

lemma rejected_ok:
  assumes ok: "wire_ok num_text w" and fresh: "pid \<notin> used_ids w"
  shows "wire_ok num_text (w \<lparr>wi_settled := wi_settled w @ [(pid, Inl e)]\<rparr>)"
proof -
  obtain p settled where run: "run_frames num_text (wi_frames w) (wi_publisher w, wi_settled w) = (p, settled)" by fastforce
  obtain rest where run': "run_frames num_text (wi_frames w) (wi_publisher w, wi_settled w @ [(pid, Inl e)])
      = (p, wi_settled w @ [(pid, Inl e)] @ rest)" and rest: "settled = wi_settled w @ rest"
    using run run_frames_prefix [of num_text "wi_frames w" "wi_publisher w"] by (metis append_assoc fst_conv snd_conv prod.collapse)
  from ok run have s: "settled_ok w p settled" by (simp add: wire_ok_def)
  have keys: "set (map fst settled) \<subseteq> used_ids w"
    using run_frames_settled [OF run] ok by (auto simp: wire_ok_def used_ids_def)
  from ok fresh have "map_of (wi_decisions w) pid = None" "pid \<notin> set (wi_undecided w)"
    by (auto simp: wire_ok_def used_ids_def map_of_eq_None_iff)
  with s keys fresh have "settled_ok (w \<lparr>wi_settled := wi_settled w @ [(pid, Inl e)]\<rparr>) p (wi_settled w @ [(pid, Inl e)] @ rest)"
    by (auto simp: settled_ok_def agrees_def rest used_ids_def)
  with ok fresh run' show ?thesis by (auto simp: wire_ok_def used_ids_def simp del: set_map)
qed

lemma decided_ok:
  assumes ok: "wire_ok num_text w" and pid: "pid \<in> set (wi_undecided w)"
  shows "wire_ok num_text (w \<lparr>wi_undecided := remove1 pid (wi_undecided w),
    wi_decisions := wi_decisions w @ [(pid, d)], wi_frames := wi_frames w @ decision_frames pid d\<rparr>)"
    (is "wire_ok num_text ?w")
proof -
  obtain p settled where run: "run_frames num_text (wi_frames w) (wi_publisher w, wi_settled w) = (p, settled)" by fastforce
  from ok run have s: "settled_ok w p settled" by (simp add: wire_ok_def)
  from s pid have mem: "pid \<in> set (map_keys (cp_pending p))" by (simp add: settled_ok_def pending_ids_def)
  then obtain f where "map_get (cp_pending p) pid = Some f" by (auto simp: map_of_in_keys simp del: set_map)
  moreover from this s have "f = None" by (auto simp: settled_ok_def list_all_iff dest: map_of_SomeD)
  ultimately have none: "map_get (cp_pending p) pid = Some None" by simp
  let ?p = "p \<lparr>cp_pending := AList.delete pid (cp_pending p)\<rparr>" and ?s = "settled @ [(pid, decision_outcome d)]"
  have last: "run_frames num_text (decision_frames pid d) (p, settled) = (?p, ?s)"
    using none mem by (cases d) (simp_all add: on_return_def js_get_def settle_publication_def delete_update_same del: set_map)
  with run have run': "run_frames num_text (wi_frames w @ decision_frames pid d) (wi_publisher w, wi_settled w) = (?p, ?s)"
    by simp
  have keys: "pid \<notin> set (map fst settled)" "pid \<notin> set (map fst (wi_decisions w))" using s pid
    by (auto simp: settled_ok_def simp del: set_map)
  have other: "map_of (wi_decisions w @ [(pid, d)]) q = map_of (wi_decisions w) q" if "q \<noteq> pid" for q
    using that by (rule map_get_snoc)
  have decided: "map_of (wi_decisions w @ [(pid, d)]) pid = Some d" using keys(2) by (simp add: map_add_def map_of_eq_None_iff [THEN iffD2])
  have agree: "agrees ?w q r" if "(q, r) \<in> set settled" for q r
  proof -
    from that keys(1) have "q \<noteq> pid" by force
    with that s show ?thesis by (auto simp: agrees_def settled_ok_def list_all_iff other simp del: map_of_append)
  qed
  have "agrees ?w pid (decision_outcome d)" using decided by (cases d) (simp_all add: agrees_def del: map_of_append)
  moreover have "set (pending_ids ?p) = set (wi_undecided w) - {pid}" using s by (simp add: pending_ids_def delete_keys settled_ok_def)
  moreover have "distinct (wi_undecided w)" using ok by (simp add: wire_ok_def)
  ultimately have "settled_ok ?w ?p ?s"
    using s keys agree by (auto simp: settled_ok_def list_all_iff AList.delete_eq)
  moreover have "frame_ids (decision_frames pid d) = {pid}" "confirm_ids (decision_frames pid d) = [pid]"
    by (cases d; simp add: js_get_def)+
  ultimately show ?thesis using ok pid run' by (auto simp: wire_ok_def used_ids_def dest: in_set_remove1 notin_set_remove1 set_remove1_subset [THEN subsetD])
qed

lemma stray_ok:
  assumes ok: "wire_ok num_text w" and "\<not> names_publication headers"
  shows "wire_ok num_text (w \<lparr>wi_frames := wi_frames w @ [ReturnFrame headers f]\<rparr>)"
proof -
  from assms(2) have "on_return headers f p = p" "returned_id (ReturnFrame headers f) = []" for p
    by (auto simp: names_publication_def on_return_def split: js.splits)
  with ok show ?thesis
    by (auto simp: wire_ok_def used_ids_def settled_ok_def agrees_def split: prod.splits simp del: returned_id.simps)
qed

lemma arrived_ok:
  assumes ok: "wire_ok num_text w" and fs: "wi_frames w = f # fs"
    and r: "receive num_text f (wi_publisher w, wi_settled w) = (p, settled)"
  shows "wire_ok num_text (w \<lparr>wi_publisher := p, wi_settled := settled, wi_frames := fs,
    wi_unconfirmed := filter (\<lambda>pid. pid \<notin> set (confirmed_id f)) (wi_unconfirmed w)\<rparr>)"
proof -
  obtain p1 settled1 where run: "run_frames num_text fs (p, settled) = (p1, settled1)" by fastforce
  with fs r have run0: "run_frames num_text (wi_frames w) (wi_publisher w, wi_settled w) = (p1, settled1)" by simp
  with ok have s: "settled_ok w p1 settled1" by (simp add: wire_ok_def)
  from pending_receive [OF r] have p: "set (pending_ids p) = set (pending_ids (wi_publisher w)) - set (confirmed_id f)"
    "map fst settled = map fst (wi_settled w) @ confirmed_id f" "distinct (pending_ids (wi_publisher w)) \<Longrightarrow> distinct (pending_ids p)"
    by blast+
  from run_frames_settled [OF run0] fs have q: "set (pending_ids p1) = set (pending_ids (wi_publisher w)) - set (confirmed_id f @ confirm_ids fs)"
    "map fst settled1 = map fst (wi_settled w) @ confirmed_id f @ confirm_ids fs" by auto
  from s have "distinct (map fst settled1)" "set (pending_ids p1) = set (wi_undecided w)" by (simp_all add: settled_ok_def)
  with q have "set (confirmed_id f) \<inter> set (confirm_ids fs) = {}" "set (confirmed_id f) \<inter> set (wi_undecided w) = {}" by auto
  moreover have "settled_ok (w \<lparr>wi_publisher := p, wi_settled := settled, wi_frames := fs,
    wi_unconfirmed := filter (\<lambda>pid. pid \<notin> set (confirmed_id f)) (wi_unconfirmed w)\<rparr>) p1 settled1"
    using s by (simp add: settled_ok_def agrees_def)
  moreover have "set (map fst settled) = set (map fst (wi_settled w)) \<union> set (confirmed_id f)" using p(2) by simp
  ultimately show ?thesis using ok fs run p(1,3) by (auto simp: wire_ok_def used_ids_def simp del: set_map)
qed

lemma closed_ok:
  assumes ok: "wire_ok num_text w"
  shows "wire_ok num_text (w \<lparr>wi_open := False, wi_undecided := [],
      wi_frames := map (\<lambda>pid. ConfirmFrame pid (ThrownError e)) (wi_unconfirmed w)\<rparr>)" (is "wire_ok num_text ?w")
proof -
  let ?fs = "map (\<lambda>pid. ConfirmFrame pid (ThrownError e)) (wi_unconfirmed w)"
  have ids: "confirm_ids ?fs = wi_unconfirmed w" "frame_ids ?fs = set (wi_unconfirmed w)"
    by (simp_all add: confirm_ids_def frame_ids_def comp_def)
  obtain p settled where run: "run_frames num_text ?fs (wi_publisher w, wi_settled w) = (p, settled)" by fastforce
  have "\<exists>q'. run_frames num_text (map (\<lambda>pid. ConfirmFrame pid (ThrownError e)) us) (q, l)
      = (q', l @ map (\<lambda>pid. (pid, Inl e)) us)" for us q l
  proof (induction us arbitrary: q l)
    case (Cons u us)
    show ?case using Cons.IH [of "snd (settle_publication num_text u (ThrownError e) q)" "l @ [(u, Inl e)]"]
      by (simp add: settle_publication_def Let_def)
  qed simp
  with run have settled: "settled = wi_settled w @ map (\<lambda>pid. (pid, Inl e)) (wi_unconfirmed w)"
    by (metis prod.inject)
  obtain q old where old: "run_frames num_text (wi_frames w) (wi_publisher w, wi_settled w) = (q, old)" by fastforce
  then obtain rest where rest: "old = wi_settled w @ rest" using run_frames_prefix by (metis snd_conv)
  from ok old have s: "settled_ok w q old" by (simp add: wire_ok_def)
  then have now: "distinct (map fst (wi_settled w))" "list_all (\<lambda>(pid, r). agrees w pid r) (wi_settled w)"
    by (simp_all add: settled_ok_def rest)
  have pend: "set (pending_ids p) = {}" using run_frames_settled [OF run] ok by (simp add: ids wire_ok_def)
  then have "cp_pending p = []" by (simp add: pending_ids_def)
  with pend now ok have "settled_ok ?w p settled"
    by (auto simp: settled_ok_def settled wire_ok_def used_ids_def agrees_def list_all_iff comp_def image_iff)
  with ok run show ?thesis by (auto simp: wire_ok_def used_ids_def ids)
qed

lemma cp_publish_effects:
  assumes "pid \<notin> set (pending_ids p)"
  shows "cp_publish (\<lambda>ex key c opts. None) pid exchange routingKey content opts p = (r, p') \<Longrightarrow> p' = add_pending pid p"
    and "cp_publish (\<lambda>ex key c opts. Some e) pid exchange routingKey content opts p = (r, p') \<Longrightarrow> p' = p"
proof -
  have set: "map_set pid v m = m @ [(pid, v)]" if "pid \<notin> set (map_keys m)" for v :: "ReturnedFields option" and m
    using that by (induction m) auto
  from assms have keys: "pid \<notin> set (map_keys (cp_pending p))" by (simp add: pending_ids_def)
  show "cp_publish (\<lambda>ex key c opts. None) pid exchange routingKey content opts p = (r, p') \<Longrightarrow> p' = add_pending pid p"
    by (auto simp: cp_publish_def add_pending_def set [OF keys])
  show "cp_publish (\<lambda>ex key c opts. Some e) pid exchange routingKey content opts p = (r, p') \<Longrightarrow> p' = p"
    using keys by (auto simp: cp_publish_def delete_update_same)
qed

lemma wire_step_ok:
  assumes "wire_step num_text w w'" "wire_ok num_text w"
  shows "wire_ok num_text w'"
  using assms
proof (cases rule: wire_step.cases)
  case (publish pid exchange routingKey content opts p)
  with assms(2) have "pid \<notin> set (pending_ids (wi_publisher w))" by (auto simp: wire_ok_def used_ids_def)
  with publish assms(2) show ?thesis using cp_publish_effects(1) publish_ok by metis
next
  case (publish_throws pid e exchange routingKey content opts p)
  with assms(2) have "pid \<notin> set (pending_ids (wi_publisher w))" by (auto simp: wire_ok_def used_ids_def)
  with publish_throws have "p = wi_publisher w" using cp_publish_effects(2) by metis
  with publish_throws rejected_ok [OF assms(2), of pid e] show ?thesis by simp
next
  case (decide pid d)
  with assms(2) show ?thesis by (simp add: decided_ok)
next
  case (stray headers f)
  with assms(2) show ?thesis by (simp add: stray_ok)
next
  case (arrive f fs p settled)
  with assms(2) show ?thesis by (simp add: arrived_ok)
next
  case (closes e)
  with assms(2) show ?thesis by (simp add: closed_ok)
qed

lemma wire_reachable_ok: "wire_reachable num_text w \<Longrightarrow> wire_ok num_text w"
  by (induction rule: wire_reachable.induct) (auto intro: fresh_wire_ok wire_step_ok)


text \<open>
  A routed message, an unroutable one and one that a closing channel cuts off, in one run.
\<close>

definition sample_opts :: PublicationOptions where
  "sample_opts = \<lparr>pub_contentType = ''application/json'', pub_deliveryMode = 2, pub_messageId = ''e1'',
     pub_correlationId = ''c1'', pub_type = ''OrderCreated''\<rparr>"

definition no_route :: ReturnedFields where
  "no_route = \<lparr>rf_replyCode = 312, rf_replyText = ''NO_ROUTE'', rf_exchange = ''commerce.events'', rf_routingKey = ''order.created''\<rparr>"

definition sample_wire :: wire where
  "sample_wire = \<lparr>wi_open = True, wi_publisher = \<lparr>cp_pending = [(''p3'', None)]\<rparr>, wi_unconfirmed = [''p3''],
     wi_undecided = [''p3''], wi_decisions = [(''p2'', Unroutable no_route), (''p1'', Routed)], wi_frames = [],
     wi_settled = [(''p2'', Inl (unroutable no_route)), (''p1'', Inr ())]\<rparr>"

lemma publish_reachable:
  assumes "wire_reachable num_text w" "wi_open w" "pid \<notin> used_ids w"
  shows "wire_reachable num_text (w \<lparr>wi_publisher := snd (cp_publish (\<lambda>ex key c opts. None) pid ex key c opts (wi_publisher w)),
    wi_unconfirmed := wi_unconfirmed w @ [pid], wi_undecided := wi_undecided w @ [pid]\<rparr>)"
  by (rule wire_reachable.further [OF assms(1)], rule wire_step.publish [OF assms(2,3), where exchange = ex and routingKey = key and content = c and opts = opts])
    (simp add: cp_publish_def)

lemma arrive_reachable:
  assumes "wire_reachable num_text w" "wi_frames w = f # fs"
  shows "wire_reachable num_text (w \<lparr>wi_publisher := fst (receive num_text f (wi_publisher w, wi_settled w)),
    wi_settled := snd (receive num_text f (wi_publisher w, wi_settled w)), wi_frames := fs,
    wi_unconfirmed := filter (\<lambda>pid. pid \<notin> set (confirmed_id f)) (wi_unconfirmed w)\<rparr>)"
  by (rule wire_reachable.further [OF assms(1)], rule wire_step.arrive [OF assms(2)]) simp

lemmas wire_run = publish_reachable [of _ _ _ "''commerce.events''" "''order.created''" "''{}''" sample_opts]
  wire_reachable.further [OF _ wire_step.decide] arrive_reachable

lemma sample_reachable: "wire_reachable num_text sample_wire"
proof -
  let ?run = "wire_reachable num_text"
  define w1 where "w1 = fresh_wire \<lparr>wi_publisher := \<lparr>cp_pending = [(''p1'', None), (''p2'', None), (''p3'', None)]\<rparr>,
    wi_unconfirmed := [''p1'', ''p2'', ''p3''], wi_undecided := [''p1'', ''p2'', ''p3'']\<rparr>"
  have w1: "?run w1"
    using wire_run(1) [OF wire_run(1) [OF wire_run(1) [OF wire_reachable.start, of "''p1''"], of "''p2''"], of "''p3''"]
    by (simp add: fresh_wire_def confirmedPublisher_def used_ids_def cp_publish_def w1_def)
  define w2 where "w2 = w1 \<lparr>wi_undecided := [''p3''], wi_decisions := [(''p2'', Unroutable no_route), (''p1'', Routed)],
    wi_frames := decision_frames ''p2'' (Unroutable no_route) @ decision_frames ''p1'' Routed\<rparr>"
  have w2: "?run w2"
    using wire_run(2) [OF wire_run(2) [OF w1, of "''p2''" "Unroutable no_route"], of "''p1''" Routed]
    by (simp add: w1_def w2_def fresh_wire_def)
  define w3 where "w3 = w2 \<lparr>wi_publisher := on_return (JObj [(PUBLICATION_ID_HEADER, JStr ''p2'')]) no_route (wi_publisher w2),
    wi_frames := tl (wi_frames w2)\<rparr>"
  have w3: "?run w3"
    using arrive_reachable [OF w2, of "ReturnFrame (JObj [(PUBLICATION_ID_HEADER, JStr ''p2'')]) no_route" "tl (wi_frames w2)"]
    by (simp add: w1_def w2_def w3_def fresh_wire_def)
  define w4 where "w4 = w3 \<lparr>wi_publisher := \<lparr>cp_pending = [(''p1'', None), (''p3'', None)]\<rparr>, wi_unconfirmed := [''p1'', ''p3''],
    wi_settled := [(''p2'', Inl (unroutable no_route))], wi_frames := decision_frames ''p1'' Routed\<rparr>"
  have w4: "?run w4"
    using arrive_reachable [OF w3, of "ConfirmFrame ''p2'' (ThrownValue JNull)" "decision_frames ''p1'' Routed"]
    by (simp add: w1_def w2_def w3_def w4_def fresh_wire_def on_return_def js_get_def settle_publication_def)
  show ?thesis
    using arrive_reachable [OF w4, of "ConfirmFrame ''p1'' (ThrownValue JNull)" "[]"]
    by (simp add: w1_def w2_def w3_def w4_def fresh_wire_def sample_wire_def settle_publication_def)
qed


end
