(* ===== verification/RabbitMqDelivery.thy ===== *)
theory RabbitMqDelivery
  imports MessageErrors Schemas
begin

text \<open>
  shared/messaging/src/rabbitMqClient.ts, the consuming side: decoding a message, running its
  handler with retries, settling it, and the cache of recently processed event ids. JSON.parse is
  a parameter, as are a handler's effects and what happens around a delivery (whether the channel
  still takes the settlement, whether the client goes on after a retry delay).
\<close>

section \<open>Options\<close>

record RabbitMqClientOptions =
  ro_maxConnectionRetries :: "int option"
  ro_retryDelayInMs :: "int option"
  ro_publishTimeoutInMs :: "int option"
  ro_prefetchCount :: "int option"
  ro_handlerMaxAttempts :: "int option"
  ro_handlerRetryDelayInMs :: "int option"
  ro_handlerMaxRetryDelayInMs :: "int option"
  ro_drainTimeoutInMs :: "int option"
  ro_recentEventIdCacheSize :: "int option"

definition default_options :: RabbitMqClientOptions where
  "default_options = \<lparr>ro_maxConnectionRetries = Some 10, ro_retryDelayInMs = Some 2000,
     ro_publishTimeoutInMs = Some 10000, ro_prefetchCount = Some 10, ro_handlerMaxAttempts = Some 5,
     ro_handlerRetryDelayInMs = Some 500, ro_handlerMaxRetryDelayInMs = Some 8000,
     ro_drainTimeoutInMs = Some 10000, ro_recentEventIdCacheSize = Some 10000\<rparr>"

text \<open>\<open>options.field ?? DEFAULTS.field\<close>.\<close>

definition option_value :: "(RabbitMqClientOptions \<Rightarrow> int option) \<Rightarrow> RabbitMqClientOptions \<Rightarrow> int" where
  "option_value field opts =
     (case field opts of Some n \<Rightarrow> n | None \<Rightarrow> (case field default_options of Some n \<Rightarrow> n | None \<Rightarrow> 0))"

definition getHandlerRetryDelay :: "RabbitMqClientOptions \<Rightarrow> int \<Rightarrow> int" where
  "getHandlerRetryDelay opts attempt =
     min (option_value ro_handlerRetryDelayInMs opts * 2 ^ nat (attempt - 1))
         (option_value ro_handlerMaxRetryDelayInMs opts)"

section \<open>Recent event ids\<close>

text \<open>A JavaScript \<open>Set\<close> iterates in insertion order: the oldest id is the first one.\<close>

record RecentEventIds =
  re_capacity :: int
  re_eventIds :: "string list"

definition recent_has :: "RecentEventIds \<Rightarrow> string \<Rightarrow> bool" where
  "recent_has r eid = (eid \<in> set (re_eventIds r))"

definition recent_add :: "string \<Rightarrow> RecentEventIds \<Rightarrow> RecentEventIds" where
  "recent_add eid r =
     (if re_capacity r \<le> 0 \<or> recent_has r eid then r
      else let ids = re_eventIds r @ [eid]
           in r \<lparr>re_eventIds := (if int (length ids) > re_capacity r then drop 1 ids else ids)\<rparr>)"

section \<open>Decoding\<close>

record ConsumeMessage =
  cm_content :: string
  cm_messageId :: js
  cm_redelivered :: bool

record MessageEvent =
  me_eventId :: string
  me_eventType :: string
  me_correlationId :: string

definition decodeEvent :: "(string \<Rightarrow> js option) \<Rightarrow> (js \<Rightarrow> js_error + 'e) \<Rightarrow> ConsumeMessage \<Rightarrow> js_error + 'e" where
  "decodeEvent json_parse parseEvent message =
     (case json_parse (cm_content message) of
        None \<Rightarrow> Inl (PermanentMessageError ''Message body is not valid JSON.'')
      | Some body \<Rightarrow>
          (case parseEvent body of
             Inl e \<Rightarrow> Inl (PermanentMessageError ''Message does not match the expected event contract.'')
           | Inr event \<Rightarrow> Inr event))"

section \<open>Settling\<close>

datatype settlement = Acknowledged | DeadLettered

fun settlement_text :: "settlement \<Rightarrow> string" where
  "settlement_text Acknowledged = ''ack''"
| "settlement_text DeadLettered = ''dead-letter''"

text \<open>
  \<open>channel.ack\<close> or \<open>channel.nack(message, false, false)\<close>; \<open>fails\<close> is what the call throws. A
  message that could not be settled stays with the broker, which redelivers it.
\<close>

definition settle_message ::
    "(rat \<Rightarrow> string) \<Rightarrow> (settlement \<Rightarrow> thrown option) \<Rightarrow> settlement \<Rightarrow> log_context \<Rightarrow> settlement option \<times> log_call list" where
  "settle_message num_text fails outcome ctx =
     (case fails outcome of
        None \<Rightarrow> (Some outcome, [])
      | Some err \<Rightarrow>
          (None, [LogWarn ''Could not settle message on a closed channel''
             (spread ctx [(''outcome'', JStr (settlement_text outcome)),
               (''errorMessage'', JStr (getErrorMessage num_text err))])]))"

section \<open>A delivery\<close>

record ('e, 's) RabbitMqSubscription =
  sb_queueName :: string
  sb_routingKeys :: "string list"
  sb_parseEvent :: "js \<Rightarrow> js_error + 'e"
  sb_handler :: "'e \<Rightarrow> ConsumeMessage \<Rightarrow> ('s, unit) io"
  sb_event :: "'e \<Rightarrow> MessageEvent"

text \<open>
  The surroundings of a delivery: \<open>goes_on k\<close> tells whether, after the delay that follows the
  k-th failed attempt, the client is not shut down and still uses the delivery's channel.
\<close>

record delivery_env =
  dv_settle_fails :: "settlement \<Rightarrow> thrown option"
  dv_goes_on :: "int \<Rightarrow> bool"

text \<open>
  What a delivery leaves: the handler's state, the cache, what the broker was told (nothing for an
  abandoned or unsettled one), the results of the handler's runs, and the log.
\<close>

record 's delivery_result =
  dr_state :: 's
  dr_recent :: RecentEventIds
  dr_settled :: "settlement option"
  dr_runs :: "(js_error + unit) list"
  dr_logs :: "log_call list"

definition delivery_context :: "string \<Rightarrow> MessageEvent \<Rightarrow> ConsumeMessage \<Rightarrow> log_context" where
  "delivery_context queue e message =
     [(''queueName'', JStr queue), (''eventId'', JStr (me_eventId e)), (''eventType'', JStr (me_eventType e)),
      (''correlationId'', JStr (me_correlationId e)), (''redelivered'', JBool (cm_redelivered message))]"

fun is_permanent :: "js_error \<Rightarrow> bool" where
  "is_permanent (PermanentMessageError m) = True"
| "is_permanent e = False"

definition failed_log :: "log_context \<Rightarrow> js_error \<Rightarrow> int \<Rightarrow> int \<Rightarrow> string \<Rightarrow> log_call" where
  "failed_log ctx e attempt maxAttempts deadLetterQueueName =
     LogError ''Failed to process message'' e (spread ctx
       [(''attempt'', int_js attempt), (''maxAttempts'', int_js maxAttempts), (''permanent'', JBool (is_permanent e)),
        (''deadLetterQueueName'', JStr deadLetterQueueName), (''action'', JStr ''dead-letter'')])"

definition retry_log :: "(rat \<Rightarrow> string) \<Rightarrow> log_context \<Rightarrow> js_error \<Rightarrow> int \<Rightarrow> int \<Rightarrow> int \<Rightarrow> log_call" where
  "retry_log num_text ctx e attempt maxAttempts retryDelayInMs =
     LogWarn ''Retrying message after handler failure'' (spread ctx
       [(''attempt'', int_js attempt), (''maxAttempts'', int_js maxAttempts), (''retryDelayInMs'', int_js retryDelayInMs),
        (''errorMessage'', JStr (getErrorMessage num_text (ThrownError e)))])"

text \<open>
  The loop of attempts. \<open>settle\<close> tells the broker the outcome in the delivery's ctx.
\<close>

function run_attempts ::
    "(rat \<Rightarrow> string) \<Rightarrow> RabbitMqClientOptions \<Rightarrow> delivery_env \<Rightarrow> log_context \<Rightarrow> string \<Rightarrow> string
      \<Rightarrow> ('s, unit) io \<Rightarrow> int \<Rightarrow> RecentEventIds \<Rightarrow> 's \<Rightarrow> 's delivery_result" where
  "run_attempts num_text opts env ctx deadLetterQueueName eid handler attempt recent s =
     (let maxAttempts = option_value ro_handlerMaxAttempts opts;
          settle = (\<lambda>outcome. settle_message num_text (dv_settle_fails env) outcome ctx)
      in case handler s of
           (Inr _, s') \<Rightarrow>
             (let (settled, logs) = settle Acknowledged
              in \<lparr>dr_state = s', dr_recent = recent_add eid recent, dr_settled = settled, dr_runs = [Inr ()], dr_logs = logs\<rparr>)
         | (Inl e, s') \<Rightarrow>
             if is_permanent e \<or> maxAttempts \<le> attempt then
               (let (settled, logs) = settle DeadLettered
                in \<lparr>dr_state = s', dr_recent = recent, dr_settled = settled, dr_runs = [Inl e],
                    dr_logs = failed_log ctx e attempt maxAttempts deadLetterQueueName # logs\<rparr>)
             else
               (let retry = retry_log num_text ctx e attempt maxAttempts (getHandlerRetryDelay opts attempt)
                in if \<not> dv_goes_on env attempt then
                     \<lparr>dr_state = s', dr_recent = recent, dr_settled = None, dr_runs = [Inl e],
                      dr_logs = [retry, LogWarn (''Abandoned message retry; '' @ ''the broker will redeliver it'')
                        (spread ctx [(''attempt'', int_js attempt)])]\<rparr>
                   else
                     let r = run_attempts num_text opts env ctx deadLetterQueueName eid handler (attempt + 1) recent s'
                     in r \<lparr>dr_runs := Inl e # dr_runs r, dr_logs := retry # dr_logs r\<rparr>))"
  by pat_completeness auto

termination
  by (relation "measure (\<lambda>(num_text, opts, env, ctx, q, eid, handler, attempt, recent, s).
        nat (option_value ro_handlerMaxAttempts opts - attempt))") auto

declare run_attempts.simps [simp del]

definition handleDelivery ::
    "(rat \<Rightarrow> string) \<Rightarrow> (string \<Rightarrow> js option) \<Rightarrow> RabbitMqClientOptions \<Rightarrow> delivery_env \<Rightarrow> ('e, 's) RabbitMqSubscription
      \<Rightarrow> string \<Rightarrow> ConsumeMessage \<Rightarrow> RecentEventIds \<Rightarrow> 's \<Rightarrow> 's delivery_result" where
  "handleDelivery num_text json_parse opts env subscription deadLetterQueueName message recent s =
     (let queue = sb_queueName subscription
      in case decodeEvent json_parse (sb_parseEvent subscription) message of
           Inl e \<Rightarrow>
             (let (settled, logs) = settle_message num_text (dv_settle_fails env) DeadLettered [(''queueName'', JStr queue)]
              in \<lparr>dr_state = s, dr_recent = recent, dr_settled = settled, dr_runs = [],
                  dr_logs = LogError ''Rejected malformed message'' e
                    [(''queueName'', JStr queue), (''deadLetterQueueName'', JStr deadLetterQueueName),
                     (''messageId'', cm_messageId message), (''action'', JStr ''dead-letter'')] # logs\<rparr>)
         | Inr event \<Rightarrow>
             (let me = sb_event subscription event;
                  ctx = delivery_context queue me message
              in if recent_has recent (me_eventId me) then
                   (let (settled, logs) = settle_message num_text (dv_settle_fails env) Acknowledged ctx
                    in \<lparr>dr_state = s, dr_recent = recent, dr_settled = settled, dr_runs = [],
                        dr_logs = LogWarn ''Duplicate event received''
                          (spread ctx [(''action'', JStr ''acknowledge-without-reprocessing'')]) # logs\<rparr>)
                 else run_attempts num_text opts env ctx deadLetterQueueName (me_eventId me)
                        (sb_handler subscription event message) 1 recent s))"

section \<open>Every delivery ends as the retry policy says\<close>

text \<open>What the broker is told, given that the call itself works.\<close>

definition told :: "delivery_env \<Rightarrow> settlement \<Rightarrow> settlement option" where
  "told env outcome = (if dv_settle_fails env outcome = None then Some outcome else None)"

lemma settle_message_told:
  obtains logs where "settle_message num_text (dv_settle_fails env) outcome ctx = (told env outcome, logs)"
  by (cases "dv_settle_fails env outcome") (auto simp: settle_message_def told_def)

definition ends_by_policy :: "RabbitMqClientOptions \<Rightarrow> delivery_env \<Rightarrow> int \<Rightarrow> 's delivery_result \<Rightarrow> bool" where
  "ends_by_policy opts env k r \<longleftrightarrow>
     (let n = k - 1 + int (length (dr_runs r)); most = option_value ro_handlerMaxAttempts opts
      in dr_runs r \<noteq> [] \<and> n \<le> max k most
       \<and> list_all (\<lambda>x. case x of Inr _ \<Rightarrow> False | Inl e \<Rightarrow> \<not> is_permanent e) (butlast (dr_runs r))
       \<and> (case last (dr_runs r) of
            Inr _ \<Rightarrow> dr_settled r = told env Acknowledged
          | Inl e \<Rightarrow> if is_permanent e \<or> most \<le> n then dr_settled r = told env DeadLettered
                    else dr_settled r = None \<and> \<not> dv_goes_on env n))"

lemma run_attempts_success:
  assumes "handler s = (Inr (), s')"
  obtains logs where "run_attempts num_text opts env ctx q eid handler attempt recent s =
    \<lparr>dr_state = s', dr_recent = recent_add eid recent, dr_settled = told env Acknowledged, dr_runs = [Inr ()], dr_logs = logs\<rparr>"
proof -
  obtain logs where "settle_message num_text (dv_settle_fails env) Acknowledged ctx = (told env Acknowledged, logs)"
    by (rule settle_message_told)
  with assms show ?thesis using that by (subst (asm) run_attempts.simps) (simp add: Let_def)
qed

lemma run_attempts_policy:
  "ends_by_policy opts env attempt (run_attempts num_text opts env ctx q eid handler attempt recent s)"
proof (induction num_text opts env ctx q eid handler attempt recent s rule: run_attempts.induct)
  case (1 num_text opts env ctx q eid handler attempt recent s)
  let ?most = "option_value ro_handlerMaxAttempts opts"
  note step = run_attempts.simps [of num_text opts env ctx q eid handler attempt recent s]
  obtain dead where told2: "settle_message num_text (dv_settle_fails env) DeadLettered ctx = (told env DeadLettered, dead)"
    by (rule settle_message_told)
  obtain x s' where h: "handler s = (x, s')" by fastforce
  show ?case
  proof (cases x)
    case (Inr u)
    with h have "handler s = (Inr (), s')" by simp
    then obtain logs where r: "run_attempts num_text opts env ctx q eid handler attempt recent s =
      \<lparr>dr_state = s', dr_recent = recent_add eid recent, dr_settled = told env Acknowledged, dr_runs = [Inr ()], dr_logs = logs\<rparr>"
      by (rule run_attempts_success)
    show ?thesis unfolding r by (simp add: ends_by_policy_def)
  next
    case (Inl e)
    consider "is_permanent e \<or> ?most \<le> attempt" | "\<not> (is_permanent e \<or> ?most \<le> attempt)" "\<not> dv_goes_on env attempt"
      | "\<not> (is_permanent e \<or> ?most \<le> attempt)" "dv_goes_on env attempt" by blast
    then show ?thesis
    proof cases
      case 1
      with h Inl told2 show ?thesis by (auto simp add: step ends_by_policy_def Let_def)
    next
      case 2
      with h Inl show ?thesis by (simp add: step ends_by_policy_def Let_def)
    next
      case 3
      let ?r = "run_attempts num_text opts env ctx q eid handler (attempt + 1) recent s'"
      from 1 3 h Inl have "ends_by_policy opts env (attempt + 1) ?r" by (simp add: Let_def)
      with 3 h Inl show ?thesis
        by (auto simp: step ends_by_policy_def Let_def add.commute split: sum.splits)
    qed
  qed
qed


section \<open>A consumer\<close>

text \<open>
  The deliveries of one queue, one after the other. (With a prefetch count above one they overlap:
  two deliveries of the same event that overlap may both run the handler, whose own idempotency
  has to cope with that.)
\<close>

fun consume_all ::
    "(rat \<Rightarrow> string) \<Rightarrow> (string \<Rightarrow> js option) \<Rightarrow> RabbitMqClientOptions \<Rightarrow> ('e, 's) RabbitMqSubscription \<Rightarrow> string
      \<Rightarrow> (delivery_env \<times> ConsumeMessage) list \<Rightarrow> RecentEventIds \<Rightarrow> 's \<Rightarrow> 's delivery_result list" where
  "consume_all num_text json_parse opts sub q [] recent s = []"
| "consume_all num_text json_parse opts sub q ((env, message) # ds) recent s =
     (let r = handleDelivery num_text json_parse opts env sub q message recent s
      in r # consume_all num_text json_parse opts sub q ds (dr_recent r) (dr_state r))"

text \<open>\<open>getRecentEventIds\<close> creates the cache of a queue at its first delivery.\<close>

definition new_recent :: "RabbitMqClientOptions \<Rightarrow> RecentEventIds" where
  "new_recent opts = \<lparr>re_capacity = option_value ro_recentEventIdCacheSize opts, re_eventIds = []\<rparr>"

definition handled :: "'s delivery_result \<Rightarrow> bool" where
  "handled r = (dr_runs r \<noteq> [] \<and> last (dr_runs r) = Inr ())"

definition message_id :: "(string \<Rightarrow> js option) \<Rightarrow> ('e, 's) RabbitMqSubscription \<Rightarrow> ConsumeMessage \<Rightarrow> string option" where
  "message_id json_parse sub message =
     (case decodeEvent json_parse (sb_parseEvent sub) message of Inl e \<Rightarrow> None | Inr event \<Rightarrow> Some (me_eventId (sb_event sub event)))"

definition recent_ok :: "RabbitMqClientOptions \<Rightarrow> RecentEventIds \<Rightarrow> bool" where
  "recent_ok opts recent \<longleftrightarrow> re_capacity recent = option_value ro_recentEventIdCacheSize opts
     \<and> distinct (re_eventIds recent) \<and> int (length (re_eventIds recent)) \<le> max 0 (re_capacity recent)"

lemma recent_add_ok: "recent_ok opts r \<Longrightarrow> recent_ok opts (recent_add eid r)"
  by (cases "re_eventIds r") (auto simp: recent_ok_def recent_add_def recent_has_def Let_def)

lemma recent_add_set: "set (re_eventIds (recent_add eid r)) \<subseteq> insert eid (set (re_eventIds r))"
  by (auto simp: recent_add_def Let_def dest: in_set_dropD)

lemma run_attempts_recent:
  "dr_recent (run_attempts num_text opts env ctx q eid handler attempt recent s)
      = (if handled (run_attempts num_text opts env ctx q eid handler attempt recent s) then recent_add eid recent else recent)
    \<and> (dr_settled (run_attempts num_text opts env ctx q eid handler attempt recent s) = Some Acknowledged
      \<longrightarrow> handled (run_attempts num_text opts env ctx q eid handler attempt recent s))"
proof (induction num_text opts env ctx q eid handler attempt recent s rule: run_attempts.induct)
  case (1 num_text opts env ctx q eid handler attempt recent s)
  note step = run_attempts.simps [of num_text opts env ctx q eid handler attempt recent s]
  obtain x s' where h: "handler s = (x, s')" by fastforce
  let ?r = "run_attempts num_text opts env ctx q eid handler (attempt + 1) recent s'"
  have ne: "dr_runs ?r \<noteq> []"
    using run_attempts_policy [of opts env "attempt + 1" num_text ctx q eid handler recent s']
    by (simp add: ends_by_policy_def Let_def)
  show ?case
  proof (cases x)
    case (Inr u)
    with h have "handler s = (Inr (), s')" by simp
    then obtain logs where r: "run_attempts num_text opts env ctx q eid handler attempt recent s =
      \<lparr>dr_state = s', dr_recent = recent_add eid recent, dr_settled = told env Acknowledged, dr_runs = [Inr ()], dr_logs = logs\<rparr>"
      by (rule run_attempts_success)
    show ?thesis unfolding r by (simp add: handled_def)
  next
    case (Inl e)
    with h 1 ne show ?thesis
      by (auto simp: step handled_def Let_def settle_message_def split: prod.split option.splits)
  qed
qed

lemma handleDelivery_cases:
  assumes r_def: "r = handleDelivery num_text json_parse opts env sub q message recent s"
  shows "(message_id json_parse sub message = None \<longrightarrow> dr_runs r = [] \<and> dr_settled r \<noteq> Some Acknowledged)
    \<and> (dr_settled r = Some Acknowledged \<longrightarrow> (\<exists>eid. message_id json_parse sub message = Some eid \<and> (handled r \<or> recent_has recent eid)))
    \<and> dr_recent r = (if handled r then recent_add (the (message_id json_parse sub message)) recent else recent)
    \<and> (handled r \<longrightarrow> message_id json_parse sub message \<noteq> None)"
proof (cases "decodeEvent json_parse (sb_parseEvent sub) message")
  case (Inl e)
  then show ?thesis
    by (auto simp: r_def handleDelivery_def message_id_def handled_def Let_def settle_message_def split: option.split)
next
  case (Inr event)
  let ?me = "sb_event sub event"
  show ?thesis
  proof (cases "recent_has recent (me_eventId ?me)")
    case True
    with Inr show ?thesis
      by (auto simp: r_def handleDelivery_def message_id_def handled_def Let_def settle_message_def split: option.split)
  next
    case False
    with Inr have r: "r = run_attempts num_text opts env (delivery_context (sb_queueName sub) ?me message) q (me_eventId ?me)
        (sb_handler sub event message) 1 recent s"
      by (simp add: r_def handleDelivery_def Let_def)
    from run_attempts_recent [of num_text opts env "delivery_context (sb_queueName sub) ?me message" q "me_eventId ?me"
        "sb_handler sub event message" 1 recent s] Inr
    show ?thesis unfolding r [symmetric] by (auto simp: message_id_def)
  qed
qed

lemma consume_all_length [simp]:
  "length (consume_all num_text json_parse opts sub q ds recent s) = length ds"
  by (induction ds arbitrary: recent s) (auto simp: Let_def)

lemma consume_all_acked:
  fixes sub :: "('e, 's) RabbitMqSubscription"
  assumes "set (re_eventIds recent) \<subseteq> H" "recent_ok opts recent" "i < length ds"
  shows "let rs = consume_all num_text json_parse opts sub q ds recent s; mid = (\<lambda>k. message_id json_parse sub (snd (ds ! k)))
    in recent_ok opts (dr_recent (rs ! i)) \<and> (mid i = None \<longrightarrow> dr_runs (rs ! i) = [] \<and> dr_settled (rs ! i) \<noteq> Some Acknowledged)
     \<and> (dr_settled (rs ! i) = Some Acknowledged
        \<longrightarrow> (\<exists>eid. mid i = Some eid \<and> (eid \<in> H \<or> (\<exists>j \<le> i. handled (rs ! j) \<and> mid j = Some eid))))"
  using assms
proof (induction ds arbitrary: recent s H i)
  case (Cons d ds)
  obtain env message where d: "d = (env, message)" by fastforce
  let ?r = "handleDelivery num_text json_parse opts env sub q message recent s"
  let ?rs = "consume_all num_text json_parse opts sub q ds (dr_recent ?r) (dr_state ?r)"
  let ?mid = "message_id json_parse sub message"
  note first = handleDelivery_cases [OF refl, of json_parse sub message num_text opts env q recent s]
  then have recent: "dr_recent ?r = (if handled ?r then recent_add (the ?mid) recent else recent)" and mid: "handled ?r \<longrightarrow> ?mid \<noteq> None"
    by blast+
  have ok: "recent_ok opts (dr_recent ?r)" using Cons.prems(2) recent by (simp add: recent_add_ok)
  show ?case
  proof (cases i)
    case 0
    with first ok Cons.prems(1) d show ?thesis by (auto simp: Let_def recent_has_def)
  next
    case (Suc k)
    let ?H = "H \<union> (if handled ?r then {the ?mid} else {})"
    have "set (re_eventIds (dr_recent ?r)) \<subseteq> ?H"
      using Cons.prems(1) recent recent_add_set [of "the ?mid" recent] by auto
    moreover from Cons.prems(3) Suc have "k < length ds" by simp
    moreover have "eid \<in> H \<or> handled ?r \<and> ?mid = Some eid" if "eid \<in> ?H" for eid
      using that mid by (auto split: if_splits)
    ultimately show ?thesis using Cons.IH [of "dr_recent ?r" ?H k "dr_state ?r"] ok Suc d
      by (simp add: Let_def) (metis Suc_le_mono nth_Cons_0 nth_Cons_Suc le0 snd_conv)
  qed
qed simp

text \<open>
  C23: a consumer acknowledges only what it has handled. Over any run of deliveries from an empty
  cache, whatever the handler does and whatever happens to the channel, an acknowledged message
  carries an event whose handler returned successfully for it or for an earlier delivery of the
  same event; a message that is not JSON or breaks its contract is never handled and never
  acknowledged; and the cache never holds more ids than its size.
\<close>

theorem acknowledged_only_when_handled:
  assumes "rs = consume_all num_text json_parse opts sub q ds (new_recent opts) s" "i < length ds"
  shows "int (length (re_eventIds (dr_recent (rs ! i)))) \<le> max 0 (option_value ro_recentEventIdCacheSize opts)
    \<and> (message_id json_parse sub (snd (ds ! i)) = None
        \<longrightarrow> dr_runs (rs ! i) = [] \<and> dr_settled (rs ! i) \<noteq> Some Acknowledged)
    \<and> (dr_settled (rs ! i) = Some Acknowledged
        \<longrightarrow> (\<exists>eid. message_id json_parse sub (snd (ds ! i)) = Some eid
             \<and> (\<exists>j \<le> i. handled (rs ! j) \<and> message_id json_parse sub (snd (ds ! j)) = Some eid)))"
proof -
  have "recent_ok opts (new_recent opts)" by (simp add: recent_ok_def new_recent_def)
  with consume_all_acked [of "new_recent opts" "{}" opts i ds num_text json_parse sub q s] assms
  show ?thesis by (auto simp: Let_def new_recent_def recent_ok_def)
qed

section \<open>Witness\<close>

text \<open>
  A queue whose messages are event ids, and a handler that fails the first time it runs: the
  first delivery is retried and acknowledged, the second is a duplicate, the third is malformed.
\<close>

definition sample_sub :: "(string, nat) RabbitMqSubscription" where
  "sample_sub = \<lparr>sb_queueName = ''payment.order-created'', sb_routingKeys = [''order.created''],
     sb_parseEvent = (\<lambda>v. case v of JStr s \<Rightarrow> Inr s | _ \<Rightarrow> Inl (JsError ''bad'')),
     sb_handler = (\<lambda>e m n. (if n = 0 then Inl (JsError ''not yet'') else Inr (), n + 1)),
     sb_event = (\<lambda>e. \<lparr>me_eventId = e, me_eventType = ''OrderCreated'', me_correlationId = ''c''\<rparr>)\<rparr>"

definition sample_message :: "string \<Rightarrow> ConsumeMessage" where
  "sample_message body = \<lparr>cm_content = body, cm_messageId = JUndefined, cm_redelivered = False\<rparr>"

definition calm :: delivery_env where
  "calm = \<lparr>dv_settle_fails = (\<lambda>o'. None), dv_goes_on = (\<lambda>k. True)\<rparr>"

definition sample_json :: "string \<Rightarrow> js option" where
  "sample_json s = (if s = [] then None else Some (JStr s))"

lemma sample_first:
  "handleDelivery (\<lambda>r. ''n'') sample_json default_options calm sample_sub ''dlq'' (sample_message ''e1'') (new_recent default_options) 0
     = \<lparr>dr_state = 2, dr_recent = \<lparr>re_capacity = 10000, re_eventIds = [''e1'']\<rparr>, dr_settled = Some Acknowledged,
        dr_runs = [Inl (JsError ''not yet''), Inr ()],
        dr_logs = [retry_log (\<lambda>r. ''n'') (delivery_context ''payment.order-created'' (sb_event sample_sub ''e1'') (sample_message ''e1''))
          (JsError ''not yet'') 1 5 500]\<rparr>"
  by (simp add: handleDelivery_def decodeEvent_def sample_json_def sample_message_def sample_sub_def run_attempts.simps calm_def
      recent_has_def new_recent_def settle_message_def recent_add_def option_value_def default_options_def getHandlerRetryDelay_def)


definition sample_deliveries :: "(delivery_env \<times> ConsumeMessage) list" where
  "sample_deliveries = [(calm, sample_message ''e1''), (calm, sample_message ''e1''), (calm, sample_message [])]"

theorem acknowledged_only_when_handled_witness:
  "let rs = consume_all (\<lambda>r. ''n'') sample_json default_options sample_sub ''dlq'' sample_deliveries (new_recent default_options) 0
   in map dr_settled rs = [Some Acknowledged, Some Acknowledged, Some DeadLettered] \<and> dr_runs (rs ! 1) = []
      \<and> (\<exists>j \<le> 1. handled (rs ! j)) \<and> dr_settled (rs ! 2) \<noteq> Some Acknowledged"
proof -
  let ?rs = "consume_all (\<lambda>r. ''n'') sample_json default_options sample_sub ''dlq'' sample_deliveries (new_recent default_options) 0"
  have "map dr_settled ?rs = [Some Acknowledged, Some Acknowledged, Some DeadLettered] \<and> map dr_runs ?rs = [[Inl (JsError ''not yet''), Inr ()], [], []]"
    by (simp add: sample_deliveries_def sample_first Let_def)
      (simp add: handleDelivery_def decodeEvent_def sample_json_def sample_message_def sample_sub_def calm_def
        recent_has_def settle_message_def)
  then have "dr_settled (?rs ! 0) = Some Acknowledged" "dr_settled (?rs ! 1) = Some Acknowledged" "dr_runs (?rs ! 1) = []"
    "map dr_settled ?rs = [Some Acknowledged, Some Acknowledged, Some DeadLettered]"
    by (auto simp: sample_deliveries_def Let_def)
  moreover have "message_id sample_json sample_sub (snd (sample_deliveries ! 2)) = None"
    by (simp add: message_id_def sample_deliveries_def decodeEvent_def sample_message_def sample_json_def)
  ultimately show ?thesis
    using acknowledged_only_when_handled [OF refl, of 1 sample_deliveries "\<lambda>r. ''n''" sample_json default_options sample_sub "''dlq''" 0]
      acknowledged_only_when_handled [OF refl, of 2 sample_deliveries "\<lambda>r. ''n''" sample_json default_options sample_sub "''dlq''" 0]
    by (auto simp: Let_def sample_deliveries_def)
qed

end
