(* ===== verification/RabbitMqClient.thy ===== *)
theory RabbitMqClient
  imports RabbitMqDelivery
begin

text \<open>
  shared/messaging/src/rabbitMqClient.ts, the connection side: connecting with retries, declaring
  queues, publishing, subscribing and closing. The broker is reached through calls; what becomes
  of the n-th call, and whether the caller's signal is aborted by then, is the world's choice, a
  parameter. A connection or channel that closes while a call is under way fails that call.
\<close>

section \<open>The client and its broker calls\<close>

datatype broker_call =
    OpenConnection
  | OpenChannel
  | AssertExchange string string bool
  | AssertQueue string bool "(string \<times> string) list"
  | BindQueue string string string
  | Prefetch int
  | Consume string
  | CancelConsumer string
  | CloseChannel
  | CloseConnection
  | Sleep int

datatype call_result = Answered | Failed js_error | ChannelDropped js_error | ConnectionDropped js_error

record world =
  wo_call :: "nat \<Rightarrow> call_result"
  wo_aborted :: "nat \<Rightarrow> bool"
  wo_tag :: "nat \<Rightarrow> string"

text \<open>
  The fields of the client that its methods share. A connection or channel is known by the number
  of the call that opened it; \<open>cl_calls\<close> are the calls made so far, and \<open>cl_open\<close> the connections
  that are open at the broker (which the program cannot see).
\<close>

record RabbitMqClient =
  cl_connection :: "nat option"
  cl_channel :: "nat option"
  cl_consumers :: "(nat \<times> string) list"
  cl_calls :: "broker_call list"
  cl_open :: "nat list"
  cl_logs :: "log_call list"

definition new_client :: RabbitMqClient where
  "new_client = \<lparr>cl_connection = None, cl_channel = None, cl_consumers = [], cl_calls = [], cl_open = [], cl_logs = []\<rparr>"

definition client_ready :: "RabbitMqClient \<Rightarrow> bool" where
  "client_ready c = (cl_connection c \<noteq> None \<and> cl_channel c \<noteq> None)"

definition client_log :: "log_call \<Rightarrow> (RabbitMqClient, unit) io" where
  "client_log l c = (Inr (), c \<lparr>cl_logs := cl_logs c @ [l]\<rparr>)"

definition modify :: "('s \<Rightarrow> 's) \<Rightarrow> ('s, unit) io" where
  "modify f s = (Inr (), f s)"

text \<open>The close listeners: they forget the connection (with its channel) or the channel.\<close>

definition on_connection_close :: "string \<Rightarrow> RabbitMqClient \<Rightarrow> RabbitMqClient" where
  "on_connection_close exchangeName c =
     (case cl_connection c of
        None \<Rightarrow> c
      | Some k \<Rightarrow> c \<lparr>cl_connection := None, cl_channel := None, cl_open := removeAll k (cl_open c),
          cl_logs := cl_logs c @ [LogWarn ''RabbitMQ connection closed'' [(''exchangeName'', JStr exchangeName)]]\<rparr>)"

definition on_channel_close :: "string \<Rightarrow> RabbitMqClient \<Rightarrow> RabbitMqClient" where
  "on_channel_close exchangeName c =
     (case cl_channel c of
        None \<Rightarrow> c
      | Some k \<Rightarrow> c \<lparr>cl_channel := None,
          cl_logs := cl_logs c @ [LogWarn ''RabbitMQ channel closed'' [(''exchangeName'', JStr exchangeName)]]\<rparr>)"

text \<open>Awaiting a call: its number, or what it rejected with.\<close>

definition call :: "world \<Rightarrow> string \<Rightarrow> broker_call \<Rightarrow> (RabbitMqClient, nat) io" where
  "call w exchangeName b c =
     (let n = length (cl_calls c); c' = c \<lparr>cl_calls := cl_calls c @ [b]\<rparr>
      in case wo_call w n of
           Answered \<Rightarrow> (Inr n, c')
         | Failed e \<Rightarrow> (Inl e, c')
         | ChannelDropped e \<Rightarrow> (Inl e, on_channel_close exchangeName c')
         | ConnectionDropped e \<Rightarrow> (Inl e, on_connection_close exchangeName c'))"

text \<open>\<open>sleep\<close> always resolves; \<open>close().catch(() => undefined)\<close> swallows what the call throws.\<close>

definition note_call :: "broker_call \<Rightarrow> (RabbitMqClient, unit) io" where
  "note_call b = modify (\<lambda>c. c \<lparr>cl_calls := cl_calls c @ [b]\<rparr>)"

definition createAbortError :: js_error where
  "createAbortError = AbortError ''RabbitMQ initialization aborted.''"

definition signal_aborted :: "world \<Rightarrow> RabbitMqClient \<Rightarrow> bool" where
  "signal_aborted w c = wo_aborted w (length (cl_calls c))"

definition throwIfAborted :: "world \<Rightarrow> (RabbitMqClient, unit) io" where
  "throwIfAborted w c = (if signal_aborted w c then (Inl createAbortError, c) else (Inr (), c))"

definition closeResources :: "(RabbitMqClient, unit) io" where
  "closeResources c =
     (let channel = cl_channel c; connection = cl_connection c;
          c1 = c \<lparr>cl_channel := None, cl_connection := None\<rparr>;
          c2 = (case channel of None \<Rightarrow> c1 | Some k \<Rightarrow> c1 \<lparr>cl_calls := cl_calls c1 @ [CloseChannel]\<rparr>);
          c3 = (case connection of None \<Rightarrow> c2
                | Some k \<Rightarrow> c2 \<lparr>cl_calls := cl_calls c2 @ [CloseConnection], cl_open := removeAll k (cl_open c2)\<rparr>)
      in (Inr (), c3))"

section \<open>Declaring queues\<close>

definition deadLetterExchangeName :: "string \<Rightarrow> string" where
  "deadLetterExchangeName exchangeName = exchangeName @ ''.dead-letter''"

definition deadLetterQueueName :: "string \<Rightarrow> string" where
  "deadLetterQueueName queue = queue @ ''.dead-letter''"

definition deadLetterRoutingKey :: "string \<Rightarrow> string" where
  "deadLetterRoutingKey queue = queue @ ''.dead-letter''"

text \<open>A call followed by \<open>throwIfAborted(signal)\<close>.\<close>

definition call_checked :: "world \<Rightarrow> string \<Rightarrow> broker_call \<Rightarrow> (RabbitMqClient, unit) io" where
  "call_checked w exchangeName b = io_bind (call w exchangeName b) (\<lambda>_. throwIfAborted w)"

definition declareQueue :: "world \<Rightarrow> string \<Rightarrow> QueueBinding \<Rightarrow> (RabbitMqClient, unit) io" where
  "declareQueue w exchangeName queue =
     (let dlx = deadLetterExchangeName exchangeName;
          dlq = deadLetterQueueName (queueName queue);
          dlk = deadLetterRoutingKey (queueName queue)
      in io_bind (call_checked w exchangeName (AssertExchange dlx ''topic'' True)) (\<lambda>_.
         io_bind (call_checked w exchangeName (AssertQueue dlq True [])) (\<lambda>_.
         io_bind (call_checked w exchangeName (BindQueue dlq dlx dlk)) (\<lambda>_.
         io_bind (call_checked w exchangeName (AssertQueue (queueName queue) True
           [(''x-dead-letter-exchange'', dlx), (''x-dead-letter-routing-key'', dlk)])) (\<lambda>_.
         io_forEach (\<lambda>key. call_checked w exchangeName (BindQueue (queueName queue) exchangeName key)) (routingKeys queue))))))"

section \<open>Connecting\<close>

definition set_connection :: "nat \<Rightarrow> RabbitMqClient \<Rightarrow> RabbitMqClient" where
  "set_connection k c = c \<lparr>cl_connection := Some k, cl_open := k # cl_open c\<rparr>"

text \<open>The body of the loop's \<open>try\<close>. The listeners are registered before the next call.\<close>

definition open_client :: "world \<Rightarrow> string \<Rightarrow> QueueBinding list \<Rightarrow> (RabbitMqClient, unit) io" where
  "open_client w exchangeName topology =
     io_bind (call w exchangeName OpenConnection) (\<lambda>connection.
     io_bind (modify (set_connection connection)) (\<lambda>_.
     io_bind (throwIfAborted w) (\<lambda>_.
     io_bind (call w exchangeName OpenChannel) (\<lambda>channel.
     io_bind (modify (\<lambda>c. c \<lparr>cl_channel := Some channel\<rparr>)) (\<lambda>_.
     io_bind (throwIfAborted w) (\<lambda>_.
     io_bind (call_checked w exchangeName (AssertExchange exchangeName ''topic'' True)) (\<lambda>_.
     io_bind (io_forEach (declareQueue w exchangeName) topology) (\<lambda>_.
     client_log (LogInfo ''Connected to RabbitMQ exchange'' [(''exchangeName'', JStr exchangeName)])))))))))"

definition attempt_failed_log :: "(rat \<Rightarrow> string) \<Rightarrow> int \<Rightarrow> int \<Rightarrow> js_error \<Rightarrow> log_call" where
  "attempt_failed_log num_text attempt maxConnectionRetries e = LogWarn ''RabbitMQ connection attempt failed''
     [(''attempt'', int_js attempt), (''maxConnectionRetries'', int_js maxConnectionRetries),
      (''errorMessage'', JStr (getErrorMessage num_text (ThrownError e)))]"

definition connect_failed :: "(rat \<Rightarrow> string) \<Rightarrow> int \<Rightarrow> thrown \<Rightarrow> js_error" where
  "connect_failed num_text maxConnectionRetries lastError =
     JsError (''[messaging] Could not connect to '' @ ''RabbitMQ after '' @ int_text maxConnectionRetries @ '' attempts. '' @
       ''Last error: '' @ getErrorMessage num_text lastError)"

text \<open>The loop, by the number of attempts that are left.\<close>

fun connect_attempts ::
    "(rat \<Rightarrow> string) \<Rightarrow> world \<Rightarrow> RabbitMqClientOptions \<Rightarrow> string \<Rightarrow> QueueBinding list \<Rightarrow> thrown \<Rightarrow> nat \<Rightarrow> (RabbitMqClient, unit) io" where
  "connect_attempts num_text w opts exchangeName topology lastError 0 c =
     (Inl (connect_failed num_text (option_value ro_maxConnectionRetries opts) lastError), c)"
| "connect_attempts num_text w opts exchangeName topology lastError (Suc left) c =
     (let most = option_value ro_maxConnectionRetries opts; attempt = most - int left
      in io_bind (throwIfAborted w) (\<lambda>_ c.
         case open_client w exchangeName topology c of
           (Inr _, c1) \<Rightarrow> (Inr (), c1)
         | (Inl e, c1) \<Rightarrow>
             io_bind closeResources (\<lambda>_ c2.
             if signal_aborted w c2 then (Inl createAbortError, c2)
             else io_bind (client_log (attempt_failed_log num_text attempt most e)) (\<lambda>_.
                  io_bind (if attempt < most
                    then io_bind (note_call (Sleep (option_value ro_retryDelayInMs opts))) (\<lambda>_. throwIfAborted w)
                    else io_return ()) (\<lambda>_.
                  connect_attempts num_text w opts exchangeName topology (ThrownError e) left)) c2) c1) c)"

definition connectWithRetry ::
    "(rat \<Rightarrow> string) \<Rightarrow> world \<Rightarrow> RabbitMqClientOptions \<Rightarrow> string \<Rightarrow> QueueBinding list \<Rightarrow> (RabbitMqClient, unit) io" where
  "connectWithRetry num_text w opts exchangeName topology =
     io_bind (throwIfAborted w) (\<lambda>_ c.
     if cl_channel c \<noteq> None then (Inr (), c)
     else io_bind (if cl_connection c \<noteq> None then closeResources else io_return ()) (\<lambda>_.
          connect_attempts num_text w opts exchangeName topology (ThrownValue JUndefined)
            (nat (option_value ro_maxConnectionRetries opts))) c)"

text \<open>
  \<open>waitForPromiseOrAbort\<close>: what the promise came to, or \<open>None\<close> when the signal was aborted first
  (or already).
\<close>

definition waitForPromiseOrAbort :: "(js_error + unit) option \<Rightarrow> js_error + unit" where
  "waitForPromiseOrAbort outcome = (case outcome of None \<Rightarrow> Inl createAbortError | Some r \<Rightarrow> r)"

text \<open>
  \<open>connect\<close>: callers that come while a connect is running wait for its promise. \<open>running\<close> is
  \<open>None\<close> if there is none, and otherwise what waiting for it came to.
\<close>

definition connect_client ::
    "(rat \<Rightarrow> string) \<Rightarrow> world \<Rightarrow> RabbitMqClientOptions \<Rightarrow> string \<Rightarrow> QueueBinding list
      \<Rightarrow> (js_error + unit) option option \<Rightarrow> (RabbitMqClient, unit) io" where
  "connect_client num_text w opts exchangeName topology running =
     io_bind (throwIfAborted w) (\<lambda>_ c.
     if cl_channel c \<noteq> None then (Inr (), c)
     else case running of
            Some outcome \<Rightarrow> (waitForPromiseOrAbort outcome, c)
          | None \<Rightarrow> connectWithRetry num_text w opts exchangeName topology c)"

section \<open>Connecting ends, and leaves nothing open\<close>

text \<open>The program's fields agree with what is open at the broker.\<close>

definition no_leak :: "RabbitMqClient \<Rightarrow> bool" where
  "no_leak c \<longleftrightarrow> cl_open c = (case cl_connection c of None \<Rightarrow> [] | Some k \<Rightarrow> [k])
     \<and> (cl_connection c = None \<longrightarrow> cl_channel c = None)"

definition connections_opened :: "RabbitMqClient \<Rightarrow> nat" where
  "connections_opened c = length (filter (\<lambda>b. b = OpenConnection) (cl_calls c))"

text \<open>
  A quiet computation opens no connection; if it returns, the client's connection and channel are
  what they were, and if it throws they still agree with the broker.
\<close>

definition quiet :: "(RabbitMqClient, 'a) io \<Rightarrow> bool" where
  "quiet m \<longleftrightarrow> (\<forall>c r c'. no_leak c \<longrightarrow> m c = (r, c') \<longrightarrow>
     no_leak c' \<and> connections_opened c' = connections_opened c
     \<and> (\<forall>x. r = Inr x \<longrightarrow> cl_connection c' = cl_connection c \<and> cl_channel c' = cl_channel c))"

lemma quietD:
  "quiet m \<Longrightarrow> no_leak c \<Longrightarrow> m c = (r, c') \<Longrightarrow> no_leak c' \<and> connections_opened c' = connections_opened c
     \<and> (\<forall>x. r = Inr x \<longrightarrow> cl_connection c' = cl_connection c \<and> cl_channel c' = cl_channel c)"
  unfolding quiet_def by blast

lemma quiet_bind [intro]:
  assumes "quiet m" "\<And>x. quiet (f x)"
  shows "quiet (io_bind m f)"
  unfolding quiet_def
proof (intro allI impI)
  fix c r c'
  assume c: "no_leak c" and run: "io_bind m f c = (r, c')"
  obtain x c1 where m: "m c = (x, c1)" by fastforce
  note first = quietD [OF assms(1) c m]
  show "no_leak c' \<and> connections_opened c' = connections_opened c
     \<and> (\<forall>x. r = Inr x \<longrightarrow> cl_connection c' = cl_connection c \<and> cl_channel c' = cl_channel c)"
  proof (cases x)
    case (Inl e)
    with run m first show ?thesis by (auto simp: io_bind_def)
  next
    case (Inr y)
    with run m have "f y c1 = (r, c')" by (simp add: io_bind_def)
    with quietD [OF assms(2), of c1 y r c'] first Inr show ?thesis by auto
  qed
qed

lemma quiet_forEach [intro]:
  assumes "\<And>x. quiet (f x)"
  shows "quiet (io_forEach f xs)"
proof (induction xs)
  case Nil
  show ?case by (simp add: quiet_def)
next
  case (Cons x xs)
  from quiet_bind [OF assms this] show ?case by simp
qed

lemma connections_opened_simps [simp]:
  "connections_opened (c \<lparr>cl_connection := x\<rparr>) = connections_opened c"
  "connections_opened (c \<lparr>cl_channel := y\<rparr>) = connections_opened c"
  "connections_opened (c \<lparr>cl_open := l\<rparr>) = connections_opened c"
  "connections_opened (c \<lparr>cl_logs := g\<rparr>) = connections_opened c"
  "connections_opened (c \<lparr>cl_calls := cl_calls c @ [b]\<rparr>) = connections_opened c + (if b = OpenConnection then 1 else 0)"
  by (simp_all add: connections_opened_def)

lemma closed_connections [simp]:
  "connections_opened (on_connection_close exchangeName c) = connections_opened c"
  "connections_opened (on_channel_close exchangeName c) = connections_opened c"
  by (simp_all add: on_connection_close_def on_channel_close_def split: option.split)

lemma call_effect:
  assumes "no_leak c" "call w exchangeName b c = (r, c')"
  shows "no_leak c' \<and> connections_opened c' = connections_opened c + (if b = OpenConnection then 1 else 0)
     \<and> (cl_connection c = None \<longrightarrow> cl_connection c' = None)
     \<and> (\<forall>x. r = Inr x \<longrightarrow> cl_connection c' = cl_connection c \<and> cl_channel c' = cl_channel c)"
  using assms
  by (auto simp: call_def Let_def no_leak_def on_connection_close_def on_channel_close_def
      split: call_result.splits option.splits)

lemma quiet_call [intro]: "b \<noteq> OpenConnection \<Longrightarrow> quiet (call w exchangeName b)"
  unfolding quiet_def using call_effect by fastforce

lemma quiet_throwIfAborted [intro]: "quiet (throwIfAborted w)"
  by (auto simp: quiet_def throwIfAborted_def split: if_splits)

lemma quiet_log [intro]: "quiet (client_log l)"
  by (auto simp: quiet_def client_log_def no_leak_def)

lemma quiet_call_checked [intro]: "b \<noteq> OpenConnection \<Longrightarrow> quiet (call_checked w exchangeName b)"
  unfolding call_checked_def by (intro quiet_bind quiet_call quiet_throwIfAborted)

lemma quiet_declareQueue [intro]: "quiet (declareQueue w exchangeName queue)"
  unfolding declareQueue_def Let_def by (intro quiet_bind quiet_call_checked quiet_forEach) simp_all

lemma closeResources_effect:
  assumes "no_leak c"
  obtains c' where "closeResources c = (Inr (), c')" "cl_open c' = []" "cl_connection c' = None" "cl_channel c' = None"
    "connections_opened c' = connections_opened c"
  using that [of "snd (closeResources c)"] assms
  by (auto simp: closeResources_def no_leak_def Let_def connections_opened_def split: option.split)

text \<open>One attempt: it opens one connection, and returns with a client that is ready.\<close>

lemma open_client_effect:
  assumes c: "no_leak c" "cl_connection c = None" and run: "open_client w exchangeName topology c = (r, c')"
  shows "no_leak c' \<and> connections_opened c' = connections_opened c + 1 \<and> (\<forall>x. r = Inr x \<longrightarrow> client_ready c')"
proof -
  define rest where "rest = (\<lambda>_ :: unit. io_bind (call_checked w exchangeName (AssertExchange exchangeName ''topic'' True)) (\<lambda>_.
     io_bind (io_forEach (declareQueue w exchangeName) topology) (\<lambda>_.
     client_log (LogInfo ''Connected to RabbitMQ exchange'' [(''exchangeName'', JStr exchangeName)]))))"
  have rest: "quiet (rest u)" for u
    unfolding rest_def by (intro quiet_bind quiet_call_checked quiet_forEach quiet_declareQueue quiet_log) simp
  obtain x1 c1 where s1: "call w exchangeName OpenConnection c = (x1, c1)" by fastforce
  note e1 = call_effect [OF c(1) s1]
  show ?thesis
  proof (cases x1)
    case (Inl e)
    with run s1 e1 show ?thesis by (auto simp: open_client_def io_bind_def)
  next
    case (Inr k)
    let ?c2 = "set_connection k c1"
    have c2: "no_leak ?c2" "connections_opened ?c2 = connections_opened c + 1" "cl_connection ?c2 = Some k"
      using e1 c(2) Inr by (auto simp: set_connection_def no_leak_def connections_opened_def)
    obtain x3 c3 where s3: "call w exchangeName OpenChannel ?c2 = (x3, c3)" by fastforce
    note e3 = call_effect [OF c2(1) s3]
    show ?thesis
    proof (cases "signal_aborted w ?c2 \<or> (\<exists>e. x3 = Inl e)")
      case True
      with run s1 Inr s3 e3 c2 show ?thesis
        by (auto simp: open_client_def io_bind_def modify_def throwIfAborted_def split: if_splits)
    next
      case False
      then obtain ch where ch: "x3 = Inr ch" by (cases x3) auto
      let ?c4 = "c3 \<lparr>cl_channel := Some ch\<rparr>"
      have c4: "no_leak ?c4" "connections_opened ?c4 = connections_opened c + 1" "client_ready ?c4"
        using e3 ch c2 by (auto simp: no_leak_def client_ready_def)
      have "io_bind (throwIfAborted w) rest ?c4 = (r, c')"
        using run s1 Inr s3 ch False by (simp add: open_client_def io_bind_def modify_def throwIfAborted_def rest_def)
      from quietD [OF quiet_bind [OF quiet_throwIfAborted rest] c4(1) this] c4 show ?thesis
        by (auto simp: client_ready_def)
    qed
  qed
qed

definition connect_error :: "(rat \<Rightarrow> string) \<Rightarrow> RabbitMqClientOptions \<Rightarrow> js_error \<Rightarrow> bool" where
  "connect_error num_text opts e \<longleftrightarrow>
     e = createAbortError \<or> (\<exists>lastErr. e = connect_failed num_text (option_value ro_maxConnectionRetries opts) lastErr)"

lemma note_call_effect: "note_call b c = (Inr (), c \<lparr>cl_calls := cl_calls c @ [b]\<rparr>)"
  by (simp add: note_call_def modify_def)

lemma connect_attempts_effect:
  assumes "cl_open c = []" "cl_connection c = None" "cl_channel c = None"
    and "connect_attempts num_text w opts exchangeName topology lastErr left c = (r, c')"
  shows "no_leak c' \<and> connections_opened c' \<le> connections_opened c + left
    \<and> (case r of Inr _ \<Rightarrow> client_ready c'
       | Inl e \<Rightarrow> cl_open c' = [] \<and> cl_channel c' = None \<and> connect_error num_text opts e)"
  using assms
proof (induction left arbitrary: c lastErr)
  case 0
  then show ?case by (auto simp: no_leak_def connect_error_def)
next
  case (Suc left)
  have c: "no_leak c" using Suc.prems by (simp add: no_leak_def)
  show ?case
  proof (cases "signal_aborted w c")
    case True
    with Suc.prems c show ?thesis by (auto simp: io_bind_def throwIfAborted_def connect_error_def)
  next
    case False
    obtain x c1 where s1: "open_client w exchangeName topology c = (x, c1)" by fastforce
    note e1 = open_client_effect [OF c Suc.prems(2) s1]
    show ?thesis
    proof (cases x)
      case (Inr u)
      with False Suc.prems(4) s1 e1 show ?thesis by (auto simp: io_bind_def throwIfAborted_def)
    next
      case (Inl e)
      from e1 obtain c2 where s2: "closeResources c1 = (Inr (), c2)" "cl_open c2 = []" "cl_connection c2 = None"
        "cl_channel c2 = None" "connections_opened c2 = connections_opened c + 1"
        using closeResources_effect by metis
      let ?most = "option_value ro_maxConnectionRetries opts"
      obtain c3 where c3: "c3 = c2 \<lparr>cl_logs := cl_logs c2 @ [attempt_failed_log num_text (?most - int left) ?most e]\<rparr>" by blast
      obtain c4 where c4: "c4 = c3 \<lparr>cl_calls := cl_calls c3 @ [Sleep (option_value ro_retryDelayInMs opts)]\<rparr>" by blast
      have run: "(if signal_aborted w c2 then (Inl createAbortError, c2)
          else if ?most - int left < ?most
            then if signal_aborted w c4 then (Inl createAbortError, c4)
                 else connect_attempts num_text w opts exchangeName topology (ThrownError e) left c4
            else connect_attempts num_text w opts exchangeName topology (ThrownError e) left c3) = (r, c')"
        using False Suc.prems(4) s1 Inl s2(1) unfolding c3 c4
        by (simp add: io_bind_def throwIfAborted_def client_log_def note_call_effect Let_def split: if_splits)
      have idle: "cl_open c3 = []" "cl_connection c3 = None" "cl_channel c3 = None" "connections_opened c3 = connections_opened c + 1"
        "cl_open c4 = []" "cl_connection c4 = None" "cl_channel c4 = None" "connections_opened c4 = connections_opened c + 1"
        using s2 by (simp_all add: c3 c4 connections_opened_def)
      consider "(r, c') = (Inl createAbortError, c2)" | "(r, c') = (Inl createAbortError, c4)"
        | "connect_attempts num_text w opts exchangeName topology (ThrownError e) left c4 = (r, c')"
        | "connect_attempts num_text w opts exchangeName topology (ThrownError e) left c3 = (r, c')"
        using run by metis
      then show ?thesis
      proof cases
        case 1
        with s2 show ?thesis by (simp add: connect_error_def no_leak_def)
      next
        case 2
        with idle show ?thesis by (simp add: connect_error_def no_leak_def)
      next
        case 3
        with Suc.IH [OF idle(5-7) 3] idle(8) show ?thesis by simp
      next
        case 4
        with Suc.IH [OF idle(1-3) 4] idle(4) show ?thesis by simp
      qed
    qed
  qed
qed

text \<open>
  C26: connecting ends and leaves no connection behind. Whatever the broker answers, whenever
  connections drop and whenever the signal is aborted, at most \<open>maxConnectionRetries\<close> connections
  are opened. If \<open>connectWithRetry\<close> returns the client is ready; if it throws, with the abort error
  or the error that names the attempts, no connection is open that the client does not know of:
  none at all, unless it gave up before doing anything.
\<close>

theorem connect_leaves_nothing_open:
  assumes "no_leak c" "cl_channel c = None" "connectWithRetry num_text w opts exchangeName topology c = (r, c')"
  shows "connections_opened c' \<le> connections_opened c + nat (option_value ro_maxConnectionRetries opts)
    \<and> no_leak c' \<and> (case r of Inr _ \<Rightarrow> client_ready c'
       | Inl e \<Rightarrow> (cl_open c' = [] \<or> c' = c) \<and> cl_channel c' = None \<and> connect_error num_text opts e)"
proof (cases "signal_aborted w c")
  case True
  with assms show ?thesis by (auto simp: connectWithRetry_def io_bind_def throwIfAborted_def connect_error_def)
next
  case False
  from assms(1) obtain c1 where c1: "closeResources c = (Inr (), c1)" "cl_open c1 = []" "cl_connection c1 = None"
    "cl_channel c1 = None" "connections_opened c1 = connections_opened c" by (rule closeResources_effect)
  obtain d where d: "d = (if cl_connection c \<noteq> None then c1 else c)" by blast
  have "connect_attempts num_text w opts exchangeName topology (ThrownValue JUndefined)
      (nat (option_value ro_maxConnectionRetries opts)) d = (r, c')"
    using assms(2,3) False c1(1) by (simp add: d connectWithRetry_def io_bind_def throwIfAborted_def split: if_splits)
  moreover have "cl_open d = []" "cl_connection d = None" "cl_channel d = None" "connections_opened d = connections_opened c"
    using c1 assms(1,2) by (simp_all add: d no_leak_def)
  ultimately have "no_leak c' \<and> connections_opened c' \<le> connections_opened c + nat (option_value ro_maxConnectionRetries opts)
    \<and> (case r of Inr _ \<Rightarrow> client_ready c'
       | Inl e \<Rightarrow> cl_open c' = [] \<and> cl_channel c' = None \<and> connect_error num_text opts e)"
    using connect_attempts_effect [of d] by metis
  then show ?thesis by (cases r) auto
qed

section \<open>Publishing\<close>

text \<open>
  What a publication meets after its channel took it: what the channel's promise came to
  (\<open>None\<close>: the signal was aborted first), and at the end whether the timer had fired and whether
  the caller had aborted.
\<close>

record publish_env =
  pe_confirm :: "(js_error + unit) option"
  pe_timed_out :: bool
  pe_caller_aborted :: bool

text \<open>A message as the channel gets it; \<open>publish\<close> makes at most one.\<close>

record publication =
  pn_exchange :: string
  pn_routingKey :: string
  pn_body :: string
  pn_messageId :: string
  pn_correlationId :: string
  pn_type :: string
  pn_contentType :: string
  pn_deliveryMode :: nat

definition event_publication :: "string \<Rightarrow> string \<Rightarrow> string \<Rightarrow> MessageEvent \<Rightarrow> publication" where
  "event_publication exchangeName routingKey body e =
     \<lparr>pn_exchange = exchangeName, pn_routingKey = routingKey, pn_body = body, pn_messageId = me_eventId e,
      pn_correlationId = me_correlationId e, pn_type = me_eventType e, pn_contentType = ''application/json'',
      pn_deliveryMode = 2\<rparr>"

definition publish_error ::
    "(rat \<Rightarrow> string) \<Rightarrow> RabbitMqClientOptions \<Rightarrow> string \<Rightarrow> MessageEvent \<Rightarrow> publish_env \<Rightarrow> js_error \<Rightarrow> js_error" where
  "publish_error num_text opts routingKey e env err =
     (if pe_timed_out env \<and> \<not> pe_caller_aborted env then
        PublishTimeoutError (''RabbitMQ did not confirm event '' @ me_eventId e @ '' within '' @
          int_text (option_value ro_publishTimeoutInMs opts) @ '' ms.'')
      else JsError (''[messaging] Failed to publish event '' @ me_eventId e @ '' '' @ ''to '' @ [CHR 0x27] @ routingKey @
          [CHR 0x27] @ '': '' @ getErrorMessage num_text (ThrownError err)))"

definition published_event_log :: "string \<Rightarrow> string \<Rightarrow> MessageEvent \<Rightarrow> log_call" where
  "published_event_log exchangeName routingKey e = LogInfo ''Published event''
     [(''exchangeName'', JStr exchangeName), (''routingKey'', JStr routingKey), (''eventId'', JStr (me_eventId e)),
      (''eventType'', JStr (me_eventType e)), (''correlationId'', JStr (me_correlationId e))]"

text \<open>
  \<open>do_connect\<close> is \<open>connect\<close> with the publication's signal. The result also tells which message was
  given to which channel.
\<close>

definition publish_event ::
    "(rat \<Rightarrow> string) \<Rightarrow> RabbitMqClientOptions \<Rightarrow> string \<Rightarrow> (RabbitMqClient, unit) io \<Rightarrow> publish_env \<Rightarrow> string \<Rightarrow> MessageEvent
      \<Rightarrow> string \<Rightarrow> RabbitMqClient \<Rightarrow> ((js_error + unit) \<times> (nat \<times> publication) option) \<times> RabbitMqClient" where
  "publish_event num_text opts exchangeName do_connect env routingKey e body c =
     (case do_connect c of
        (Inl err, c1) \<Rightarrow> ((Inl (publish_error num_text opts routingKey e env err), None), c1)
      | (Inr _, c1) \<Rightarrow>
          (case cl_channel c1 of
             None \<Rightarrow> ((Inl (publish_error num_text opts routingKey e env (JsError ''RabbitMQ channel is not available.'')), None), c1)
           | Some channel \<Rightarrow>
               (let sent = Some (channel, event_publication exchangeName routingKey body e)
                in case waitForPromiseOrAbort (pe_confirm env) of
                     Inl err \<Rightarrow> ((Inl (publish_error num_text opts routingKey e env err), sent), c1)
                   | Inr _ \<Rightarrow> ((Inr (), sent), snd (client_log (published_event_log exchangeName routingKey e) c1)))))"

section \<open>Subscribing and closing\<close>

definition subscribed_logs :: "string \<Rightarrow> QueueBinding \<Rightarrow> string \<Rightarrow> log_call list" where
  "subscribed_logs exchangeName queue tag =
     [LogInfo ''Subscribed queue'' [(''queueName'', JStr (queueName queue)),
        (''routingKeys'', JArr (map JStr (routingKeys queue))), (''consumerTag'', JStr tag)],
      LogInfo ''Configured dead-letter queue'' [(''queueName'', JStr (queueName queue)),
        (''deadLetterQueueName'', JStr (deadLetterQueueName (queueName queue))),
        (''deadLetterExchangeName'', JStr (deadLetterExchangeName exchangeName)),
        (''deadLetterRoutingKey'', JStr (deadLetterRoutingKey (queueName queue)))]]"

definition remember_consumer :: "nat \<Rightarrow> string \<Rightarrow> RabbitMqClient \<Rightarrow> RabbitMqClient" where
  "remember_consumer channel tag c =
     c \<lparr>cl_consumers := filter (\<lambda>(ch, t). ch = channel) (cl_consumers c) @ [(channel, tag)]\<rparr>"

definition subscribe_queue ::
    "world \<Rightarrow> RabbitMqClientOptions \<Rightarrow> string \<Rightarrow> (RabbitMqClient, unit) io \<Rightarrow> QueueBinding \<Rightarrow> (RabbitMqClient, unit) io" where
  "subscribe_queue w opts exchangeName do_connect queue =
     io_bind do_connect (\<lambda>_. io_bind (throwIfAborted w) (\<lambda>_ c.
     case cl_channel c of
       None \<Rightarrow> (Inl (JsError ''RabbitMQ channel was not initialized.''), c)
     | Some channel \<Rightarrow>
         io_bind (declareQueue w exchangeName queue) (\<lambda>_.
         io_bind (call w exchangeName (Prefetch (option_value ro_prefetchCount opts))) (\<lambda>_.
         io_bind (call w exchangeName (Consume (queueName queue))) (\<lambda>n.
         io_bind (modify (remember_consumer channel (wo_tag w n))) (\<lambda>_.
         io_bind (throwIfAborted w) (\<lambda>_.
         io_forEach client_log (subscribed_logs exchangeName queue (wo_tag w n))))))) c))"

text \<open>The broker cancelled a consumer: the channel is dropped unless it is an old one.\<close>

definition handleConsumerCancelledByBroker :: "nat \<Rightarrow> string \<Rightarrow> (RabbitMqClient, unit) io" where
  "handleConsumerCancelledByBroker channel queue =
     io_bind (client_log (LogWarn ''RabbitMQ cancelled the consumer'' [(''queueName'', JStr queue)])) (\<lambda>_ c.
     if cl_channel c \<noteq> Some channel then (Inr (), c) else closeResources c)"

definition cancelConsumers :: "(RabbitMqClient, unit) io" where
  "cancelConsumers c =
     (let current = filter (\<lambda>(ch, tag). Some ch = cl_channel c) (cl_consumers c)
      in (Inr (), c \<lparr>cl_consumers := [], cl_calls := cl_calls c @ map (\<lambda>(ch, tag). CancelConsumer tag) current\<rparr>))"

text \<open>\<open>drained\<close>: the handlers in flight finished before the timer.\<close>

definition waitForInFlightDeliveries :: "RabbitMqClientOptions \<Rightarrow> nat \<Rightarrow> bool \<Rightarrow> (RabbitMqClient, unit) io" where
  "waitForInFlightDeliveries opts inFlightCount drained =
     (if inFlightCount = 0 then io_return ()
      else io_bind (note_call (Sleep (option_value ro_drainTimeoutInMs opts))) (\<lambda>_.
           if drained then io_return ()
           else client_log (LogWarn (''Timed out waiting for in-flight messages; '' @ ''the broker will redeliver them'')
             [(''inFlightCount'', int_js (int inFlightCount)), (''drainTimeoutInMs'', int_js (option_value ro_drainTimeoutInMs opts))])))"

definition close_client :: "RabbitMqClientOptions \<Rightarrow> nat \<Rightarrow> bool \<Rightarrow> (RabbitMqClient, unit) io" where
  "close_client opts inFlightCount drained =
     io_bind cancelConsumers (\<lambda>_. io_bind (waitForInFlightDeliveries opts inFlightCount drained) (\<lambda>_. closeResources))"

lemma wait_effect:
  obtains c' where "waitForInFlightDeliveries opts n d c = (Inr (), c')" "cl_consumers c' = cl_consumers c" "no_leak c' = no_leak c"
  using that
  by (cases "n = 0"; cases d)
    (auto simp: waitForInFlightDeliveries_def io_bind_def note_call_effect client_log_def no_leak_def)

lemma close_leaves_nothing_open:
  assumes "no_leak c"
  obtains c' where "close_client opts n d c = (Inr (), c')" "cl_open c' = []" "cl_consumers c' = []" "\<not> client_ready c'"
proof -
  let ?c1 = "snd (cancelConsumers c)"
  obtain c2 where w: "waitForInFlightDeliveries opts n d ?c1 = (Inr (), c2)" and "cl_consumers c2 = []" "no_leak c2"
    by (rule wait_effect [of opts n d ?c1]) (use assms in \<open>auto simp: cancelConsumers_def no_leak_def Let_def\<close>)
  moreover have "close_client opts n d c = closeResources c2"
    using w by (simp add: close_client_def io_bind_def cancelConsumers_def Let_def)
  ultimately show ?thesis
    using that [of "snd (closeResources c2)"]
    by (auto simp: closeResources_def no_leak_def client_ready_def Let_def split: option.split)
qed

text \<open>
  A publication is reported as it ended. \<open>publish\<close> resolves exactly when a channel took the
  message (the event's JSON, persistent, under its ids) and confirmed it before the signal was
  aborted; then it is logged. Otherwise it throws: \<open>PublishTimeoutError\<close> exactly when the timer had
  fired and the caller had not aborted, and an \<open>Error\<close> that names the event in every other case.
\<close>

lemma publish_reports_outcome:
  assumes "publish_event num_text opts exchangeName do_connect env routingKey e body c = ((r, sent), c')"
  shows "(r = Inr () \<longleftrightarrow> (\<exists>channel. sent = Some (channel, event_publication exchangeName routingKey body e)) \<and> pe_confirm env = Some (Inr ()))
    \<and> (r = Inr () \<longrightarrow> cl_logs c' = cl_logs (snd (do_connect c)) @ [published_event_log exchangeName routingKey e])
    \<and> (sent \<noteq> None \<longrightarrow> fst (do_connect c) = Inr () \<and> map_option fst sent = cl_channel (snd (do_connect c)))
    \<and> (\<forall>err. r = Inl err \<longrightarrow> (if pe_timed_out env \<and> \<not> pe_caller_aborted env then \<exists>m. err = PublishTimeoutError m else \<exists>m. err = JsError m))"
proof -
  obtain x c1 where x: "do_connect c = (x, c1)" by fastforce
  show ?thesis
  proof (cases x)
    case (Inl err)
    with x assms show ?thesis by (auto simp: publish_event_def publish_error_def)
  next
    case (Inr u)
    show ?thesis
    proof (cases "cl_channel c1")
      case None
      with Inr x assms show ?thesis by (auto simp: publish_event_def publish_error_def)
    next
      case (Some channel)
      with Inr x assms show ?thesis
        by (cases "pe_confirm env")
          (auto simp: publish_event_def publish_error_def waitForPromiseOrAbort_def client_log_def Let_def split: sum.splits)
    qed
  qed
qed

section \<open>The declared topology\<close>

text \<open>
  What the declarations make of a broker: exchanges, queues with their arguments, and bindings.
  A declaration of something that exists changes nothing.
\<close>

record broker_state =
  br_exchanges :: "string set"
  br_queues :: "(string \<times> (string \<times> string) list) set"
  br_bindings :: "(string \<times> string \<times> string) set"

definition empty_broker :: broker_state where
  "empty_broker = \<lparr>br_exchanges = {}, br_queues = {}, br_bindings = {}\<rparr>"

fun apply_call :: "broker_call \<Rightarrow> broker_state \<Rightarrow> broker_state" where
  "apply_call (AssertExchange ex kind durable) b = b \<lparr>br_exchanges := insert ex (br_exchanges b)\<rparr>"
| "apply_call (AssertQueue queue durable args) b = b \<lparr>br_queues := insert (queue, args) (br_queues b)\<rparr>"
| "apply_call (BindQueue queue ex key) b = b \<lparr>br_bindings := insert (queue, ex, key) (br_bindings b)\<rparr>"
| "apply_call other b = b"

text \<open>
  Where a message goes. The exchanges are topic exchanges and no bound key has a wildcard, so a
  binding matches exactly its key.
\<close>

definition routed_to :: "broker_state \<Rightarrow> string \<Rightarrow> string \<Rightarrow> string set" where
  "routed_to b ex key = {queue. (queue, ex, key) \<in> br_bindings b}"

definition queue_args :: "string \<Rightarrow> string \<Rightarrow> (string \<times> string) list" where
  "queue_args exchangeName queue =
     [(''x-dead-letter-exchange'', deadLetterExchangeName exchangeName), (''x-dead-letter-routing-key'', deadLetterRoutingKey queue)]"

text \<open>The calls that declare a queue and those of a connection, when each is answered.\<close>

definition queue_calls :: "string \<Rightarrow> QueueBinding \<Rightarrow> broker_call list" where
  "queue_calls exchangeName queue =
     [AssertExchange (deadLetterExchangeName exchangeName) ''topic'' True,
      AssertQueue (deadLetterQueueName (queueName queue)) True [],
      BindQueue (deadLetterQueueName (queueName queue)) (deadLetterExchangeName exchangeName) (deadLetterRoutingKey (queueName queue)),
      AssertQueue (queueName queue) True (queue_args exchangeName (queueName queue))]
     @ map (BindQueue (queueName queue) exchangeName) (routingKeys queue)"

definition connection_calls :: "string \<Rightarrow> QueueBinding list \<Rightarrow> broker_call list" where
  "connection_calls exchangeName topology =
     [OpenConnection, OpenChannel, AssertExchange exchangeName ''topic'' True] @ concat (map (queue_calls exchangeName) topology)"

text \<open>A computation that makes exactly these calls if it returns.\<close>

definition makes :: "(RabbitMqClient, 'a) io \<Rightarrow> broker_call list \<Rightarrow> bool" where
  "makes m bs \<longleftrightarrow> (\<forall>c x c'. m c = (Inr x, c') \<longrightarrow> cl_calls c' = cl_calls c @ bs)"

lemma makes_bind [intro]: "makes m bs \<Longrightarrow> (\<And>x. makes (f x) bs') \<Longrightarrow> makes (io_bind m f) (bs @ bs')"
  by (fastforce simp: makes_def io_bind_def split: prod.splits sum.splits)

lemma makes_call: "makes (call w exchangeName b) [b]"
  by (auto simp: makes_def call_def Let_def split: call_result.splits)

lemma makes_nothing: "makes (throwIfAborted w) []" "makes (client_log l) []" "makes (io_return x) []"
  "makes (modify (set_connection k)) []" "makes (modify (\<lambda>c. c \<lparr>cl_channel := y\<rparr>)) []"
  by (auto simp: makes_def throwIfAborted_def client_log_def modify_def set_connection_def split: if_splits)

lemma makes_call_checked: "makes (call_checked w exchangeName b) [b]"
  unfolding call_checked_def using makes_bind [OF makes_call makes_nothing(1)] by simp

lemma makes_forEach: "(\<And>x. makes (f x) (g x)) \<Longrightarrow> makes (io_forEach f xs) (concat (map g xs))"
proof (induction xs)
  case Nil
  show ?case by (simp add: makes_def)
next
  case (Cons x xs)
  from makes_bind [OF Cons.prems Cons.IH [OF Cons.prems], of x] show ?case by simp
qed

lemma makes_queue_calls: "makes (declareQueue w exchangeName queue) (queue_calls exchangeName queue)"
proof -
  let ?bind = "\<lambda>key. call_checked w exchangeName (BindQueue (queueName queue) exchangeName key)"
  have "makes (io_forEach ?bind (routingKeys queue)) (map (BindQueue (queueName queue) exchangeName) (routingKeys queue))"
    using makes_forEach [of ?bind "\<lambda>key. [BindQueue (queueName queue) exchangeName key]", OF makes_call_checked, of "routingKeys queue"]
    by (simp add: concat_map_singleton)
  from makes_bind [OF makes_call_checked makes_bind [OF makes_call_checked makes_bind [OF makes_call_checked
      makes_bind [OF makes_call_checked this]]]]
  show ?thesis by (simp add: declareQueue_def queue_calls_def queue_args_def Let_def)
qed

lemma makes_open: "makes (open_client w exchangeName topology) (connection_calls exchangeName topology)"
proof -
  from makes_bind [OF makes_call makes_bind [OF makes_nothing(4) makes_bind [OF makes_nothing(1) makes_bind [OF makes_call
      makes_bind [OF makes_nothing(5) makes_bind [OF makes_nothing(1) makes_bind [OF makes_call_checked
      makes_bind [OF makes_forEach [OF makes_queue_calls] makes_nothing(2)]]]]]]]]
  show ?thesis by (simp add: open_client_def connection_calls_def)
qed

lemma connect_attempts_calls:
  assumes "connect_attempts num_text w opts exchangeName topology lastErr left c = (Inr u, c')"
  obtains earlier where "cl_calls c' = earlier @ connection_calls exchangeName topology"
  using assms
proof (induction left arbitrary: c lastErr thesis)
  case (Suc left)
  show ?case
  proof (cases "open_client w exchangeName topology c")
    case (Pair x c1)
    show ?thesis
    proof (cases x)
      case (Inr v)
      with Pair makes_open [of w exchangeName topology] have "cl_calls c1 = cl_calls c @ connection_calls exchangeName topology"
        unfolding makes_def by blast
      moreover from Suc.prems(2) Pair Inr have "c1 = c'"
        by (simp add: io_bind_def throwIfAborted_def split: if_splits)
      ultimately show ?thesis using Suc.prems(1) by blast
    next
      case (Inl e)
      with Suc.prems(2) Pair obtain c2 where
        "connect_attempts num_text w opts exchangeName topology (ThrownError e) left c2 = (Inr u, c')"
        by (auto simp: io_bind_def throwIfAborted_def client_log_def note_call_effect Let_def split: if_splits prod.splits sum.splits)
      with Suc.IH Suc.prems(1) show ?thesis by blast
    qed
  qed
qed simp

text \<open>Calls only add to what a broker has.\<close>

definition broker_le :: "broker_state \<Rightarrow> broker_state \<Rightarrow> bool" where
  "broker_le a b \<longleftrightarrow> br_exchanges a \<subseteq> br_exchanges b \<and> br_queues a \<subseteq> br_queues b \<and> br_bindings a \<subseteq> br_bindings b"

lemma apply_call_mono: "broker_le a b \<Longrightarrow> broker_le (apply_call c a) (apply_call c b)"
  by (cases c) (auto simp: broker_le_def)

lemma fold_apply_mono: "broker_le a b \<Longrightarrow> broker_le (fold apply_call cs a) (fold apply_call cs b)"
  by (induction cs arbitrary: a b) (auto intro: apply_call_mono)

definition declared :: "string \<Rightarrow> broker_state" where
  "declared exchangeName = fold apply_call (connection_calls exchangeName COMMERCE_TOPOLOGY) empty_broker"

lemma fold_apply_queues: "(queue, args) \<in> br_queues (fold apply_call cs b)
    \<longleftrightarrow> (queue, args) \<in> br_queues b \<or> (\<exists>durable. AssertQueue queue durable args \<in> set cs)"
proof (induction cs arbitrary: b)
  case (Cons c cs)
  have "(queue, args) \<in> br_queues (apply_call c b) \<longleftrightarrow> (queue, args) \<in> br_queues b \<or> (\<exists>durable. c = AssertQueue queue durable args)"
    by (cases c) auto
  with Cons.IH show ?case by auto
qed simp

lemma fold_apply_bindings: "(queue, ex, key) \<in> br_bindings (fold apply_call cs b)
    \<longleftrightarrow> (queue, ex, key) \<in> br_bindings b \<or> BindQueue queue ex key \<in> set cs"
proof (induction cs arbitrary: b)
  case (Cons c cs)
  have "(queue, ex, key) \<in> br_bindings (apply_call c b) \<longleftrightarrow> (queue, ex, key) \<in> br_bindings b \<or> c = BindQueue queue ex key"
    by (cases c) auto
  with Cons.IH show ?case by auto
qed simp

lemma declared_bindings: "(queue, x, key) \<in> br_bindings (declared ex) \<longleftrightarrow>
    (\<exists>q \<in> set COMMERCE_TOPOLOGY. queue = queueName q \<and> x = ex \<and> key \<in> set (routingKeys q)
      \<or> queue = deadLetterQueueName (queueName q) \<and> x = deadLetterExchangeName ex \<and> key = deadLetterRoutingKey (queueName q))"
  by (auto simp: declared_def fold_apply_bindings empty_broker_def connection_calls_def queue_calls_def)

lemma declared_queues:
  assumes "q \<in> set COMMERCE_TOPOLOGY"
  shows "(queueName q, queue_args ex (queueName q)) \<in> br_queues (declared ex)"
    "(deadLetterQueueName (queueName q), []) \<in> br_queues (declared ex)"
  using assms by (auto simp: declared_def fold_apply_queues connection_calls_def queue_calls_def)

lemma declared_routes: "routed_to (declared ex) ex (getRoutingKey t) = set (consumer_queues t)"
proof -
  have "routed_to (declared ex) ex (getRoutingKey t) = {queueName q | q. q \<in> set COMMERCE_TOPOLOGY \<and> getRoutingKey t \<in> set (routingKeys q)}"
    by (auto simp: routed_to_def declared_bindings deadLetterExchangeName_def)
  also have "\<dots> = set (queues_of_key (getRoutingKey t))" by (auto simp: queues_of_key_def)
  also have "queues_of_key (getRoutingKey t) = consumer_queues t"
    by (cases t) (simp_all add: queues_of_key_def getRoutingKey_def COMMERCE_TOPOLOGY_def queue_defs)
  finally show ?thesis .
qed

lemma declared_dead_letters:
  assumes "q \<in> set COMMERCE_TOPOLOGY"
  shows "routed_to (declared ex) (deadLetterExchangeName ex) (deadLetterRoutingKey (queueName q)) = {deadLetterQueueName (queueName q)}"
  using assms
  by (auto simp: routed_to_def declared_bindings deadLetterExchangeName_def deadLetterRoutingKey_def deadLetterQueueName_def)

text \<open>
  C25: a client that has connected with the program's topology has provided for every event. The
  last calls it made declare the topology; in whatever state the broker was before, every event
  type is then routed to the queues of all its consumers (and on a fresh broker to exactly those,
  never to none), and every consumer queue dead-letters to a queue of its own that exists.
\<close>

theorem connected_topology_reaches_consumers:
  assumes "connectWithRetry num_text w opts ex COMMERCE_TOPOLOGY c = (Inr (), c')" "cl_channel c = None"
  shows "\<exists>earlier calls. cl_calls c' = earlier @ calls \<and> calls = connection_calls ex COMMERCE_TOPOLOGY
    \<and> (\<forall>t. set (consumer_queues t) \<subseteq> routed_to (fold apply_call calls b) ex (getRoutingKey t)
          \<and> routed_to (fold apply_call calls empty_broker) ex (getRoutingKey t) = set (consumer_queues t)
          \<and> consumer_queues t \<noteq> [])
    \<and> list_all (\<lambda>q. (queueName q, queue_args ex (queueName q)) \<in> br_queues (fold apply_call calls b)
          \<and> (deadLetterQueueName (queueName q), []) \<in> br_queues (fold apply_call calls b)
          \<and> deadLetterQueueName (queueName q)
              \<in> routed_to (fold apply_call calls b) (deadLetterExchangeName ex) (deadLetterRoutingKey (queueName q))
          \<and> routed_to (fold apply_call calls empty_broker) (deadLetterExchangeName ex) (deadLetterRoutingKey (queueName q))
              = {deadLetterQueueName (queueName q)}) COMMERCE_TOPOLOGY"
proof -
  obtain c1 where "connect_attempts num_text w opts ex COMMERCE_TOPOLOGY (ThrownValue JUndefined)
      (nat (option_value ro_maxConnectionRetries opts)) c1 = (Inr (), c')"
    using assms by (auto simp: connectWithRetry_def io_bind_def throwIfAborted_def split: if_splits prod.splits sum.splits)
  then obtain earlier where calls: "cl_calls c' = earlier @ connection_calls ex COMMERCE_TOPOLOGY"
    by (rule connect_attempts_calls)
  have "broker_le empty_broker b" by (simp add: broker_le_def empty_broker_def)
  from fold_apply_mono [OF this] have le: "broker_le (declared ex) (fold apply_call (connection_calls ex COMMERCE_TOPOLOGY) b)"
    by (simp add: declared_def)
  have "set (consumer_queues t) \<subseteq> routed_to (fold apply_call (connection_calls ex COMMERCE_TOPOLOGY) b) ex (getRoutingKey t)" for t
    using le declared_routes [of ex t] by (auto simp: broker_le_def routed_to_def)
  moreover have "consumer_queues t \<noteq> []" for t by (cases t) simp_all
  moreover have "(queueName q, queue_args ex (queueName q)) \<in> br_queues (fold apply_call (connection_calls ex COMMERCE_TOPOLOGY) b)
      \<and> (deadLetterQueueName (queueName q), []) \<in> br_queues (fold apply_call (connection_calls ex COMMERCE_TOPOLOGY) b)
      \<and> deadLetterQueueName (queueName q) \<in> routed_to (fold apply_call (connection_calls ex COMMERCE_TOPOLOGY) b)
          (deadLetterExchangeName ex) (deadLetterRoutingKey (queueName q))" if "q \<in> set COMMERCE_TOPOLOGY" for q
    using le declared_queues [OF that, of ex] declared_dead_letters [OF that, of ex] by (auto simp: broker_le_def routed_to_def)
  ultimately show ?thesis
    using declared_routes declared_dead_letters
    by (intro exI [of _ earlier] exI [of _ "connection_calls ex COMMERCE_TOPOLOGY"] conjI calls refl allI)
      (auto simp: list_all_iff simp flip: declared_def)
qed

section \<open>Witness\<close>

text \<open>
  The first connection drops while its channel is opened; the second attempt succeeds.
\<close>

definition sample_world :: world where
  "sample_world = \<lparr>wo_call = (\<lambda>n. if n = 1 then ConnectionDropped (JsError ''gone'') else Answered),
     wo_aborted = (\<lambda>n. False), wo_tag = (\<lambda>n. ''tag'')\<rparr>"

text \<open>After the drop every call is answered.\<close>

definition late :: "RabbitMqClient \<Rightarrow> bool" where
  "late c = (1 < length (cl_calls c))"

lemma late_simps [simp]:
  "late c \<Longrightarrow> late (c \<lparr>cl_calls := cl_calls c @ bs\<rparr>)" "late (c \<lparr>cl_connection := x\<rparr>) = late c"
  "late (c \<lparr>cl_channel := y\<rparr>) = late c" "late (c \<lparr>cl_open := l\<rparr>) = late c" "late (c \<lparr>cl_logs := g\<rparr>) = late c"
  by (simp_all add: late_def)

lemma call_sample:
  "call sample_world ex b c =
     (let c' = c \<lparr>cl_calls := cl_calls c @ [b]\<rparr> in if length (cl_calls c) = 1 then (Inl (JsError ''gone''), on_connection_close ex c')
      else (Inr (length (cl_calls c)), c'))"
  by (simp add: call_def sample_world_def Let_def)

lemma answered_call:
  assumes "late c"
  shows "call sample_world ex b c = (Inr (length (cl_calls c)), c \<lparr>cl_calls := cl_calls c @ [b]\<rparr>)"
    "call_checked sample_world ex b c = (Inr (), c \<lparr>cl_calls := cl_calls c @ [b]\<rparr>)"
  using assms
  by (simp_all add: late_def call_checked_def call_def io_bind_def throwIfAborted_def signal_aborted_def sample_world_def)

lemma never_aborted: "throwIfAborted sample_world c = (Inr (), c)" "signal_aborted sample_world c = False"
  by (simp_all add: throwIfAborted_def signal_aborted_def sample_world_def)

lemma answered_binds:
  assumes "late c"
  shows "io_forEach (\<lambda>key. call_checked sample_world ex (BindQueue queue ex key)) ks c
    = (Inr (), c \<lparr>cl_calls := cl_calls c @ map (BindQueue queue ex) ks\<rparr>)"
  using assms by (induction ks arbitrary: c) (simp_all add: io_bind_def answered_call)

lemma answered_declare:
  assumes "late c"
  shows "declareQueue sample_world ex q c = (Inr (), c \<lparr>cl_calls := cl_calls c @ queue_calls ex q\<rparr>)"
proof -
  define s where "s = (\<lambda>n. c \<lparr>cl_calls := cl_calls c @ take n (queue_calls ex q)\<rparr>)"
  have step: "call_checked sample_world ex b (s n) = (Inr (), s (Suc n))" if "n < 4" "queue_calls ex q ! n = b" for n b
  proof -
    have "4 \<le> length (queue_calls ex q)" by (simp add: queue_calls_def)
    with that have "take (Suc n) (queue_calls ex q) = take n (queue_calls ex q) @ [b]" by (simp add: take_Suc_conv_app_nth)
    with assms show ?thesis by (simp add: s_def answered_call)
  qed
  have "declareQueue sample_world ex q (s 0) = io_forEach (\<lambda>key. call_checked sample_world ex (BindQueue (queueName q) ex key)) (routingKeys q) (s 4)"
    by (simp add: declareQueue_def Let_def io_bind_def step queue_calls_def queue_args_def eval_nat_numeral)
  also have "\<dots> = (Inr (), c \<lparr>cl_calls := cl_calls c @ queue_calls ex q\<rparr>)"
    using assms by (simp add: s_def answered_binds queue_calls_def)
  finally show ?thesis by (simp add: s_def)
qed

lemma answered_declarations:
  assumes "late c"
  shows "io_forEach (declareQueue sample_world ex) qs c = (Inr (), c \<lparr>cl_calls := cl_calls c @ concat (map (queue_calls ex) qs)\<rparr>)"
  using assms by (induction qs arbitrary: c) (simp_all add: io_bind_def answered_declare)

lemma sample_connect:
  obtains c' where "connectWithRetry (\<lambda>r. ''n'') sample_world default_options ''commerce.events'' COMMERCE_TOPOLOGY new_client = (Inr (), c')"
    "cl_calls c' = [OpenConnection, OpenChannel, Sleep 2000] @ connection_calls ''commerce.events'' COMMERCE_TOPOLOGY"
proof -
  let ?ex = "''commerce.events''"
  have first: "open_client sample_world ?ex COMMERCE_TOPOLOGY new_client = (Inl (JsError ''gone''),
    \<lparr>cl_connection = None, cl_channel = None, cl_consumers = [], cl_calls = [OpenConnection, OpenChannel], cl_open = [],
     cl_logs = [LogWarn ''RabbitMQ connection closed'' [(''exchangeName'', JStr ?ex)]]\<rparr>)"
    by (simp add: open_client_def new_client_def io_bind_def modify_def set_connection_def never_aborted call_sample
        on_connection_close_def)
  obtain k where ten: "nat (option_value ro_maxConnectionRetries default_options) = Suc (Suc k)" and k: "int k = 8"
    by (rule that [of 8]) (simp_all add: option_value_def default_options_def)
  define c2 where "c2 = \<lparr>cl_connection = None, cl_channel = None, cl_consumers = [], cl_calls = [OpenConnection, OpenChannel, Sleep 2000],
    cl_open = [], cl_logs = [LogWarn ''RabbitMQ connection closed'' [(''exchangeName'', JStr ?ex)],
      attempt_failed_log (\<lambda>r. ''n'') 1 10 (JsError ''gone'')]\<rparr>"
  have most: "option_value ro_maxConnectionRetries default_options = 10" "option_value ro_retryDelayInMs default_options = 2000"
    by (simp_all add: option_value_def default_options_def)
  have second: "connectWithRetry (\<lambda>r. ''n'') sample_world default_options ?ex COMMERCE_TOPOLOGY new_client
      = connect_attempts (\<lambda>r. ''n'') sample_world default_options ?ex COMMERCE_TOPOLOGY (ThrownError (JsError ''gone'')) (Suc k) c2"
    unfolding connectWithRetry_def ten
    by (simp add: connect_attempts.simps(2) [where left = "Suc k"] io_bind_def never_aborted first closeResources_def client_log_def
        note_call_effect most k c2_def new_client_def Let_def first [unfolded new_client_def] del: connect_attempts.simps)
  obtain c' where c': "open_client sample_world ?ex COMMERCE_TOPOLOGY c2 = (Inr (), c')"
    "cl_calls c' = cl_calls c2 @ connection_calls ?ex COMMERCE_TOPOLOGY"
    by (simp add: c2_def open_client_def io_bind_def modify_def set_connection_def never_aborted call_sample call_checked_def
        answered_declarations late_def client_log_def connection_calls_def)
  then have "connectWithRetry (\<lambda>r. ''n'') sample_world default_options ?ex COMMERCE_TOPOLOGY new_client = (Inr (), c')"
    unfolding second by (simp add: io_bind_def never_aborted Let_def)
  with c'(2) show ?thesis by (intro that) (simp_all add: c2_def)
qed

theorem connect_leaves_nothing_open_witness:
  "\<exists>c'. connectWithRetry (\<lambda>r. ''n'') sample_world default_options ''commerce.events'' COMMERCE_TOPOLOGY new_client = (Inr (), c')
    \<and> connections_opened c' \<le> 10 \<and> no_leak c' \<and> client_ready c'"
proof -
  obtain c' where c': "connectWithRetry (\<lambda>r. ''n'') sample_world default_options ''commerce.events'' COMMERCE_TOPOLOGY new_client = (Inr (), c')"
    by (rule sample_connect)
  have "no_leak new_client" "cl_channel new_client = None" "connections_opened new_client = 0"
    by (simp_all add: new_client_def no_leak_def connections_opened_def)
  with connect_leaves_nothing_open [OF _ _ c'] c' show ?thesis by (auto simp: option_value_def default_options_def)
qed

theorem connected_topology_reaches_consumers_witness:
  "\<exists>c' earlier calls. connectWithRetry (\<lambda>r. ''n'') sample_world default_options ''commerce.events'' COMMERCE_TOPOLOGY new_client = (Inr (), c')
    \<and> cl_calls c' = earlier @ calls
    \<and> ''payment-service.order-created'' \<in> routed_to (fold apply_call calls empty_broker) ''commerce.events'' (getRoutingKey OrderCreated)"
proof -
  obtain c' where c': "connectWithRetry (\<lambda>r. ''n'') sample_world default_options ''commerce.events'' COMMERCE_TOPOLOGY new_client = (Inr (), c')"
    by (rule sample_connect)
  from connected_topology_reaches_consumers [OF c', of empty_broker] obtain earlier calls where "cl_calls c' = earlier @ calls"
    "routed_to (fold apply_call calls empty_broker) ''commerce.events'' (getRoutingKey OrderCreated) = set (consumer_queues OrderCreated)"
    by (auto simp: new_client_def)
  with c' show ?thesis by auto
qed

end
