(* ===== verification/RabbitMqSupervisor.thy ===== *)
theory RabbitMqSupervisor
  imports MessageErrors
begin

text \<open>
  shared/messaging/src/rabbitMqSupervisor.ts: the loop that keeps a client connected and its queue
  subscribed, as a transition system with the client it watches. The composition roots give it
  \<open>initialize = subscribe\<close>; a service that also publishes does so over the same client, whose
  \<open>publish\<close> connects when there is no channel.
\<close>

section \<open>The supervisor\<close>

record SupervisorOptions =
  so_retryDelayInMs :: "int option"
  so_readyCheckIntervalInMs :: "int option"

definition retryDelay :: "SupervisorOptions \<Rightarrow> int" where
  "retryDelay opts = (case so_retryDelayInMs opts of Some n \<Rightarrow> n | None \<Rightarrow> 2000)"

definition readyCheckInterval :: "SupervisorOptions \<Rightarrow> int" where
  "readyCheckInterval opts = (case so_readyCheckIntervalInMs opts of Some n \<Rightarrow> n | None \<Rightarrow> 1000)"

text \<open>Where \<open>run\<close> is: at the head of the loop, awaiting \<open>initialize\<close> or a delay, or done.\<close>

datatype supervisor_phase = LoopHead | Initializing | Delaying int | Stopped

text \<open>
  \<open>sv_channel\<close> is the client's current channel (it is ready when it has one) and \<open>sv_consumer\<close> the
  channel on which the queue was last subscribed; channels are numbered as they are opened.
\<close>

record supervisor =
  sv_phase :: supervisor_phase
  sv_initialized :: bool
  sv_aborted :: bool
  sv_channel :: "nat option"
  sv_consumer :: "nat option"
  sv_opened :: nat
  sv_logs :: "log_call list"

definition new_supervisor :: supervisor where
  "new_supervisor = \<lparr>sv_phase = LoopHead, sv_initialized = False, sv_aborted = False, sv_channel = None,
     sv_consumer = None, sv_opened = 0, sv_logs = []\<rparr>"

definition supervisor_ready :: "supervisor \<Rightarrow> bool" where
  "supervisor_ready s = (sv_initialized s \<and> sv_channel s \<noteq> None)"

text \<open>From the head of the loop to its first await.\<close>

definition supervisor_loop :: "SupervisorOptions \<Rightarrow> supervisor \<Rightarrow> supervisor" where
  "supervisor_loop opts s =
     (if sv_aborted s then s \<lparr>sv_phase := Stopped\<rparr>
      else if supervisor_ready s then s \<lparr>sv_phase := Delaying (readyCheckInterval opts)\<rparr>
      else s \<lparr>sv_initialized := False, sv_phase := Initializing\<rparr>)"

text \<open>From the end of \<open>initialize\<close> to the next await.\<close>

definition supervisor_initialized :: "SupervisorOptions \<Rightarrow> js_error option \<Rightarrow> supervisor \<Rightarrow> supervisor" where
  "supervisor_initialized opts result s =
     (if sv_aborted s then s \<lparr>sv_phase := Stopped\<rparr>
      else let s' = (case result of
             None \<Rightarrow> s \<lparr>sv_initialized := sv_channel s \<noteq> None\<rparr>
           | Some e \<Rightarrow> s \<lparr>sv_logs := sv_logs s @ [LogError ''RabbitMQ dependency initialization failed'' e []]\<rparr>)
         in s' \<lparr>sv_phase := Delaying (if supervisor_ready s' then readyCheckInterval opts else retryDelay opts)\<rparr>)"

section \<open>With the client\<close>

text \<open>\<open>connect\<close> opens a channel if there is none.\<close>

definition client_connect :: "supervisor \<Rightarrow> supervisor" where
  "client_connect s = (if sv_channel s \<noteq> None then s
     else s \<lparr>sv_channel := Some (sv_opened s), sv_opened := sv_opened s + 1\<rparr>)"

text \<open>\<open>subscribe\<close>: connect, then consume on the client's channel.\<close>

definition client_subscribe :: "supervisor \<Rightarrow> supervisor" where
  "client_subscribe s = (let s' = client_connect s in s' \<lparr>sv_consumer := sv_channel s'\<rparr>)"

definition client_drop :: "supervisor \<Rightarrow> supervisor" where
  "client_drop s = s \<lparr>sv_channel := None\<rparr>"

text \<open>
  The steps of a service, by whether it publishes. A subscription succeeds (and the channel may
  drop before the supervisor looks at it) or fails with any effect on the channel but a consumer;
  the channel drops at any time.
\<close>

inductive service_step :: "SupervisorOptions \<Rightarrow> bool \<Rightarrow> supervisor \<Rightarrow> supervisor \<Rightarrow> bool" for opts publishes where
  turn: "sv_phase s = LoopHead \<Longrightarrow> service_step opts publishes s (supervisor_loop opts s)"
| subscribed: "sv_phase s = Initializing
    \<Longrightarrow> service_step opts publishes s (supervisor_initialized opts None (client_subscribe s))"
| subscribed_dropped: "sv_phase s = Initializing
    \<Longrightarrow> service_step opts publishes s (supervisor_initialized opts None (client_drop (client_subscribe s)))"
| not_subscribed: "\<lbrakk>sv_phase s = Initializing; s' \<in> {s, client_connect s, client_drop s}\<rbrakk>
    \<Longrightarrow> service_step opts publishes s (supervisor_initialized opts (Some e) s')"
| delay_over: "sv_phase s = Delaying ms \<Longrightarrow> service_step opts publishes s (s \<lparr>sv_phase := LoopHead\<rparr>)"
| publisher_connects: "publishes \<Longrightarrow> service_step opts publishes s (client_connect s)"
| drops: "service_step opts publishes s (client_drop s)"
| aborts: "service_step opts publishes s (s \<lparr>sv_aborted := True\<rparr>)"

inductive service_reachable :: "SupervisorOptions \<Rightarrow> bool \<Rightarrow> supervisor \<Rightarrow> bool" for opts publishes where
  start: "service_reachable opts publishes new_supervisor"
| further: "\<lbrakk>service_reachable opts publishes s; service_step opts publishes s s'\<rbrakk>
    \<Longrightarrow> service_reachable opts publishes s'"

lemmas supervisor_defs = supervisor_loop_def supervisor_initialized_def client_connect_def client_subscribe_def
  client_drop_def supervisor_ready_def new_supervisor_def

definition consuming :: "supervisor \<Rightarrow> bool" where
  "consuming s = (sv_channel s \<noteq> None \<and> sv_consumer s = sv_channel s)"

text \<open>
  Without a publisher a channel is only opened by a subscription attempt, which leaves the
  supervisor uninitialized unless the queue is consumed on that channel.
\<close>

definition service_ok :: "SupervisorOptions \<Rightarrow> supervisor \<Rightarrow> bool" where
  "service_ok opts s \<longleftrightarrow> (supervisor_ready s \<longrightarrow> consuming s) \<and> (sv_phase s = Initializing \<longrightarrow> \<not> sv_initialized s)
     \<and> (sv_phase s = Stopped \<longrightarrow> sv_aborted s)
     \<and> (\<forall>ms. sv_phase s = Delaying ms \<longrightarrow> ms \<in> {retryDelay opts, readyCheckInterval opts})"

lemma service_step_ok: "service_step opts False s s' \<Longrightarrow> service_ok opts s \<Longrightarrow> service_ok opts s'"
  by (induction rule: service_step.induct)
    (auto simp: service_ok_def supervisor_defs consuming_def Let_def split: option.splits if_splits)

text \<open>
  C27: in a service that does not publish, the supervisor's word can be trusted. In every reachable
  state, if it is ready then the queue is consumed on the client's current channel; while it
  initializes it is not ready; it never sleeps longer than its two delays and stops only when
  aborted; and whenever its loop comes around without the queue being consumed it subscribes
  again.
\<close>

theorem ready_means_consuming:
  assumes "service_reachable opts False s"
  shows "(supervisor_ready s \<longrightarrow> consuming s) \<and> (sv_phase s = Initializing \<longrightarrow> \<not> supervisor_ready s)
    \<and> (sv_phase s = Stopped \<longrightarrow> sv_aborted s)
    \<and> (\<forall>ms. sv_phase s = Delaying ms \<longrightarrow> ms \<in> {retryDelay opts, readyCheckInterval opts})
    \<and> (sv_phase s = LoopHead \<and> \<not> sv_aborted s \<and> \<not> consuming s \<longrightarrow> sv_phase (supervisor_loop opts s) = Initializing)"
proof -
  from assms have "service_ok opts s"
  proof (induction rule: service_reachable.induct)
    case start
    show ?case by (simp add: service_ok_def new_supervisor_def supervisor_ready_def)
  next
    case (further s s')
    then show ?case by (blast intro: service_step_ok)
  qed
  then show ?thesis by (auto simp: service_ok_def supervisor_loop_def supervisor_ready_def)
qed

section \<open>A publisher that reconnects hides a lost consumer\<close>

text \<open>What follows while the channel stays up and nothing is aborted.\<close>

definition undisturbed_step :: "SupervisorOptions \<Rightarrow> supervisor \<Rightarrow> supervisor \<Rightarrow> bool" where
  "undisturbed_step opts s s' = (service_step opts True s s' \<and> sv_channel s' = sv_channel s \<and> sv_aborted s' = sv_aborted s)"

definition never_consumed_again :: "SupervisorOptions \<Rightarrow> supervisor \<Rightarrow> bool" where
  "never_consumed_again opts s \<longleftrightarrow>
     (\<forall>s'. (undisturbed_step opts)\<^sup>*\<^sup>* s s' \<longrightarrow> supervisor_ready s' \<and> \<not> consuming s')"

definition orphaned :: "supervisor \<Rightarrow> bool" where
  "orphaned s \<longleftrightarrow> sv_initialized s \<and> \<not> sv_aborted s \<and> sv_channel s \<noteq> None \<and> sv_consumer s \<noteq> sv_channel s
     \<and> sv_phase s \<noteq> Initializing"

lemma orphaned_step:
  assumes "orphaned s" "undisturbed_step opts s s'"
  shows "orphaned s'"
proof -
  from assms(2) have step: "service_step opts True s s'" and same: "sv_channel s' = sv_channel s" "sv_aborted s' = sv_aborted s"
    by (simp_all add: undisturbed_step_def)
  from step show ?thesis
    by (cases rule: service_step.cases) (use assms(1) same in \<open>auto simp: orphaned_def supervisor_defs\<close>)
qed

lemma orphaned_never_consumed: "orphaned s \<Longrightarrow> never_consumed_again opts s"
  unfolding never_consumed_again_def
proof (intro allI impI)
  fix s'
  assume "orphaned s" "(undisturbed_step opts)\<^sup>*\<^sup>* s s'"
  from this(2,1) have "orphaned s'" by (induction rule: rtranclp_induct) (auto intro: orphaned_step)
  then show "supervisor_ready s' \<and> \<not> consuming s'" by (simp add: orphaned_def supervisor_ready_def consuming_def)
qed

text \<open>
  C28: in a service that publishes over the supervised client the same is not true. The channel can
  drop and the next publication reconnect before the supervisor's next check: then the supervisor
  is ready and nothing consumes the queue, and it stays so for as long as the new channel lives.
\<close>

theorem publisher_reconnect_loses_consumer:
  "\<exists>s. service_reachable opts True s \<and> supervisor_ready s \<and> \<not> consuming s \<and> never_consumed_again opts s"
proof -
  let ?s1 = "supervisor_loop opts new_supervisor"
  let ?s2 = "supervisor_initialized opts None (client_subscribe ?s1)"
  let ?s3 = "client_connect (client_drop ?s2)"
  have "service_step opts True new_supervisor ?s1" by (rule service_step.turn) (simp add: new_supervisor_def)
  moreover have "service_step opts True ?s1 ?s2" by (rule service_step.subscribed) (simp add: supervisor_defs)
  moreover have "service_step opts True ?s2 (client_drop ?s2)" by (rule service_step.drops)
  moreover have "service_step opts True (client_drop ?s2) ?s3" by (rule service_step.publisher_connects) simp
  ultimately have "service_reachable opts True ?s3" by (metis service_reachable.intros)
  moreover have "orphaned ?s3" by (simp add: orphaned_def supervisor_defs Let_def)
  ultimately show ?thesis using orphaned_never_consumed [of ?s3 opts]
    by (intro exI [of _ ?s3]) (simp add: orphaned_def supervisor_ready_def consuming_def)
qed

text \<open>A consumer that was subscribed, lost its channel and was subscribed again.\<close>

definition sample_supervisor :: supervisor where
  "sample_supervisor = \<lparr>sv_phase = Delaying 1000, sv_initialized = True, sv_aborted = False, sv_channel = Some 1,
     sv_consumer = Some 1, sv_opened = 2, sv_logs = []\<rparr>"

lemma sample_service: "service_reachable \<lparr>so_retryDelayInMs = None, so_readyCheckIntervalInMs = None\<rparr> False sample_supervisor"
proof -
  let ?o = "\<lparr>so_retryDelayInMs = None, so_readyCheckIntervalInMs = None\<rparr>"
  let ?s1 = "supervisor_loop ?o new_supervisor"
  let ?s2 = "supervisor_initialized ?o None (client_subscribe ?s1)"
  let ?s3 = "client_drop ?s2 \<lparr>sv_phase := LoopHead\<rparr>"
  let ?s4 = "supervisor_loop ?o ?s3"
  have "service_step ?o False new_supervisor ?s1" by (rule service_step.turn) (simp add: new_supervisor_def)
  moreover have "service_step ?o False ?s1 ?s2" by (rule service_step.subscribed) (simp add: supervisor_defs)
  moreover have "service_step ?o False ?s2 (client_drop ?s2)" by (rule service_step.drops)
  moreover have "service_step ?o False (client_drop ?s2) ?s3"
    by (rule service_step.delay_over [where ms = 1000]) (simp add: supervisor_defs readyCheckInterval_def)
  moreover have "service_step ?o False ?s3 ?s4" by (rule service_step.turn) simp
  moreover have "service_step ?o False ?s4 (supervisor_initialized ?o None (client_subscribe ?s4))"
    by (rule service_step.subscribed) (simp add: supervisor_defs)
  ultimately have "service_reachable ?o False (supervisor_initialized ?o None (client_subscribe ?s4))"
    by (metis service_reachable.intros)
  then show ?thesis by (simp add: supervisor_defs sample_supervisor_def readyCheckInterval_def Let_def numeral_2_eq_2)
qed

theorem ready_means_consuming_witness: "supervisor_ready sample_supervisor \<and> consuming sample_supervisor"
  using ready_means_consuming [OF sample_service] by (simp add: supervisor_ready_def sample_supervisor_def)

end
