(* ===== verification/Payment.thy ===== *)
theory Payment
  imports Identifiers Schemas MessageErrors Http
begin

text \<open>
  services/payment-service/src: the simulated authorization, its message handler and the Payment
  app. SHA-1 is a parameter (Identifiers), as is the publisher the handler is given.
\<close>

section \<open>Publishing handlers\<close>

text \<open>What a handler that publishes leaves: whether it threw, what it logged, and the state.\<close>

record 's publishing_result =
  pb_error :: "js_error option"
  pb_logs :: "log_call list"
  pb_state :: 's

section \<open>PaymentService\<close>

text \<open>\<open>generateId\<close> overrides the derived ids; its k-th answer within the call is an argument.\<close>

definition payment_createId :: "(string \<Rightarrow> 8 word list) \<Rightarrow> string option \<Rightarrow> string \<Rightarrow> string \<Rightarrow> string" where
  "payment_createId sha1 generated namespace key =
     (case generated of Some i \<Rightarrow> i | None \<Rightarrow> deriveDeterministicId sha1 (''payment-service.'' @ namespace) [key])"

definition authorizePayment ::
    "(string \<Rightarrow> 8 word list) \<Rightarrow> (nat \<Rightarrow> string option) \<Rightarrow> OrderCreatedEvent \<Rightarrow> PaymentAuthorizedEvent" where
  "authorizePayment sha1 generateId sourceEvent =
     \<lparr>eventId = payment_createId sha1 (generateId 0) ''payment-authorized-event'' (eventId sourceEvent),
      eventType = PaymentAuthorized, occurredAt = occurredAt sourceEvent, correlationId = correlationId sourceEvent,
      event_data = \<lparr>pa_orderId = oc_orderId (event_data sourceEvent),
        pa_paymentId = payment_createId sha1 (generateId 1) ''payment'' (oc_orderId (event_data sourceEvent)),
        pa_amount = oc_totalAmount (event_data sourceEvent), pa_items = oc_items (event_data sourceEvent)\<rparr>\<rparr>"

text \<open>The Payment Service runs without an override.\<close>

definition no_override :: "nat \<Rightarrow> string option" where
  "no_override k = None"

section \<open>The handler\<close>

definition order_received_log :: "OrderCreatedEvent \<Rightarrow> log_call" where
  "order_received_log e = LogInfo ''Received OrderCreated''
     [(''eventId'', JStr (eventId e)), (''orderId'', JStr (oc_orderId (event_data e))),
      (''correlationId'', JStr (correlationId e)), (''totalAmount'', JNum (oc_totalAmount (event_data e))),
      (''itemCount'', int_js (int (length (oc_items (event_data e)))))]"

definition authorized_log :: "PaymentAuthorizedEvent \<Rightarrow> log_call" where
  "authorized_log p = LogInfo ''Authorized payment''
     [(''eventId'', JStr (eventId p)), (''orderId'', JStr (pa_orderId (event_data p))),
      (''paymentId'', JStr (pa_paymentId (event_data p))), (''correlationId'', JStr (correlationId p)),
      (''amount'', JNum (pa_amount (event_data p)))]"

definition orderCreatedHandler ::
    "(OrderCreatedEvent \<Rightarrow> PaymentAuthorizedEvent) \<Rightarrow> (PaymentAuthorizedEvent \<Rightarrow> ('s, unit) io) \<Rightarrow> OrderCreatedEvent
      \<Rightarrow> 's \<Rightarrow> 's publishing_result" where
  "orderCreatedHandler authorize publishPaymentAuthorized event s =
     (let paymentAuthorizedEvent = authorize event
      in case publishPaymentAuthorized paymentAuthorizedEvent s of
           (Inl e, s') \<Rightarrow> \<lparr>pb_error = Some e, pb_logs = [order_received_log event], pb_state = s'\<rparr>
         | (Inr _, s') \<Rightarrow> \<lparr>pb_error = None, pb_logs = [order_received_log event, authorized_log paymentAuthorizedEvent],
             pb_state = s'\<rparr>)"

section \<open>The app\<close>

definition payment_health :: HttpResponse where
  "payment_health = health_response ''payment-service''"

definition payment_ready :: "bool \<Rightarrow> HttpResponse" where
  "payment_ready rabbitMqReady = broker_ready_response ''payment-service'' rabbitMqReady"

section \<open>Facts\<close>

lemma derived_id_valid:
  assumes "length (sha1 (id_text namespace parts)) = 20"
  shows "valid_identifier (deriveDeterministicId sha1 namespace parts)"
  by (rule derived_id_string [of sha1 namespace parts], rule assms) (simp add: valid_identifier_def hex_byte_def)

lemma authorizePayment_valid:
  assumes "\<And>s. length (sha1 s) = 20" "valid_OrderCreated z e"
  shows "valid_PaymentAuthorized z (authorizePayment sha1 no_override e)"
  using assms
  by (simp add: authorizePayment_def no_override_def payment_createId_def valid_defs derived_id_valid)

end
