(* ===== verification/Calendar.thy ===== *)
theory Calendar
  imports JsValue
begin

text \<open>
  The part of JavaScript's \<open>Date\<close> that the program uses, in UTC: a time value is a number of
  milliseconds since 1970, a date is a day of the proleptic Gregorian calendar.
\<close>

section \<open>Days and dates\<close>

definition ms_per_day :: int where "ms_per_day = 86400000"

text \<open>
  Years are counted from March, so that a leap day ends its year. A day of the 400-year cycle is
  split into centuries, four-year groups, years and the day of the year; the last day of a leap
  century or of a leap year belongs to the last part of its group.
\<close>

definition civil_of_days :: "int \<Rightarrow> int \<times> int \<times> int" where
  "civil_of_days days =
     (let z = days + 719468; era = z div 146097; doe = z mod 146097;
          c = min 3 (doe div 36524); doc = doe - c * 36524;
          q = doc div 1461; doq = doc - q * 1461;
          y = min 3 (doq div 365); doy = doq - y * 365;
          mp = (5 * doy + 2) div 153;
          d = doy - (153 * mp + 2) div 5 + 1;
          m = (if mp < 10 then mp + 3 else mp - 9);
          year = 400 * era + 100 * c + 4 * q + y + (if m \<le> 2 then 1 else 0)
      in (year, m, d))"

definition days_of_civil :: "int \<times> int \<times> int \<Rightarrow> int" where
  "days_of_civil = (\<lambda>(year, m, d).
     (let y = (if m \<le> 2 then year - 1 else year); era = y div 400; yoe = y mod 400;
          doy = (153 * ((m + 9) mod 12) + 2) div 5 + d - 1
      in era * 146097 + yoe * 365 + yoe div 4 - yoe div 100 + doy - 719468))"

lemma day_of_year_parts:
  fixes doy :: int
  assumes "0 \<le> doy" "doy \<le> 365"
  shows "0 \<le> (5 * doy + 2) div 153 \<and> (5 * doy + 2) div 153 \<le> 11
    \<and> 0 \<le> doy - (153 * ((5 * doy + 2) div 153) + 2) div 5 \<and> doy - (153 * ((5 * doy + 2) div 153) + 2) div 5 \<le> 30"
proof -
  define mp where "mp = (5 * doy + 2) div 153"
  have b: "153 * mp \<le> 5 * doy + 2" "5 * doy + 2 < 153 * mp + 153" unfolding mp_def by linarith+
  then have "0 \<le> mp" "mp \<le> 11" using assms by linarith+
  moreover have "0 \<le> doy - (153 * mp + 2) div 5" "doy - (153 * mp + 2) div 5 \<le> 30"
  proof -
    have "5 * ((153 * mp + 2) div 5) \<le> 153 * mp + 2" "153 * mp + 2 < 5 * ((153 * mp + 2) div 5) + 5" by linarith+
    with b show "0 \<le> doy - (153 * mp + 2) div 5" "doy - (153 * mp + 2) div 5 \<le> 30" by linarith+
  qed
  ultimately show ?thesis by (simp add: mp_def)
qed

text \<open>The calendar counts every day once: a date's day number leads back to the day.\<close>

lemma days_of_civil_of_days: "days_of_civil (civil_of_days days) = days"
  and civil_of_days_range: "civil_of_days days = (year, m, d) \<Longrightarrow> 1 \<le> m \<and> m \<le> 12 \<and> 1 \<le> d \<and> d \<le> 31"
proof -
  define z where "z = days + 719468"
  define era where "era = z div 146097"
  define doe where "doe = z mod 146097"
  define c where "c = min 3 (doe div 36524)"
  define doc where "doc = doe - c * 36524"
  define q where "q = doc div 1461"
  define doq where "doq = doc - q * 1461"
  define y where "y = min 3 (doq div 365)"
  define doy where "doy = doq - y * 365"
  define mp where "mp = (5 * doy + 2) div 153"
  define m' where "m' = (if mp < 10 then mp + 3 else mp - 9)"
  note defs = z_def era_def doe_def c_def doc_def q_def doq_def y_def doy_def mp_def m'_def
  have doe: "0 \<le> doe" "doe < 146097" by (simp_all add: doe_def)
  then have c: "0 \<le> c" "c \<le> 3" "0 \<le> doc" "doc \<le> 36524" unfolding doc_def c_def by linarith+
  then have q: "0 \<le> q" "q \<le> 24" "0 \<le> doq" "doq \<le> 1460" unfolding doq_def q_def by linarith+
  then have y: "0 \<le> y" "y \<le> 3" "0 \<le> doy" "doy \<le> 365" unfolding doy_def y_def by linarith+
  then have mp: "0 \<le> mp" "mp \<le> 11" "0 \<le> doy - (153 * mp + 2) div 5" "doy - (153 * mp + 2) div 5 \<le> 30"
    using day_of_year_parts [of doy] by (simp_all add: mp_def)
  have civil: "civil_of_days days = (400 * era + 100 * c + 4 * q + y + (if m' \<le> 2 then 1 else 0), m', doy - (153 * mp + 2) div 5 + 1)"
    unfolding civil_of_days_def Let_def defs ..
  have m': "(m' + 9) mod 12 = mp" "1 \<le> m'" "m' \<le> 12"
    using mp(1,2) unfolding m'_def by (auto simp: mod_pos_pos_trivial split: if_splits)
  have r: "0 \<le> 100 * c + 4 * q + y" "100 * c + 4 * q + y < 400" "0 \<le> 4 * q + y" "4 * q + y < 100" using c q y by linarith+
  have yoe1: "(400 * era + 100 * c + 4 * q + y) div 400 = era"
    by (rule int_div_pos_eq [where r = "100 * c + 4 * q + y"]) (use r in linarith)+
  have yoe2: "(400 * era + 100 * c + 4 * q + y) mod 400 = 100 * c + 4 * q + y"
    by (rule int_mod_pos_eq [where q = era]) (use r in linarith)+
  have part4: "(100 * c + 4 * q + y) div 4 = 25 * c + q"
    by (rule int_div_pos_eq [where r = y]) (use y(1,2) in auto)
  have part100: "(100 * c + 4 * q + y) div 100 = c"
    by (rule int_div_pos_eq [where r = "4 * q + y"]) (use r in linarith)+
  note yoe = yoe1 yoe2 and parts = part4 part100
  define k where "k = (153 * mp + 2) div 5"
  define yr where "yr = 400 * era + 100 * c + 4 * q + y"
  note civil' = civil [folded yr_def k_def] and yoe' = yoe [folded yr_def]
  have undo: "(if m' \<le> 2 then (yr + (if m' \<le> 2 then 1 else 0)) - 1 else yr + (if m' \<le> 2 then 1 else 0)) = yr" by simp
  have "days_of_civil (civil_of_days days)
      = era * 146097 + (100 * c + 4 * q + y) * 365 + (25 * c + q) - c + (k + (doy - k + 1) - 1) - 719468"
    unfolding civil' days_of_civil_def Let_def prod.case undo yoe' parts m'(1) k_def [symmetric] ..
  moreover have "z = era * 146097 + doe" by (simp add: era_def doe_def)
  ultimately show "days_of_civil (civil_of_days days) = days"
    unfolding z_def doc_def doq_def doy_def by (simp add: algebra_simps)
  show "1 \<le> m \<and> m \<le> 12 \<and> 1 \<le> d \<and> d \<le> 31" if "civil_of_days days = (year, m, d)"
    using that m' mp unfolding civil by auto
qed

section \<open>Date objects\<close>

text \<open>\<open>TimeClip\<close>: a time value beyond a hundred million days is NaN (here \<open>None\<close>).\<close>

definition time_clip :: "int \<Rightarrow> int option" where
  "time_clip t = (if \<bar>t\<bar> \<le> 8640000000000000 then Some t else None)"

text \<open>\<open>date.setUTCDate(date.getUTCDate() + n)\<close>.\<close>

definition add_utc_days :: "int \<Rightarrow> int option \<Rightarrow> int option" where
  "add_utc_days n t = (case t of None \<Rightarrow> None | Some v \<Rightarrow> time_clip (v + n * ms_per_day))"

definition pad_left :: "nat \<Rightarrow> string \<Rightarrow> string" where
  "pad_left n s = replicate (n - length s) CHR ''0'' @ s"

definition year_text :: "int \<Rightarrow> string" where
  "year_text y =
     (if 0 \<le> y \<and> y \<le> 9999 then pad_left 4 (nat_text (nat y))
      else (if y < 0 then ''-'' else ''+'') @ pad_left 6 (nat_text (nat \<bar>y\<bar>)))"

definition date_text :: "int \<times> int \<times> int \<Rightarrow> string" where
  "date_text = (\<lambda>(y, m, d). year_text y @ ''-'' @ pad_left 2 (nat_text (nat m)) @ ''-'' @ pad_left 2 (nat_text (nat d)))"

text \<open>\<open>date.toISOString().slice(0, 10)\<close>; an invalid date throws a \<open>RangeError\<close>.\<close>

definition iso_date_slice :: "int option \<Rightarrow> string option" where
  "iso_date_slice t = map_option (\<lambda>v. take 10 (date_text (civil_of_days (v div ms_per_day)) @ ''T'')) t"

lemma length_pad_left: "length s \<le> n \<Longrightarrow> length (pad_left n s) = n"
  by (simp add: pad_left_def)

end
