(* ===== verification/Delivery.thy ===== *)
theory Delivery
  imports Payment Calendar
begin

text \<open>
  services/delivery-service/src: the simulated booking with its estimated date, its message handler
  and the Delivery app. Reading a timestamp text (\<open>new Date(text)\<close>) is a parameter: its time
  value, or \<open>None\<close> for an invalid date.
\<close>

section \<open>DeliveryService\<close>

definition DEFAULT_CARRIER :: string where "DEFAULT_CARRIER = ''DefaultCarrier''"

definition DELIVERY_TIME_IN_DAYS :: int where "DELIVERY_TIME_IN_DAYS = 3"

definition calculateEstimatedDeliveryDate :: "int option \<Rightarrow> int \<Rightarrow> js_error + string" where
  "calculateEstimatedDeliveryDate bookingDate deliveryTimeInDays =
     (case iso_date_slice (add_utc_days deliveryTimeInDays bookingDate) of
        None \<Rightarrow> Inl (JsError ''Invalid time value'')
      | Some s \<Rightarrow> Inr s)"

definition delivery_createId :: "(string \<Rightarrow> 8 word list) \<Rightarrow> string option \<Rightarrow> string \<Rightarrow> string \<Rightarrow> string" where
  "delivery_createId sha1 generated namespace key =
     (case generated of Some i \<Rightarrow> i | None \<Rightarrow> deriveDeterministicId sha1 (''delivery-service.'' @ namespace) [key])"

definition bookDelivery ::
    "(string \<Rightarrow> 8 word list) \<Rightarrow> (string \<Rightarrow> int option) \<Rightarrow> (nat \<Rightarrow> string option) \<Rightarrow> InventoryReservedEvent
      \<Rightarrow> js_error + DeliveryBookedEvent" where
  "bookDelivery sha1 date_parse generateId sourceEvent =
     (case calculateEstimatedDeliveryDate (date_parse (occurredAt sourceEvent)) DELIVERY_TIME_IN_DAYS of
        Inl e \<Rightarrow> Inl e
      | Inr estimated \<Rightarrow> Inr
          \<lparr>eventId = delivery_createId sha1 (generateId 0) ''delivery-booked-event'' (eventId sourceEvent),
           eventType = DeliveryBooked, occurredAt = occurredAt sourceEvent, correlationId = correlationId sourceEvent,
           event_data = \<lparr>db_orderId = ir_orderId (event_data sourceEvent),
             db_deliveryId = delivery_createId sha1 (generateId 1) ''delivery'' (ir_orderId (event_data sourceEvent)),
             db_carrier = DEFAULT_CARRIER, db_estimatedDeliveryDate = estimated\<rparr>\<rparr>)"

section \<open>The handler\<close>

definition reserved_received_log :: "InventoryReservedEvent \<Rightarrow> log_call" where
  "reserved_received_log e = LogInfo ''Received InventoryReserved''
     [(''eventId'', JStr (eventId e)), (''orderId'', JStr (ir_orderId (event_data e))),
      (''reservationId'', JStr (ir_reservationId (event_data e))), (''correlationId'', JStr (correlationId e)),
      (''itemCount'', int_js (int (length (ir_items (event_data e)))))]"

definition booked_log :: "DeliveryBookedEvent \<Rightarrow> log_call" where
  "booked_log d = LogInfo ''Booked delivery''
     [(''eventId'', JStr (eventId d)), (''orderId'', JStr (db_orderId (event_data d))),
      (''deliveryId'', JStr (db_deliveryId (event_data d))), (''carrier'', JStr (db_carrier (event_data d))),
      (''estimatedDeliveryDate'', JStr (db_estimatedDeliveryDate (event_data d))), (''correlationId'', JStr (correlationId d))]"

definition inventoryReservedHandler ::
    "(InventoryReservedEvent \<Rightarrow> js_error + DeliveryBookedEvent) \<Rightarrow> (DeliveryBookedEvent \<Rightarrow> ('s, unit) io)
      \<Rightarrow> InventoryReservedEvent \<Rightarrow> 's \<Rightarrow> 's publishing_result" where
  "inventoryReservedHandler book publishDeliveryBooked event s =
     (case book event of
        Inl e \<Rightarrow> \<lparr>pb_error = Some e, pb_logs = [reserved_received_log event], pb_state = s\<rparr>
      | Inr deliveryBookedEvent \<Rightarrow>
          (case publishDeliveryBooked deliveryBookedEvent s of
             (Inl e, s') \<Rightarrow> \<lparr>pb_error = Some e, pb_logs = [reserved_received_log event], pb_state = s'\<rparr>
           | (Inr _, s') \<Rightarrow> \<lparr>pb_error = None, pb_logs = [reserved_received_log event, booked_log deliveryBookedEvent],
               pb_state = s'\<rparr>))"

section \<open>The app\<close>

definition delivery_health :: HttpResponse where
  "delivery_health = health_response ''delivery-service''"

definition delivery_ready :: "bool \<Rightarrow> HttpResponse" where
  "delivery_ready rabbitMqReady = broker_ready_response ''delivery-service'' rabbitMqReady"

section \<open>The estimated date\<close>

text \<open>Time values whose date three days later still has a four-digit year.\<close>

definition bookable_time :: "int \<Rightarrow> bool" where
  "bookable_time t = (let (y, m, d) = civil_of_days (t div ms_per_day + DELIVERY_TIME_IN_DAYS) in 0 \<le> y \<and> y \<le> 9999 \<and> \<bar>t\<bar> < 8640000000000000 - 3 * ms_per_day)"

lemma nat_text_short: "n < 10 ^ k \<Longrightarrow> 0 < k \<Longrightarrow> length (nat_text n) \<le> k"
proof (induction k arbitrary: n)
  case (Suc k)
  show ?case
  proof (cases "n < 10")
    case True
    then show ?thesis by (simp add: nat_text.simps [of n])
  next
    case False
    with Suc.prems have "n div 10 < 10 ^ k" "0 < k" by (auto intro: gr0I simp: less_mult_imp_div_less)
    with Suc.IH [of "n div 10"] False show ?thesis by (simp add: nat_text.simps [of n])
  qed
qed simp

lemma days_shift: "(t + n * ms_per_day) div ms_per_day = t div ms_per_day + n"
  by (simp add: ms_per_day_def)

lemma estimated_date:
  assumes "bookable_time t"
  shows "calculateEstimatedDeliveryDate (Some t) DELIVERY_TIME_IN_DAYS
    = Inr (date_text (civil_of_days (t div ms_per_day + DELIVERY_TIME_IN_DAYS)))"
proof -
  obtain y m d where civil: "civil_of_days (t div ms_per_day + DELIVERY_TIME_IN_DAYS) = (y, m, d)" by (metis prod_cases3)
  with assms have y: "0 \<le> y" "y \<le> 9999" and t: "\<bar>t\<bar> < 8640000000000000 - 3 * ms_per_day"
    by (auto simp: bookable_time_def)
  from civil_of_days_range [OF civil] have md: "1 \<le> m" "m \<le> 12" "1 \<le> d" "d \<le> 31" by auto
  have "length (nat_text (nat y)) \<le> 4" using y nat_text_short [of "nat y" 4] by simp
  moreover have "length (nat_text (nat m)) \<le> 2" "length (nat_text (nat d)) \<le> 2"
    using md nat_text_short [of "nat m" 2] nat_text_short [of "nat d" 2] by simp_all
  ultimately have "length (date_text (y, m, d)) = 10"
    using y by (simp add: date_text_def year_text_def length_pad_left)
  moreover have "time_clip (t + DELIVERY_TIME_IN_DAYS * ms_per_day) = Some (t + DELIVERY_TIME_IN_DAYS * ms_per_day)"
    using t by (auto simp: time_clip_def DELIVERY_TIME_IN_DAYS_def ms_per_day_def)
  ultimately show ?thesis
    using civil by (simp add: calculateEstimatedDeliveryDate_def add_utc_days_def iso_date_slice_def days_shift)
qed

text \<open>
  C29: a delivery is promised for the third day after its reservation, by the calendar. The booking
  of an event whose time can be read succeeds, and the date it promises is the YYYY-MM-DD text of a
  date of the calendar whose day number is that of the reservation plus three; everything else in
  the booking is fixed by the event, so that a redelivery promises the same date under the same
  ids.
\<close>

theorem booked_date_three_days_later:
  assumes "date_parse (occurredAt e) = Some t" "bookable_time t"
  shows "\<exists>d y m day. bookDelivery sha1 date_parse no_override e = Inr d
    \<and> db_estimatedDeliveryDate (event_data d) = pad_left 4 (nat_text (nat y)) @ ''-'' @ pad_left 2 (nat_text (nat m)) @ ''-''
        @ pad_left 2 (nat_text (nat day))
    \<and> 1 \<le> m \<and> m \<le> 12 \<and> 1 \<le> day \<and> day \<le> 31 \<and> days_of_civil (y, m, day) = t div ms_per_day + 3
    \<and> eventId d = deriveDeterministicId sha1 ''delivery-service.delivery-booked-event'' [eventId e]
    \<and> db_deliveryId (event_data d) = deriveDeterministicId sha1 ''delivery-service.delivery'' [ir_orderId (event_data e)]
    \<and> occurredAt d = occurredAt e \<and> correlationId d = correlationId e"
proof -
  obtain y m day where civil: "civil_of_days (t div ms_per_day + 3) = (y, m, day)" by (metis prod_cases3)
  from assms(2) civil have y: "0 \<le> y" "y \<le> 9999" by (auto simp: bookable_time_def DELIVERY_TIME_IN_DAYS_def)
  from estimated_date [OF assms(2)] have "calculateEstimatedDeliveryDate (Some t) DELIVERY_TIME_IN_DAYS = Inr (date_text (y, m, day))"
    by (simp add: civil DELIVERY_TIME_IN_DAYS_def)
  moreover have "days_of_civil (y, m, day) = t div ms_per_day + 3" using days_of_civil_of_days [of "t div ms_per_day + 3"] civil by simp
  ultimately show ?thesis
    using civil_of_days_range [OF civil] y assms(1)
    by (simp add: bookDelivery_def delivery_createId_def no_override_def date_text_def year_text_def) blast
qed

text \<open>A reservation on 2024-02-27 (a leap year): the delivery is promised for 2024-03-01.\<close>

definition sample_reservation :: InventoryReservedEvent where
  "sample_reservation = \<lparr>eventId = ''e3'', eventType = InventoryReserved, occurredAt = ''2024-02-27T23:59:59.999Z'',
     correlationId = ''c1'', event_data = \<lparr>ir_orderId = ''o1'', ir_reservationId = ''r1'', ir_items = []\<rparr>\<rparr>"

lemma sample_day: "civil_of_days (1709078399999 div ms_per_day + 3) = (2024, 3, 1)"
  by code_simp

theorem booked_date_three_days_later_witness:
  "\<exists>d. bookDelivery (\<lambda>s. replicate 20 0) (\<lambda>s. Some 1709078399999) no_override sample_reservation = Inr d
     \<and> occurredAt d = ''2024-02-27T23:59:59.999Z''
     \<and> calculateEstimatedDeliveryDate (Some 1709078399999) 3 = Inr ''2024-03-01''"
proof -
  have ok: "bookable_time 1709078399999"
    using sample_day by (simp add: bookable_time_def DELIVERY_TIME_IN_DAYS_def ms_per_day_def)
  have "date_text (2024, 3, 1) = ''2024-03-01''"
    by code_simp
  with estimated_date [OF ok] have "calculateEstimatedDeliveryDate (Some 1709078399999) 3 = Inr ''2024-03-01''"
    by (simp add: DELIVERY_TIME_IN_DAYS_def sample_day)
  with booked_date_three_days_later [of "\<lambda>s. Some 1709078399999" sample_reservation, OF refl ok, of "\<lambda>s. replicate 20 0"]
  show ?thesis by (auto simp: sample_reservation_def)
qed

end
