(* ===== verification/Notification.thy ===== *)
theory Notification
  imports Schemas MessageErrors Http
begin

text \<open>
  services/notification-service/src: parsing the two events a customer hears of, the notifications
  kept in memory, the message handler and the app. The id and the time of a new notification are
  arguments.
\<close>

section \<open>Events\<close>

datatype NotificationEvent = NotifyDelivery DeliveryBookedEvent | NotifyFailure InventoryReservationFailedEvent

text \<open>\<open>"eventType" in value ? value.eventType : undefined\<close>; the schema is chosen by it.\<close>

definition parseNotificationEvent :: "(rat \<Rightarrow> string) \<Rightarrow> zod_lib \<Rightarrow> js \<Rightarrow> js_error + NotificationEvent" where
  "parseNotificationEvent num_text z v =
     (let t = js_get v ''eventType''
      in if t = JStr ''DeliveryBooked'' then map_sum id NotifyDelivery (parseDeliveryBookedEvent z v)
         else if t = JStr ''InventoryReservationFailed'' then map_sum id NotifyFailure (parseInventoryReservationFailedEvent z v)
         else Inl (JsError (''Unsupported notification event type: '' @ String_of num_text t)))"

fun nt_eventId :: "NotificationEvent \<Rightarrow> string" where
  "nt_eventId (NotifyDelivery e) = eventId e"
| "nt_eventId (NotifyFailure e) = eventId e"

fun nt_orderId :: "NotificationEvent \<Rightarrow> string" where
  "nt_orderId (NotifyDelivery e) = db_orderId (event_data e)"
| "nt_orderId (NotifyFailure e) = rf_orderId (event_data e)"

fun nt_correlationId :: "NotificationEvent \<Rightarrow> string" where
  "nt_correlationId (NotifyDelivery e) = correlationId e"
| "nt_correlationId (NotifyFailure e) = correlationId e"

datatype NotificationType = DeliveryBookedNotice | ReservationFailedNotice

fun nt_type :: "NotificationEvent \<Rightarrow> NotificationType" where
  "nt_type (NotifyDelivery e) = DeliveryBookedNotice"
| "nt_type (NotifyFailure e) = ReservationFailedNotice"

fun notice_text :: "NotificationType \<Rightarrow> string" where
  "notice_text DeliveryBookedNotice = ''DeliveryBooked''"
| "notice_text ReservationFailedNotice = ''InventoryReservationFailed''"

section \<open>NotificationService\<close>

record CustomerNotification =
  cn_notificationId :: string
  cn_orderId :: string
  cn_type :: NotificationType
  cn_message :: string
  cn_correlationId :: string
  cn_createdAt :: string

definition findNotification :: "string \<Rightarrow> NotificationType \<Rightarrow> CustomerNotification list \<Rightarrow> CustomerNotification option" where
  "findNotification oid t notifications = List.find (\<lambda>n. cn_orderId n = oid \<and> cn_type n = t) notifications"

definition createDeliveryNotification :: "string \<Rightarrow> string \<Rightarrow> DeliveryBookedEvent \<Rightarrow> CustomerNotification" where
  "createDeliveryNotification nid now e =
     \<lparr>cn_notificationId = nid, cn_orderId = db_orderId (event_data e), cn_type = DeliveryBookedNotice,
      cn_message = ''Delivery has been booked with '' @ db_carrier (event_data e) @ ''. '' @ ''Estimated delivery date: '' @
        db_estimatedDeliveryDate (event_data e) @ ''.'',
      cn_correlationId = correlationId e, cn_createdAt = now\<rparr>"

text \<open>\<open>reason.replace(/[.\s]+$/, "")\<close>.\<close>

definition strip_period :: "string \<Rightarrow> string" where
  "strip_period s = rev (dropWhile (\<lambda>c. c = CHR ''.'' \<or> is_space c) (rev s))"

definition unavailable_text :: "UnavailableItem \<Rightarrow> string" where
  "unavailable_text u = ui_productId u @ '' '' @ ''requested='' @ int_text (requestedQuantity u) @ '', '' @
     ''available='' @ int_text (availableQuantity u)"

definition createInventoryFailureNotification :: "string \<Rightarrow> string \<Rightarrow> InventoryReservationFailedEvent \<Rightarrow> CustomerNotification" where
  "createInventoryFailureNotification nid now e =
     \<lparr>cn_notificationId = nid, cn_orderId = rf_orderId (event_data e), cn_type = ReservationFailedNotice,
      cn_message = ''Inventory reservation failed. '' @ ''Reason: '' @ strip_period (rf_reason (event_data e)) @ ''. '' @
        ''Unavailable items: '' @ join ''; '' (map unavailable_text (unavailableItems (event_data e))) @ ''.'',
      cn_correlationId = correlationId e, cn_createdAt = now\<rparr>"

fun buildNotification :: "string \<Rightarrow> string \<Rightarrow> NotificationEvent \<Rightarrow> CustomerNotification" where
  "buildNotification nid now (NotifyDelivery e) = createDeliveryNotification nid now e"
| "buildNotification nid now (NotifyFailure e) = createInventoryFailureNotification nid now e"

definition createNotification ::
    "string \<Rightarrow> string \<Rightarrow> NotificationEvent \<Rightarrow> CustomerNotification list \<Rightarrow> CustomerNotification \<times> CustomerNotification list" where
  "createNotification nid now event notifications =
     (case findNotification (nt_orderId event) (nt_type event) notifications of
        Some existing \<Rightarrow> (existing, notifications)
      | None \<Rightarrow> (let n = buildNotification nid now event in (n, notifications @ [n])))"

section \<open>The handler\<close>

definition duplicate_notice_log :: "NotificationEvent \<Rightarrow> CustomerNotification \<Rightarrow> log_call" where
  "duplicate_notice_log event existing = LogWarn ''Ignored duplicate notification event''
     [(''eventId'', JStr (nt_eventId event)), (''eventType'', JStr (notice_text (nt_type event))),
      (''orderId'', JStr (nt_orderId event)), (''correlationId'', JStr (nt_correlationId event)),
      (''existingNotificationId'', JStr (cn_notificationId existing))]"

definition logNotificationCreated :: "NotificationEvent \<Rightarrow> CustomerNotification \<Rightarrow> log_call" where
  "logNotificationCreated event n = LogInfo ''Created customer notification''
     ([(''eventId'', JStr (nt_eventId event)), (''notificationId'', JStr (cn_notificationId n)),
       (''notificationType'', JStr (notice_text (cn_type n))), (''orderId'', JStr (cn_orderId n)),
       (''correlationId'', JStr (cn_correlationId n))]
      @ (case event of
           NotifyDelivery e \<Rightarrow> [(''deliveryId'', JStr (db_deliveryId (event_data e))), (''carrier'', JStr (db_carrier (event_data e))),
             (''estimatedDeliveryDate'', JStr (db_estimatedDeliveryDate (event_data e)))]
         | NotifyFailure e \<Rightarrow> [(''reason'', JStr (rf_reason (event_data e))),
             (''unavailableItemCount'', int_js (int (length (unavailableItems (event_data e)))))]))"

definition notificationEventHandler ::
    "string \<Rightarrow> string \<Rightarrow> NotificationEvent \<Rightarrow> CustomerNotification list \<Rightarrow> log_call \<times> CustomerNotification list" where
  "notificationEventHandler nid now event notifications =
     (case findNotification (nt_orderId event) (nt_type event) notifications of
        Some existing \<Rightarrow> (duplicate_notice_log event existing, notifications)
      | None \<Rightarrow> (let (n, notifications') = createNotification nid now event notifications
                 in (logNotificationCreated event n, notifications')))"

section \<open>The app\<close>

definition notification_health :: HttpResponse where
  "notification_health = health_response ''notification-service''"

definition notification_ready :: "bool \<Rightarrow> HttpResponse" where
  "notification_ready rabbitMqReady = broker_ready_response ''notification-service'' rabbitMqReady"

definition notification_js :: "CustomerNotification \<Rightarrow> js" where
  "notification_js n = JObj
     [(''notificationId'', JStr (cn_notificationId n)), (''orderId'', JStr (cn_orderId n)),
      (''type'', JStr (notice_text (cn_type n))), (''message'', JStr (cn_message n)),
      (''correlationId'', JStr (cn_correlationId n)), (''createdAt'', JStr (cn_createdAt n))]"

definition get_notifications :: "CustomerNotification list \<Rightarrow> HttpResponse" where
  "get_notifications notifications = json_response 200 (JObj [(''notifications'', JArr (map notification_js notifications))])"

section \<open>Each outcome is told once\<close>

text \<open>A delivery of an event with the id and the time a notification would get then.\<close>

type_synonym notice = "string \<times> string \<times> NotificationEvent"

definition notify_all :: "notice list \<Rightarrow> CustomerNotification list \<Rightarrow> CustomerNotification list" where
  "notify_all ds s = foldl (\<lambda>s (nid, now, event). snd (notificationEventHandler nid now event s)) s ds"

text \<open>The reference: the first delivery of each order and outcome, in their order.\<close>

definition notice_key :: "notice \<Rightarrow> string \<times> NotificationType" where
  "notice_key = (\<lambda>(nid, now, event). (nt_orderId event, nt_type event))"

fun first_by :: "('a \<Rightarrow> 'k) \<Rightarrow> 'k list \<Rightarrow> 'a list \<Rightarrow> 'a list" where
  "first_by k seen [] = []"
| "first_by k seen (x # xs) = (if k x \<in> set seen then first_by k seen xs else x # first_by k (k x # seen) xs)"

definition notification_key :: "CustomerNotification \<Rightarrow> string \<times> NotificationType" where
  "notification_key n = (cn_orderId n, cn_type n)"

lemma build_key [simp]: "notification_key (buildNotification nid now event) = (nt_orderId event, nt_type event)"
  by (cases event) (simp_all add: notification_key_def createDeliveryNotification_def createInventoryFailureNotification_def)

lemma find_notification_None:
  "findNotification oid t s = None \<longleftrightarrow> (oid, t) \<notin> set (map notification_key s)"
  by (auto simp: findNotification_def find_None_iff' notification_key_def)

lemma handler_step:
  "snd (notificationEventHandler nid now event s) =
     (if (nt_orderId event, nt_type event) \<in> set (map notification_key s) then s else s @ [buildNotification nid now event])"
  using find_notification_None [of "nt_orderId event" "nt_type event" s]
  by (auto simp: notificationEventHandler_def createNotification_def Let_def split: option.split)

lemma notify_all_first:
  "set (map notification_key s) = set seen \<Longrightarrow>
     notify_all ds s = s @ map (\<lambda>(nid, now, event). buildNotification nid now event) (first_by notice_key seen ds)"
proof (induction ds arbitrary: s seen)
  case (Cons d ds)
  obtain nid now event where d: "d = (nid, now, event)" by (cases d) auto
  let ?key = "(nt_orderId event, nt_type event)"
  have k: "notice_key d = ?key" by (simp add: d notice_key_def)
  show ?case
  proof (cases "?key \<in> set seen")
    case True
    then show ?thesis using Cons.IH [OF Cons.prems] Cons.prems k by (simp add: notify_all_def handler_step d del: set_map)
  next
    case False
    have "set (map notification_key (s @ [buildNotification nid now event])) = set (?key # seen)" using Cons.prems by simp
    from Cons.IH [OF this] False Cons.prems k show ?thesis by (simp add: notify_all_def handler_step d del: set_map)
  qed
qed (simp add: notify_all_def)

lemma first_by_keys: "distinct (map k (first_by k seen ds)) \<and> set (map k (first_by k seen ds)) = k ` set ds - set seen"
  by (induction ds arbitrary: seen) auto

text \<open>
  C30: a customer is told each outcome once. After any deliveries, in any order, with any
  repetitions and re-emissions under other event ids, the notifications are those of the first
  delivery of each order and outcome, in that order, as they were first written: one for every
  outcome that was delivered, and no two for the same.
\<close>

theorem customers_told_once:
  "notify_all ds [] = map (\<lambda>(nid, now, event). buildNotification nid now event) (first_by notice_key [] ds)
    \<and> distinct (map notification_key (notify_all ds []))
    \<and> set (map notification_key (notify_all ds [])) = notice_key ` set ds"
proof -
  have eq: "notify_all ds [] = map (\<lambda>(nid, now, event). buildNotification nid now event) (first_by notice_key [] ds)"
    using notify_all_first [of "[]" "[]" ds] by simp
  have "notification_key \<circ> (\<lambda>(nid, now, event). buildNotification nid now event) = notice_key"
    by (auto simp: notice_key_def)
  with first_by_keys [of notice_key "[]" ds] show ?thesis by (simp add: eq)
qed

end
