(* ===== verification/Workflow.thy ===== *)
theory Workflow
  imports InventoryService OrderWorkflow OrderRequests Payment Delivery Notification
begin

text \<open>
  The services composed: an OrderCreated event goes through the Payment, Inventory, Delivery and
  Notification services, each of which parses what it receives from the wire and emits the next
  event, while the Order service records what all of them emit.
\<close>

section \<open>One order through the services\<close>

text \<open>What the services take from outside: zod, number printing, SHA-1, fresh ids and the clock.\<close>

record workflow_env =
  wf_zod :: zod_lib
  wf_num_text :: "rat \<Rightarrow> string"
  wf_sha1 :: "string \<Rightarrow> 8 word list"
  wf_generateId :: "nat \<Rightarrow> string"
  wf_now :: string
  wf_date_parse :: "string \<Rightarrow> int option"

text \<open>The Delivery Service and, after it, the Notification Service; the messages on the wire.\<close>

definition deliver_reserved :: "workflow_env \<Rightarrow> js \<Rightarrow> js_error + js list \<times> NotificationEvent" where
  "deliver_reserved env message =
     and_then (parseInventoryReservedEvent (wf_zod env) message) (\<lambda>r.
     and_then (bookDelivery (wf_sha1 env) (wf_date_parse env) no_override r) (\<lambda>d.
     let booked = json_wire (deliveryBooked_js d)
     in and_then (parseNotificationEvent (wf_num_text env) (wf_zod env) booked) (\<lambda>n. Inr ([message, booked], n))))"

text \<open>An announced result goes to the Delivery Service or to the Notification Service.\<close>

definition after_decision :: "workflow_env \<Rightarrow> js \<Rightarrow> js_error + js list \<times> NotificationEvent" where
  "after_decision env message =
     (if js_get message ''eventType'' = JStr ''InventoryReserved'' then deliver_reserved env message
      else and_then (parseNotificationEvent (wf_num_text env) (wf_zod env) message) (\<lambda>n. Inr ([message], n)))"

text \<open>What the Inventory Service announces is what its transaction added to the outbox.\<close>

definition announced :: "InventoryState \<Rightarrow> InventoryState \<Rightarrow> js list" where
  "announced s s' = drop (length (im_outbox s)) (map (json_wire \<circ> result_js) (im_outbox s'))"

definition order_workflow ::
    "workflow_env \<Rightarrow> OrderCreatedEvent \<Rightarrow> InventoryState \<Rightarrow> js_error + js list \<times> NotificationEvent \<times> InventoryState" where
  "order_workflow env event s =
     and_then (parseOrderCreatedEvent (wf_zod env) (json_wire (orderCreated_js event))) (\<lambda>e.
     let authorized = json_wire (paymentAuthorized_js (authorizePayment (wf_sha1 env) no_override e))
     in and_then (parsePaymentAuthorizedEvent (wf_zod env) authorized) (\<lambda>p.
     case im_reserve (wf_generateId env) (wf_now env) p s of
       (Inl err, _) \<Rightarrow> Inl err
     | (Inr _, s') \<Rightarrow>
         (case announced s s' of
            [message] \<Rightarrow> and_then (after_decision env message) (\<lambda>(messages, n). Inr (authorized # messages, n, s'))
          | _ \<Rightarrow> Inl (JsError ''not one result''))))"

section \<open>Quantities within the limits of the API\<close>

definition within_limits :: "OrderItem list \<Rightarrow> bool" where
  "within_limits items = (length items \<le> MAX_ORDER_ITEMS \<and> list_all (\<lambda>i. quantity i \<le> MAX_ORDER_ITEM_QUANTITY) items)"

lemma requested_quantity_bound:
  assumes "list_all (\<lambda>i. 0 < quantity i \<and> quantity i \<le> m) items"
  shows "requested_quantity items p \<le> int (length items) * m"
  using assms
proof (induction items)
  case (Cons i items)
  then show ?case by (auto simp: requested_quantity_def algebra_simps)
qed (simp add: requested_quantity_def)

lemma within_limits_quantity:
  assumes "within_limits items" "valid_items items"
  shows "requested_quantity items p \<le> 2 ^ 53 - 1"
proof -
  have "list_all (\<lambda>i. 0 < quantity i \<and> quantity i \<le> MAX_ORDER_ITEM_QUANTITY) items"
    using assms by (auto simp: within_limits_def valid_items_def valid_item_def list_all_iff)
  from requested_quantity_bound [OF this, of p] assms(1) show ?thesis
    by (simp add: within_limits_def MAX_ORDER_ITEM_QUANTITY_def MAX_ORDER_ITEMS_def)
qed

lemma within_limits_exact: "within_limits items \<Longrightarrow> valid_items items \<Longrightarrow> exact_quantities items"
proof -
  assume a: "within_limits items" "valid_items items"
  have "requested_quantity items p \<le> 2 ^ 53" for p using within_limits_quantity [OF a, of p] by simp
  moreover have "list_all (\<lambda>i. 0 < quantity i) items" using a(2) by (simp add: valid_items_def valid_items_positive)
  ultimately show ?thesis by (simp add: exact_quantities_def list_all_iff)
qed

section \<open>The decision and what follows it\<close>

definition in_stock :: "OrderItem list \<Rightarrow> InventoryState \<Rightarrow> bool" where
  "in_stock items s = list_all (\<lambda>i. requested_quantity items (productId i) \<le> map_or 0 (im_stock s) (productId i)) items"

definition stock_ok :: "InventoryState \<Rightarrow> bool" where
  "stock_ok s = list_all (\<lambda>(p, n). n \<le> 2 ^ 53 - 1) (im_stock s)"

lemma ledger_stock_or: "(case ledger_stock (im_ledger s) p of None \<Rightarrow> 0 | Some c \<Rightarrow> c) = map_or 0 (im_stock s) p"
  by (simp add: im_ledger_def map_or_def)

lemma missing_iff:
  "u \<in> set (ledger_missing (wanted items) (im_ledger s)) \<longleftrightarrow>
     (\<exists>p. p \<in> productId ` set items \<and> map_or 0 (im_stock s) p < requested_quantity items p
        \<and> u = \<lparr>ui_productId = p, requestedQuantity = requested_quantity items p, availableQuantity = map_or 0 (im_stock s) p\<rparr>)"
  unfolding ledger_missing_def ledger_stock_or wanted_def
  by (auto simp: set_product_ids split: if_splits)

lemma in_stock_missing: "in_stock items s \<longleftrightarrow> ledger_missing (wanted items) (im_ledger s) = []"
proof -
  have "ledger_missing (wanted items) (im_ledger s) = [] \<longleftrightarrow> (\<forall>u. u \<notin> set (ledger_missing (wanted items) (im_ledger s)))"
    by (metis all_not_in_conv empty_set set_empty)
  then show ?thesis unfolding missing_iff by (auto simp: in_stock_def list_all_iff not_less)
qed

lemma unavailable_valid:
  assumes "valid_items items" "within_limits items" "im_inv s" "stock_ok s"
  shows "list_all valid_unavailable (ledger_missing (wanted items) (im_ledger s))"
  unfolding list_all_iff
proof
  fix u assume "u \<in> set (ledger_missing (wanted items) (im_ledger s))"
  then obtain p where p: "p \<in> productId ` set items" "map_or 0 (im_stock s) p < requested_quantity items p"
    "u = \<lparr>ui_productId = p, requestedQuantity = requested_quantity items p, availableQuantity = map_or 0 (im_stock s) p\<rparr>"
    unfolding missing_iff by blast
  have "0 \<le> map_or 0 (im_stock s) p \<and> map_or 0 (im_stock s) p \<le> 2 ^ 53 - 1"
    using map_or_mem [of 0 "im_stock s" p] assms(3,4) by (auto simp: im_inv_def stock_ok_def list_all_iff)
  moreover have "valid_identifier p"
    using assms(1) p(1) by (auto simp: valid_items_def valid_item_def list_all_iff)
  ultimately show "valid_unavailable u"
    using p(2,3) within_limits_quantity [OF assms(2,1), of p] by (simp add: valid_unavailable_def)
qed

text \<open>The transaction for a paid order that has no outcome yet.\<close>

lemma decision:
  assumes "im_inv s" "valid_items (pa_items (event_data p))" "within_limits (pa_items (event_data p))"
    "map_get (im_reservations s) (pa_orderId (event_data p)) = None"
  obtains out s' where "im_reserve gen now p s = (Inr out, s')"
    "announced s s' = [json_wire (result_js (if in_stock (pa_items (event_data p)) s
       then ReservedResult (createInventoryReservedEvent gen now p)
       else FailedResult (createReservationFailedEvent gen now p (ledger_missing (wanted (pa_items (event_data p))) (im_ledger s)))))]"
    "map_of (im_stock s') = (if in_stock (pa_items (event_data p)) s
       then ledger_stock (take_stock (wanted (pa_items (event_data p))) (im_ledger s)) else map_of (im_stock s))"
proof -
  let ?q = "wanted (pa_items (event_data p))"
  have agg: "aggregateQuantities (pa_items (event_data p)) = ?q"
    by (rule aggregate_wanted [OF within_limits_exact [OF assms(3,2)]])
  have fresh: "reservation_of (im_ledger s) (pa_orderId (event_data p)) = None"
    using im_reservation_of [OF assms(1)] assms(4) by simp
  from im_reserve_returns [OF assms(1), of p gen now] assms(2) obtain out s'
    where r: "im_reserve gen now p s = (Inr out, s')" and l: "(out, im_ledger s') = reserve_spec ?q gen now p (im_ledger s)"
    by (auto simp: valid_items_def agg)
  have out: "announced s s' = drop (length (im_outbox s)) (ledger_outbox (im_ledger s'))"
    by (simp add: announced_def im_ledger_def)
  have old: "ledger_outbox (im_ledger s) = map (json_wire \<circ> result_js) (im_outbox s)" "ledger_stock (im_ledger s) = map_of (im_stock s)"
    "ledger_stock (im_ledger s') = map_of (im_stock s')"
    by (simp_all add: im_ledger_def)
  show ?thesis
    by (rule that [OF r]; cases "in_stock (pa_items (event_data p)) s")
      (use l fresh in \<open>simp_all add: out reserve_spec_def in_stock_missing Let_def old flip: old(3)\<close>)
qed

text \<open>The clock the services run by: timestamps that zod accepts and whose date a calendar has.\<close>

definition env_ok :: "workflow_env \<Rightarrow> bool" where
  "env_ok env \<longleftrightarrow> zod_documented (wf_zod env) \<and> (\<forall>s. length (wf_sha1 env s) = 20)
     \<and> (\<forall>k. valid_identifier (wf_generateId env k)) \<and> iso_datetime (wf_zod env) (wf_now env)
     \<and> (\<exists>t. wf_date_parse env (wf_now env) = Some t \<and> bookable_time t
          \<and> iso_date (wf_zod env) (date_text (civil_of_days (t div ms_per_day + DELIVERY_TIME_IN_DAYS))))"

lemma wire_eventType:
  "js_get (json_wire (inventoryReserved_js r)) ''eventType'' = JStr (eventType_text (eventType r))"
  "js_get (json_wire (reservationFailed_js f)) ''eventType'' = JStr (eventType_text (eventType f))"
  "js_get (json_wire (deliveryBooked_js d)) ''eventType'' = JStr (eventType_text (eventType d))"
  "js_get (json_wire (paymentAuthorized_js p)) ''eventType'' = JStr (eventType_text (eventType p))"
  by (simp_all add: event_js_defs js_get_def)

definition described :: "workflow_env \<Rightarrow> string \<Rightarrow> string \<Rightarrow> js list \<Rightarrow> OrderWorkflowEventType list \<Rightarrow> bool" where
  "described env oid cid messages steps \<longleftrightarrow>
     (\<exists>ws. map (parseOrderWorkflowEvent (wf_num_text env) (wf_zod env)) messages = map Inr ws
        \<and> map (we_eventType \<circ> event_record) ws = steps
        \<and> list_all (\<lambda>w. we_orderId (event_record w) = oid \<and> we_correlationId (event_record w) = cid) ws)"

context documented_zod
begin

lemma workflow_wire:
  "valid_PaymentAuthorized z p \<Longrightarrow> parseOrderWorkflowEvent num_text z (json_wire (paymentAuthorized_js p)) = Inr (WePaymentAuthorized p)"
  "valid_InventoryReserved z r \<Longrightarrow> parseOrderWorkflowEvent num_text z (json_wire (inventoryReserved_js r)) = Inr (WeInventoryReserved r)"
  "valid_ReservationFailed z f \<Longrightarrow> parseOrderWorkflowEvent num_text z (json_wire (reservationFailed_js f)) = Inr (WeInventoryReservationFailed f)"
  "valid_DeliveryBooked z d \<Longrightarrow> parseOrderWorkflowEvent num_text z (json_wire (deliveryBooked_js d)) = Inr (WeDeliveryBooked d)"
  unfolding parseOrderWorkflowEvent_def wire_eventType PaymentAuthorized_wire InventoryReserved_wire ReservationFailed_wire DeliveryBooked_wire
  by (simp_all add: valid_defs)

lemma notification_wire:
  "valid_ReservationFailed z f \<Longrightarrow> parseNotificationEvent num_text z (json_wire (reservationFailed_js f)) = Inr (NotifyFailure f)"
  "valid_DeliveryBooked z d \<Longrightarrow> parseNotificationEvent num_text z (json_wire (deliveryBooked_js d)) = Inr (NotifyDelivery d)"
  unfolding parseNotificationEvent_def wire_eventType ReservationFailed_wire DeliveryBooked_wire
  by (simp_all add: valid_defs)

end

lemma env_zod: "env_ok env \<Longrightarrow> documented_zod (wf_zod env)"
  by (simp add: env_ok_def documented_zod_def)

lemma reserved_valid:
  assumes "env_ok env" "valid_PaymentAuthorized (wf_zod env) p"
  shows "valid_InventoryReserved (wf_zod env) (createInventoryReservedEvent (wf_generateId env) (wf_now env) p)"
  using assms by (simp add: env_ok_def createInventoryReservedEvent_def valid_defs)

lemma failed_valid:
  assumes "env_ok env" "valid_PaymentAuthorized (wf_zod env) p" "list_all valid_unavailable us"
  shows "valid_ReservationFailed (wf_zod env) (createReservationFailedEvent (wf_generateId env) (wf_now env) p us)"
  using assms by (simp add: env_ok_def createReservationFailedEvent_def valid_defs)

lemma booked_valid:
  assumes "env_ok env" "valid_InventoryReserved (wf_zod env) r" "occurredAt r = wf_now env"
  obtains d where "bookDelivery (wf_sha1 env) (wf_date_parse env) no_override r = Inr d" "valid_DeliveryBooked (wf_zod env) d"
    "db_orderId (event_data d) = ir_orderId (event_data r)" "correlationId d = correlationId r"
proof -
  from assms(1,3) obtain t where t: "wf_date_parse env (occurredAt r) = Some t" "bookable_time t"
    "iso_date (wf_zod env) (date_text (civil_of_days (t div ms_per_day + DELIVERY_TIME_IN_DAYS)))"
    by (auto simp: env_ok_def)
  obtain d where d: "bookDelivery (wf_sha1 env) (wf_date_parse env) no_override r = Inr d"
    using t(1) estimated_date [OF t(2)] by (simp add: bookDelivery_def)
  show thesis
    by (rule that [OF d])
      (use assms t d estimated_date [OF t(2)] in
        \<open>auto simp: bookDelivery_def delivery_createId_def no_override_def env_ok_def valid_defs derived_id_valid DEFAULT_CARRIER_def\<close>)
qed

lemma delivered_order:
  assumes env: "env_ok env" and r: "valid_InventoryReserved (wf_zod env) r" "occurredAt r = wf_now env"
  obtains d where "deliver_reserved env (json_wire (inventoryReserved_js r))
      = Inr ([json_wire (inventoryReserved_js r), json_wire (deliveryBooked_js d)], NotifyDelivery d)"
    "valid_DeliveryBooked (wf_zod env) d" "db_orderId (event_data d) = ir_orderId (event_data r)" "correlationId d = correlationId r"
proof -
  note wire = documented_zod.InventoryReserved_wire [OF env_zod [OF env]] documented_zod.notification_wire [OF env_zod [OF env]]
  from booked_valid [OF assms] obtain d where d: "bookDelivery (wf_sha1 env) (wf_date_parse env) no_override r = Inr d"
    "valid_DeliveryBooked (wf_zod env) d" "db_orderId (event_data d) = ir_orderId (event_data r)" "correlationId d = correlationId r" .
  with r show thesis by (intro that [of d]) (simp_all add: deliver_reserved_def wire Let_def)
qed

text \<open>What is left of the stock, with an absent product counting as none.\<close>

lemma stock_left:
  assumes "map_of m' = ledger_stock (take_stock (wanted items) (im_ledger s))" "in_stock items s" "valid_items items"
  shows "map_or 0 m' p = map_or 0 (im_stock s) p - requested_quantity items p"
proof (cases "p \<in> productId ` set items")
  case True
  then have "requested_quantity items p \<le> map_or 0 (im_stock s) p" using assms(2) by (auto simp: in_stock_def list_all_iff)
  moreover have "0 \<le> requested_quantity items p"
    using assms(3) by (intro requested_quantity_nonneg valid_items_positive) (simp add: valid_items_def)
  ultimately show ?thesis using True assms(1)
    by (auto simp: map_or_def take_stock_def im_ledger_def wanted_get split: option.splits)
next
  case False
  with assms(1) requested_quantity_absent [OF False] show ?thesis
    by (simp add: map_or_def take_stock_def im_ledger_def wanted_get split: option.splits)
qed

text \<open>
  C31: an accepted order runs to its outcome. Take any order within the limits of the API that has
  not been decided and any stock. Every service accepts what the service before it put on the wire;
  the workflow ends, with the stock reduced by exactly what the order asks for and a booked
  delivery if all of it was there, and with nothing taken and a failed reservation otherwise; the
  customer is told that outcome under the order's id and correlation id; the Order Service
  understands every event and files it under that order; and in whatever order and however often
  those events reach it, the order ends Completed in the first case and Failed in the second.
\<close>

theorem order_runs_to_outcome:
  assumes env: "env_ok env" and e: "valid_OrderCreated (wf_zod env) e" "within_limits (oc_items (event_data e))"
    and s: "im_inv s" "stock_ok s" "map_get (im_reservations s) (oc_orderId (event_data e)) = None"
  shows "\<exists>messages n s' steps. order_workflow env e s = Inr (messages, n, s')
    \<and> described env (oc_orderId (event_data e)) (correlationId e) messages steps
    \<and> nt_orderId n = oc_orderId (event_data e) \<and> nt_correlationId n = correlationId e
    \<and> (if in_stock (oc_items (event_data e)) s
       then nt_type n = DeliveryBookedNotice
         \<and> (\<forall>p. map_or 0 (im_stock s') p = map_or 0 (im_stock s) p - requested_quantity (oc_items (event_data e)) p)
         \<and> (\<forall>arrived. set arrived = set steps \<longrightarrow> getOrderOutcome (apply_all StatusCreated arrived) = Completed)
       else nt_type n = ReservationFailedNotice \<and> (\<forall>p. map_or 0 (im_stock s') p = map_or 0 (im_stock s) p)
         \<and> (\<forall>arrived. set arrived = set steps \<longrightarrow> getOrderOutcome (apply_all StatusCreated arrived) = Failed))"
proof -
  let ?items = "oc_items (event_data e)" and ?p = "authorizePayment (wf_sha1 env) no_override e"
  let ?gen = "wf_generateId env" and ?now = "wf_now env"
  note zod = env_zod [OF env]
  note wire = documented_zod.OrderCreated_wire [OF zod] documented_zod.PaymentAuthorized_wire [OF zod]
    documented_zod.workflow_wire [OF zod] documented_zod.notification_wire [OF zod]
  have p: "valid_PaymentAuthorized (wf_zod env) ?p"
    using env by (intro authorizePayment_valid e(1)) (simp add: env_ok_def)
  have pd: "pa_items (event_data ?p) = ?items" "pa_orderId (event_data ?p) = oc_orderId (event_data e)" "correlationId ?p = correlationId e"
    by (simp_all add: authorizePayment_def)
  have items: "valid_items ?items" using e(1) by (simp add: valid_OrderCreated_def)
  obtain out s' where reserve: "im_reserve ?gen ?now ?p s = (Inr out, s')"
    and msg: "announced s s' = [json_wire (result_js (if in_stock ?items s then ReservedResult (createInventoryReservedEvent ?gen ?now ?p)
       else FailedResult (createReservationFailedEvent ?gen ?now ?p (ledger_missing (wanted ?items) (im_ledger s)))))]"
    and left: "map_of (im_stock s') = (if in_stock ?items s then ledger_stock (take_stock (wanted ?items) (im_ledger s)) else map_of (im_stock s))"
    using decision [of s ?p] s items e(2) by (metis pd(1,2))
  show ?thesis
  proof (cases "in_stock ?items s")
    case True
    let ?r = "createInventoryReservedEvent ?gen ?now ?p"
    obtain d where d: "deliver_reserved env (json_wire (inventoryReserved_js ?r))
        = Inr ([json_wire (inventoryReserved_js ?r), json_wire (deliveryBooked_js d)], NotifyDelivery d)"
      "valid_DeliveryBooked (wf_zod env) d" "db_orderId (event_data d) = ir_orderId (event_data ?r)" "correlationId d = correlationId ?r"
      using delivered_order [OF env reserved_valid [OF env p]] by (auto simp: createInventoryReservedEvent_def)
    let ?ms = "[json_wire (paymentAuthorized_js ?p), json_wire (inventoryReserved_js ?r), json_wire (deliveryBooked_js d)]"
    have r: "eventType ?r = InventoryReserved" "ir_orderId (event_data ?r) = oc_orderId (event_data e)" "correlationId ?r = correlationId e"
      by (simp_all add: createInventoryReservedEvent_def pd)
    have run: "order_workflow env e s = Inr (?ms, NotifyDelivery d, s')"
      using True msg d(1) e(1) p r(1) by (simp add: order_workflow_def wire reserve after_decision_def wire_eventType result_js.simps)
    have desc: "described env (oc_orderId (event_data e)) (correlationId e) ?ms [WfPaymentAuthorized, WfInventoryReserved, WfDeliveryBooked]"
      unfolding described_def
      by (rule exI [of _ "[WePaymentAuthorized ?p, WeInventoryReserved ?r, WeDeliveryBooked d]"])
        (use d p reserved_valid [OF env p] r pd in \<open>simp add: wire workflow_record_def\<close>)
    have "getOrderOutcome (apply_all StatusCreated arrived) = Completed"
      if "set arrived = set [WfPaymentAuthorized, WfInventoryReserved, WfDeliveryBooked]" for arrived
      using that apply_all_furthest [of arrived] by (auto simp: one_decision_def furthest_def)
    then show ?thesis
      using True run desc d r stock_left [OF _ True items] left by (intro exI conjI) (auto simp only: if_True nt_type.simps nt_orderId.simps nt_correlationId.simps)
  next
    case False
    let ?f = "createReservationFailedEvent ?gen ?now ?p (ledger_missing (wanted ?items) (im_ledger s))"
    have vf: "valid_ReservationFailed (wf_zod env) ?f"
      by (rule failed_valid [OF env p unavailable_valid [OF items e(2) s(1,2)]])
    have f: "eventType ?f = InventoryReservationFailed" "rf_orderId (event_data ?f) = oc_orderId (event_data e)" "correlationId ?f = correlationId e"
      by (simp_all add: createReservationFailedEvent_def pd)
    let ?ms = "[json_wire (paymentAuthorized_js ?p), json_wire (reservationFailed_js ?f)]"
    have run: "order_workflow env e s = Inr (?ms, NotifyFailure ?f, s')"
      using False msg e(1) p f(1) vf by (simp add: order_workflow_def wire reserve after_decision_def wire_eventType result_js.simps)
    have desc: "described env (oc_orderId (event_data e)) (correlationId e) ?ms [WfPaymentAuthorized, WfInventoryReservationFailed]"
      unfolding described_def
      by (rule exI [of _ "[WePaymentAuthorized ?p, WeInventoryReservationFailed ?f]"])
        (use p vf f pd in \<open>simp add: wire workflow_record_def\<close>)
    have "getOrderOutcome (apply_all StatusCreated arrived) = Failed"
      if "set arrived = set [WfPaymentAuthorized, WfInventoryReservationFailed]" for arrived
      using that apply_all_furthest [of arrived] by (auto simp: one_decision_def furthest_def)
    then show ?thesis
      using False run desc f left by (intro exI conjI) (auto simp only: if_False nt_type.simps nt_orderId.simps nt_correlationId.simps map_or_def)
  qed
qed

text \<open>An order of two and three pieces from a stock of five each.\<close>

definition sample_env :: workflow_env where
  "sample_env = \<lparr>wf_zod = sample_zod, wf_num_text = (\<lambda>r. ''n''), wf_sha1 = (\<lambda>s. replicate 20 0), wf_generateId = (\<lambda>k. ''id''),
     wf_now = ''2024-02-27T23:59:59.999Z'', wf_date_parse = (\<lambda>s. Some 1709078399999)\<rparr>"

definition sample_order :: OrderCreatedEvent where
  "sample_order = \<lparr>eventId = ''e1'', eventType = OrderCreated, occurredAt = ''2024-02-27T23:59:59.999Z'', correlationId = ''c1'',
     event_data = \<lparr>oc_orderId = ''o1'', oc_customerId = ''k1'',
       oc_items = [\<lparr>productId = ''A'', quantity = 2, unitPrice = Fin 3\<rparr>, \<lparr>productId = ''B'', quantity = 3, unitPrice = Fin 1\<rparr>],
       oc_totalAmount = Fin 9\<rparr>\<rparr>"

lemma sample_bookable: "bookable_time 1709078399999"
  using sample_day by (simp add: bookable_time_def DELIVERY_TIME_IN_DAYS_def ms_per_day_def)

theorem order_runs_to_outcome_witness:
  "\<exists>messages n s'. order_workflow sample_env sample_order sample_store = Inr (messages, n, s')
     \<and> nt_type n = DeliveryBookedNotice \<and> map_or 0 (im_stock s') ''B'' = 2"
proof -
  have env: "env_ok sample_env"
    using sample_bookable
    by (simp add: env_ok_def sample_env_def sample_zod_def zod_lib_ref_documented valid_identifier_def) (simp add: zod_lib_ref_def)
  have e: "valid_OrderCreated (wf_zod sample_env) sample_order" "within_limits (oc_items (event_data sample_order))"
    by (simp_all add: sample_env_def sample_order_def sample_zod_def zod_lib_ref_def valid_defs valid_identifier_def valid_items_def
        valid_item_def valid_amount_def within_limits_def MAX_ORDER_ITEMS_def MAX_ORDER_ITEM_QUANTITY_def)
  have s: "im_inv sample_store" "stock_ok sample_store"
    "map_get (im_reservations sample_store) (oc_orderId (event_data sample_order)) = None"
    by (simp_all add: sample_store_def inMemoryInventoryStore_def im_inv_def stock_ok_def)
  have q: "requested_quantity (oc_items (event_data sample_order)) ''A'' = 2" "requested_quantity (oc_items (event_data sample_order)) ''B'' = 3"
    by (simp_all add: requested_quantity_def sample_order_def)
  have stock: "map_or 0 (im_stock sample_store) ''A'' = 5" "map_or 0 (im_stock sample_store) ''B'' = 5"
    by (simp_all add: sample_store_def inMemoryInventoryStore_def map_or_def)
  have "in_stock (oc_items (event_data sample_order)) sample_store"
    using q stock by (simp add: in_stock_def) (simp add: sample_order_def)
  with order_runs_to_outcome [OF env e s] q stock show ?thesis by fastforce
qed

end
