(* ===== verification/ServiceHost.thy ===== *)
theory ServiceHost
  imports MessageErrors Schemas
begin

text \<open>
  shared/runtime/src/serviceHost.ts: starting an HTTP service with its background tasks and
  stopping it again, as a state machine. Every step is what the code does between two awaits:
  startup, the signals and fatal errors of the process, the tasks and the shutdown interleave.
\<close>

section \<open>State\<close>

text \<open>
  The HTTP server: not created, created but not listening, listening, closing (no new connection
  is accepted) and closed. A background task is identified by its place in the list.
\<close>

datatype server_state = NoServer | NotListening | Listening | Closing | Closed

datatype startup_state = Initializing | Opening | Up | FailedToStart

text \<open>
  Where \<open>performShutdown\<close> is: awaiting the server's close, the tasks it knows of, or \<open>stop\<close>. What it
  awaits of the tasks is the list as it was when it looked (\<open>Promise.allSettled(taskPromises)\<close>).
\<close>

datatype shutdown_state = NoShutdown | AwaitClose | AwaitTasks | AwaitStop | ShutdownDone

record service_host =
  sh_startup :: startup_state
  sh_server :: server_state
  sh_aborted :: bool
  sh_tasks :: "(string \<times> bool) list"
  sh_shutdown :: "(string \<times> int) option"
  sh_stage :: shutdown_state
  sh_awaited :: "nat set"
  sh_timer :: bool
  sh_signals :: "string set"
  sh_exit :: "int option"
  sh_logs :: "log_call list"

record host_options =
  ho_port :: int
  ho_tasks :: "string list"
  ho_shutdownTimeoutInMs :: int

definition default_shutdown_timeout :: int where
  "default_shutdown_timeout = 15000"

definition run_service :: service_host where
  "run_service = \<lparr>sh_startup = Initializing, sh_server = NoServer, sh_aborted = False, sh_tasks = [], sh_shutdown = None,
     sh_stage = NoShutdown, sh_awaited = {}, sh_timer = False, sh_signals = {}, sh_exit = None, sh_logs = []\<rparr>"

definition host_log :: "log_call \<Rightarrow> service_host \<Rightarrow> service_host" where
  "host_log l s = s \<lparr>sh_logs := sh_logs s @ [l]\<rparr>"

section \<open>Shutting down\<close>

text \<open>From \<open>controller.abort()\<close> to the await of the tasks.\<close>

definition abort_tasks :: "service_host \<Rightarrow> service_host" where
  "abort_tasks s = s \<lparr>sh_aborted := True, sh_stage := AwaitTasks, sh_awaited := {..<length (sh_tasks s)}\<rparr>"

text \<open>
  \<open>closeServer\<close>: a server that does not listen needs no closing, one that listens stops accepting
  connections and calls back when the last has ended.
\<close>

definition closeServer :: "service_host \<Rightarrow> service_host" where
  "closeServer s = (if sh_server s = Listening then s \<lparr>sh_server := Closing, sh_stage := AwaitClose\<rparr> else abort_tasks s)"

definition performShutdown :: "string \<Rightarrow> service_host \<Rightarrow> service_host" where
  "performShutdown reason s =
     closeServer ((host_log (LogInfo ''Service shutting down'' [(''reason'', JStr reason)]) s) \<lparr>sh_timer := True\<rparr>)"

text \<open>Only the first call shuts down; its reason and exit code stand.\<close>

definition shutdown :: "string \<Rightarrow> int \<Rightarrow> service_host \<Rightarrow> service_host" where
  "shutdown reason exitCode s =
     (case sh_shutdown s of
        Some _ \<Rightarrow> s
      | None \<Rightarrow> performShutdown reason (s \<lparr>sh_shutdown := Some (reason, exitCode)\<rparr>))"

definition exit_code :: "service_host \<Rightarrow> int" where
  "exit_code s = (case sh_shutdown s of Some (reason, code) \<Rightarrow> code | None \<Rightarrow> 0)"

text \<open>After \<open>stop\<close>: an error is logged, and the process exits with the code of the shutdown.\<close>

definition resources_released :: "js_error option \<Rightarrow> service_host \<Rightarrow> service_host" where
  "resources_released result s =
     (let s1 = (case result of None \<Rightarrow> s | Some e \<Rightarrow> host_log (LogError ''Failed to release resources during shutdown'' e []) s);
          s2 = host_log (LogInfo ''Service stopped'' [(''exitCode'', int_js (exit_code s))]) (s1 \<lparr>sh_timer := False\<rparr>)
      in s2 \<lparr>sh_stage := ShutdownDone, sh_exit := Some (exit_code s)\<rparr>)"

definition force_exit :: "host_options \<Rightarrow> service_host \<Rightarrow> service_host" where
  "force_exit opts s =
     (host_log (LogErrorOnly ''Graceful shutdown timed out; forcing exit''
        [(''shutdownTimeoutInMs'', int_js (ho_shutdownTimeoutInMs opts))]) s)
       \<lparr>sh_timer := False, sh_exit := Some (if exit_code s = 0 then 1 else exit_code s)\<rparr>"

section \<open>Startup, tasks and the process\<close>

definition onFatalError :: "string \<Rightarrow> js_error \<Rightarrow> service_host \<Rightarrow> service_host" where
  "onFatalError kind e s = shutdown kind 1 (host_log (LogError kind e []) s)"

definition startup_failed :: "host_options \<Rightarrow> js_error \<Rightarrow> service_host \<Rightarrow> service_host" where
  "startup_failed opts e s =
     shutdown ''startup failure'' 1
       ((host_log (LogError ''Service failed to start'' e [(''port'', int_js (ho_port opts))]) s) \<lparr>sh_startup := FailedToStart\<rparr>)"

text \<open>\<open>listen\<close> has resolved: from there on the service is up and its tasks run.\<close>

definition service_up :: "host_options \<Rightarrow> int \<Rightarrow> service_host \<Rightarrow> service_host" where
  "service_up opts port s =
     (host_log (LogInfo ''Service listening'' [(''port'', int_js port)]) s)
       \<lparr>sh_startup := Up, sh_server := Listening, sh_tasks := map (\<lambda>n. (n, False)) (ho_tasks opts)\<rparr>"

definition settle_task :: "nat \<Rightarrow> service_host \<Rightarrow> service_host" where
  "settle_task i s = s \<lparr>sh_tasks := (sh_tasks s)[i := (fst (sh_tasks s ! i), True)]\<rparr>"

definition task_returned :: "nat \<Rightarrow> service_host \<Rightarrow> service_host" where
  "task_returned i s =
     (let name = fst (sh_tasks s ! i)
      in if sh_aborted s then settle_task i s
         else shutdown (name @ '' stopped'') 1
           (host_log (LogErrorOnly ''Background task stopped unexpectedly'' [(''task'', JStr name)]) (settle_task i s)))"

definition task_threw :: "nat \<Rightarrow> js_error \<Rightarrow> service_host \<Rightarrow> service_host" where
  "task_threw i e s =
     (let name = fst (sh_tasks s ! i)
      in shutdown (name @ '' failed'') 1 (host_log (LogError ''Background task failed'' e [(''task'', JStr name)]) (settle_task i s)))"

text \<open>
  The steps, until the process exits. A signal is handled once (\<open>process.once\<close>); a second one of the
  same kind ends the process by Node's default, as a kill does, and is no step.
\<close>

inductive host_step :: "host_options \<Rightarrow> service_host \<Rightarrow> service_host \<Rightarrow> bool" for opts where
  started: "\<lbrakk>sh_exit s = None; sh_startup s = Initializing\<rbrakk>
    \<Longrightarrow> host_step opts s (s \<lparr>sh_startup := Opening, sh_server := NotListening\<rparr>)"
| listening: "\<lbrakk>sh_exit s = None; sh_startup s = Opening\<rbrakk> \<Longrightarrow> host_step opts s (service_up opts port s)"
| not_started: "\<lbrakk>sh_exit s = None; sh_startup s = Initializing \<or> sh_startup s = Opening\<rbrakk> \<Longrightarrow> host_step opts s (startup_failed opts e s)"
| terminate: "\<lbrakk>sh_exit s = None; signal \<in> {''SIGINT'', ''SIGTERM''}; signal \<notin> sh_signals s\<rbrakk>
    \<Longrightarrow> host_step opts s (shutdown signal 0 (s \<lparr>sh_signals := insert signal (sh_signals s)\<rparr>))"
| fatal: "\<lbrakk>sh_exit s = None; kind \<in> {''Uncaught exception'', ''Unhandled promise rejection''}\<rbrakk> \<Longrightarrow> host_step opts s (onFatalError kind e s)"
| returned: "\<lbrakk>sh_exit s = None; i < length (sh_tasks s); \<not> snd (sh_tasks s ! i)\<rbrakk> \<Longrightarrow> host_step opts s (task_returned i s)"
| threw: "\<lbrakk>sh_exit s = None; i < length (sh_tasks s); \<not> snd (sh_tasks s ! i)\<rbrakk> \<Longrightarrow> host_step opts s (task_threw i e s)"
| closed: "\<lbrakk>sh_exit s = None; sh_stage s = AwaitClose\<rbrakk> \<Longrightarrow> host_step opts s (abort_tasks (s \<lparr>sh_server := Closed\<rparr>))"
| settled: "\<lbrakk>sh_exit s = None; sh_stage s = AwaitTasks; \<forall>i \<in> sh_awaited s. snd (sh_tasks s ! i)\<rbrakk>
    \<Longrightarrow> host_step opts s (s \<lparr>sh_stage := AwaitStop\<rparr>)"
| stopped: "\<lbrakk>sh_exit s = None; sh_stage s = AwaitStop\<rbrakk> \<Longrightarrow> host_step opts s (resources_released result s)"
| timed_out: "\<lbrakk>sh_exit s = None; sh_timer s\<rbrakk> \<Longrightarrow> host_step opts s (force_exit opts s)"

inductive host_reachable :: "host_options \<Rightarrow> service_host \<Rightarrow> bool" for opts where
  init: "host_reachable opts run_service"
| step: "\<lbrakk>host_reachable opts s; host_step opts s s'\<rbrakk> \<Longrightarrow> host_reachable opts s'"

section \<open>Invariants\<close>

lemmas host_defs = shutdown_def performShutdown_def closeServer_def abort_tasks_def host_log_def resources_released_def
  force_exit_def onFatalError_def startup_failed_def service_up_def task_returned_def task_threw_def settle_task_def exit_code_def

definition all_settled :: "service_host \<Rightarrow> bool" where
  "all_settled s = list_all snd (sh_tasks s)"

text \<open>One exit, with the code that was asked for, or 1 where the timeout ended a shutdown without an error.\<close>

definition exit_ok :: "service_host \<Rightarrow> bool" where
  "exit_ok s \<longleftrightarrow>
     (sh_shutdown s = None \<longleftrightarrow> sh_stage s = NoShutdown)
     \<and> (\<forall>reason code. sh_shutdown s = Some (reason, code) \<longrightarrow> code = 1 \<or> (code = 0 \<and> reason \<in> {''SIGINT'', ''SIGTERM''}))
     \<and> (sh_stage s = NoShutdown \<longrightarrow> \<not> sh_aborted s \<and> \<not> sh_timer s \<and> sh_exit s = None)
     \<and> (sh_stage s \<noteq> NoShutdown \<and> sh_exit s = None \<longrightarrow> sh_timer s)
     \<and> (sh_stage s = ShutdownDone \<longrightarrow> sh_exit s = Some (exit_code s))
     \<and> (sh_exit s \<noteq> None \<longrightarrow> sh_exit s = Some (exit_code s) \<or> (exit_code s = 0 \<and> sh_exit s = Some 1))"

lemma shutdown_exit_ok:
  assumes "exit_ok s" "code = 1 \<or> (code = 0 \<and> reason \<in> {''SIGINT'', ''SIGTERM''})"
  shows "exit_ok (shutdown reason code s)"
  using assms
  by (cases "sh_shutdown s")
    (auto simp: shutdown_def performShutdown_def closeServer_def abort_tasks_def host_log_def exit_ok_def exit_code_def)

lemma exit_ok_log: "exit_ok (host_log l s) = exit_ok s"
  by (simp add: exit_ok_def exit_code_def host_log_def)

lemma exit_ok_settle: "exit_ok (settle_task i s) = exit_ok s"
  by (simp add: exit_ok_def exit_code_def settle_task_def)

lemma exit_ok_startup: "exit_ok (s \<lparr>sh_startup := x\<rparr>) = exit_ok s" "exit_ok (s \<lparr>sh_signals := x'\<rparr>) = exit_ok s"
  by (simp_all add: exit_ok_def exit_code_def)

lemma host_step_exit_ok: "host_step opts s s' \<Longrightarrow> exit_ok s \<Longrightarrow> exit_ok s'"
proof (induction rule: host_step.induct)
  case (not_started s e)
  then show ?case by (simp add: startup_failed_def shutdown_exit_ok exit_ok_log exit_ok_startup)
next
  case (terminate s signal)
  then show ?case by (simp add: shutdown_exit_ok exit_ok_startup)
next
  case (fatal s kind e)
  then show ?case by (simp add: onFatalError_def shutdown_exit_ok exit_ok_log)
next
  case (returned s i)
  then show ?case by (simp add: task_returned_def Let_def shutdown_exit_ok exit_ok_log exit_ok_settle)
next
  case (threw s i e)
  then show ?case by (simp add: task_threw_def Let_def shutdown_exit_ok exit_ok_log exit_ok_settle)
next
  case (stopped s result)
  then show ?case by (cases result) (auto simp: exit_ok_def resources_released_def host_log_def exit_code_def split: option.splits)
next
  case (timed_out s)
  then show ?case by (auto simp: exit_ok_def force_exit_def host_log_def exit_code_def)
next
  case (started s)
  then show ?case by (simp add: exit_ok_def exit_code_def)
next
  case (listening s port)
  then show ?case by (simp add: exit_ok_def exit_code_def service_up_def host_log_def)
next
  case (closed s)
  then have "sh_timer s" "sh_shutdown s \<noteq> None" by (simp_all add: exit_ok_def)
  with closed show ?case by (auto simp: exit_ok_def exit_code_def abort_tasks_def)
next
  case (settled s)
  then have "sh_timer s" "sh_shutdown s \<noteq> None" by (simp_all add: exit_ok_def)
  with settled show ?case by (auto simp: exit_ok_def exit_code_def)
qed

lemma reachable_exit_ok: "host_reachable opts s \<Longrightarrow> exit_ok s"
proof (induction rule: host_reachable.induct)
  case init
  show ?case by (simp add: run_service_def exit_ok_def)
next
  case (step s s')
  then show ?case by (blast intro: host_step_exit_ok)
qed

text \<open>A shutdown of a service that is up: what has been done at each of its stages.\<close>

definition orderly :: "service_host \<Rightarrow> bool" where
  "orderly s \<longleftrightarrow> sh_startup s = Up
     \<and> (case sh_stage s of
          NoShutdown \<Rightarrow> sh_server s = Listening \<and> (\<forall>t \<in> set (sh_tasks s). \<not> snd t)
        | AwaitClose \<Rightarrow> sh_server s = Closing
        | AwaitTasks \<Rightarrow> sh_server s = Closed \<and> sh_aborted s \<and> sh_awaited s = {..<length (sh_tasks s)}
        | _ \<Rightarrow> sh_server s = Closed \<and> sh_aborted s \<and> all_settled s)"

lemma shutdown_orderly:
  assumes "sh_startup s = Up" "sh_server s = Listening" "sh_stage s = NoShutdown" "sh_shutdown s = None"
  shows "orderly (shutdown reason code s)"
  using assms by (simp add: host_defs orderly_def)

lemma shutdown_again: "sh_shutdown s \<noteq> None \<Longrightarrow> shutdown reason code s = s"
  by (auto simp: shutdown_def)

lemma orderly_cong:
  "\<lbrakk>sh_startup s' = sh_startup s; sh_stage s' = sh_stage s; sh_server s' = sh_server s; sh_tasks s' = sh_tasks s;
    sh_aborted s' = sh_aborted s; sh_awaited s' = sh_awaited s\<rbrakk> \<Longrightarrow> orderly s' = orderly s"
  by (simp only: orderly_def all_settled_def)

lemma orderly_log: "orderly (host_log l s) = orderly s" "orderly (s \<lparr>sh_signals := x\<rparr>) = orderly s"
  by (rule orderly_cong; simp add: host_log_def)+

lemma settle_all: "list_all snd ts \<Longrightarrow> list_all snd (ts[i := (n, True)])"
  by (cases "i < length ts") (auto simp: list_all_length nth_list_update)

lemma settle_orderly:
  assumes "orderly s" "sh_stage s \<noteq> NoShutdown"
  shows "orderly (settle_task i s)"
  using assms by (cases "sh_stage s") (simp_all add: orderly_def settle_task_def all_settled_def settle_all)

text \<open>Whatever asks for a shutdown, of a service that is up or already shutting down.\<close>

lemma request_orderly:
  assumes "orderly s" "exit_ok s" "sh_stage s' = sh_stage s" "sh_startup s' = Up" "sh_shutdown s' = sh_shutdown s"
    "sh_server s' = sh_server s" "sh_stage s \<noteq> NoShutdown \<Longrightarrow> orderly s'"
  shows "orderly (shutdown reason code s')"
proof (cases "sh_shutdown s")
  case None
  with assms have "sh_stage s' = NoShutdown" "sh_server s' = Listening" by (auto simp: exit_ok_def orderly_def)
  with None assms(4,5) show ?thesis by (simp add: shutdown_orderly)
next
  case (Some x)
  with assms(2) have "sh_stage s \<noteq> NoShutdown" by (simp add: exit_ok_def)
  with Some assms(5,7) show ?thesis by (simp add: shutdown_again)
qed

lemma host_step_orderly: "host_step opts s s' \<Longrightarrow> exit_ok s \<Longrightarrow> orderly s \<Longrightarrow> orderly s'"
proof (induction rule: host_step.induct)
  case (terminate s signal)
  then show ?case by (intro request_orderly [of s]) (simp_all add: orderly_log, simp add: orderly_def)
next
  case (fatal s kind e)
  then show ?case unfolding onFatalError_def
    by (intro request_orderly [of s]) (simp_all add: orderly_log, simp_all add: orderly_def host_log_def)
next
  case (returned s i)
  have "\<not> sh_aborted s" if "sh_stage s = NoShutdown" using that returned by (simp add: exit_ok_def)
  then have "sh_stage s \<noteq> NoShutdown" if "sh_aborted s" using that by blast
  with returned show ?case unfolding task_returned_def Let_def
    by (auto intro!: settle_orderly request_orderly [of s] simp: orderly_log) (simp_all add: orderly_def host_log_def settle_task_def)
next
  case (threw s i e)
  then show ?case unfolding task_threw_def Let_def
    by (auto intro!: settle_orderly request_orderly [of s] simp: orderly_log) (simp_all add: orderly_def host_log_def settle_task_def)
next
  case (stopped s result)
  then show ?case
    by (cases result) (simp_all add: orderly_def resources_released_def host_log_def all_settled_def)
next
  case (timed_out s)
  then show ?case by (subst orderly_cong [of _ s]) (simp_all add: force_exit_def host_log_def)
next
  case (closed s)
  then show ?case by (simp add: orderly_def abort_tasks_def)
next
  case (settled s)
  then show ?case by (simp add: orderly_def all_settled_def list_all_length)
qed (auto simp: orderly_def)

lemma reachable_orderly:
  assumes "(host_step opts)\<^sup>*\<^sup>* s0 s" "exit_ok s0" "orderly s0"
  shows "exit_ok s \<and> orderly s"
  using assms(1) by (induction rule: rtranclp_induct) (auto simp: assms intro: host_step_exit_ok host_step_orderly)

lemma up_orderly:
  assumes "host_reachable opts s" "sh_startup s = Up" "sh_shutdown s = None"
  shows "orderly s"
proof -
  have "(sh_shutdown s = None \<longrightarrow> \<not> sh_aborted s \<and> (\<forall>t \<in> set (sh_tasks s). \<not> snd t)
      \<and> (sh_startup s = Up \<longrightarrow> sh_server s = Listening) \<and> sh_stage s = NoShutdown)"
    using assms(1)
  proof (induction rule: host_reachable.induct)
    case (step s s')
    from step(2) reachable_exit_ok [OF step(1)] step(3) show ?case
      by (induction rule: host_step.induct)
        (auto simp: host_defs exit_ok_def Let_def split: option.splits if_splits)
  qed (simp add: run_service_def)
  with assms show ?thesis by (simp add: orderly_def)
qed


text \<open>A service of one task that gets a SIGTERM: its shutdown, step by step.\<close>

definition sample_options :: host_options where
  "sample_options = \<lparr>ho_port = 3005, ho_tasks = [''rabbitmq-supervisor''], ho_shutdownTimeoutInMs = default_shutdown_timeout\<rparr>"

definition sample_up :: service_host where
  "sample_up = service_up sample_options 3005 (run_service \<lparr>sh_startup := Opening, sh_server := NotListening\<rparr>)"

definition sample_stopping :: service_host where
  "sample_stopping = (task_returned 0 (abort_tasks ((shutdown ''SIGTERM'' 0 (sample_up \<lparr>sh_signals := {''SIGTERM''}\<rparr>)) \<lparr>sh_server := Closed\<rparr>)))
     \<lparr>sh_stage := AwaitStop\<rparr>"

lemma sample_up_reachable: "host_reachable sample_options sample_up"
proof -
  have "host_reachable sample_options (run_service \<lparr>sh_startup := Opening, sh_server := NotListening\<rparr>)"
    by (rule host_reachable.step [OF host_reachable.init], rule host_step.started) (simp_all add: run_service_def)
  then show ?thesis unfolding sample_up_def
    by (rule host_reachable.step, intro host_step.listening) (simp_all add: run_service_def)
qed

lemma sample_shutdown: "(host_step sample_options)\<^sup>*\<^sup>* sample_up sample_stopping"
proof -
  let ?a = "shutdown ''SIGTERM'' 0 (sample_up \<lparr>sh_signals := {''SIGTERM''}\<rparr>)" and ?opts = sample_options
  let ?b = "abort_tasks (?a \<lparr>sh_server := Closed\<rparr>)"
  note defs = sample_up_def sample_options_def run_service_def host_defs
  have "host_step ?opts sample_up ?a"
    using host_step.terminate [of sample_up "''SIGTERM''" ?opts] by (simp add: sample_up_def service_up_def run_service_def host_log_def)
  moreover have "host_step ?opts ?a ?b" by (rule host_step.closed) (simp_all add: defs)
  moreover have "host_step ?opts ?b (task_returned 0 ?b)" by (rule host_step.returned) (simp_all add: defs)
  moreover have "host_step ?opts (task_returned 0 ?b) sample_stopping"
    unfolding sample_stopping_def by (rule host_step.settled) (simp_all add: defs)
  ultimately show ?thesis by (meson converse_rtranclp_into_rtranclp rtranclp.rtrancl_refl)
qed


text \<open>
  C34: a signal that arrives while the service starts is not followed in that order. The shutdown finds
  no server to close and no task to wait for and goes on to release the resources, while startup
  continues: the service can begin to listen and start its tasks after \<open>stop\<close> has been called, and
  then exits with code 0 with the server still listening and the tasks still running.
\<close>

theorem shutdown_during_startup_unordered:
  "\<exists>s s'. host_reachable opts s \<and> sh_shutdown s = Some (''SIGTERM'', 0) \<and> sh_stage s = AwaitStop
    \<and> sh_server s = Listening \<and> sh_tasks s = map (\<lambda>n. (n, False)) (ho_tasks opts)
    \<and> host_step opts s s' \<and> sh_exit s' = Some 0 \<and> sh_server s' = Listening \<and> sh_tasks s' = sh_tasks s"
proof -
  let ?a = "shutdown ''SIGTERM'' 0 (run_service \<lparr>sh_signals := {''SIGTERM''}\<rparr>)"
  let ?b = "?a \<lparr>sh_stage := AwaitStop\<rparr>"
  let ?c = "?b \<lparr>sh_startup := Opening, sh_server := NotListening\<rparr>"
  let ?d = "service_up opts 3005 ?c"
  note defs = run_service_def host_defs
  have "host_step opts run_service ?a"
    using host_step.terminate [of run_service "''SIGTERM''" opts] by (simp add: run_service_def)
  with host_reachable.init have a: "host_reachable opts ?a" by (rule host_reachable.step)
  have "host_step opts ?a ?b" by (rule host_step.settled) (simp_all add: defs)
  with a have b: "host_reachable opts ?b" by (rule host_reachable.step)
  have "host_step opts ?b ?c" by (rule host_step.started) (simp_all add: defs)
  with b have c: "host_reachable opts ?c" by (rule host_reachable.step)
  have "host_step opts ?c ?d" by (rule host_step.listening) (simp_all add: defs)
  with c have d: "host_reachable opts ?d" by (rule host_reachable.step)
  have "host_step opts ?d (resources_released None ?d)" by (rule host_step.stopped) (simp_all add: defs)
  with d show ?thesis
    by (intro exI [of _ ?d] exI [of _ "resources_released None ?d"]) (simp add: defs)
qed

end
