(* ===== verification/InventoryApp.thy ===== *)
theory InventoryApp
  imports PostgresInventory Http Configuration
begin

text \<open>
  services/inventory-service/src/app.ts and database.ts with shared/persistence/src/database.ts: the
  handlers of the Inventory app, the pools and readiness of the databases, and the demo catalogue
  that is seeded when the service starts.
\<close>

section \<open>Pools and readiness (shared/persistence)\<close>

record PoolConfig =
  pc_connectionString :: string
  pc_application_name :: string
  pc_max :: int
  pc_connectionTimeoutMillis :: int
  pc_idleTimeoutMillis :: int
  pc_statement_timeout :: int

text \<open>\<open>a ?? b ?? c\<close>: an empty text is a value.\<close>

definition createDatabasePool :: "Environment \<Rightarrow> string \<Rightarrow> string option \<Rightarrow> int option \<Rightarrow> PoolConfig" where
  "createDatabasePool environment applicationName connectionString maxConnections =
     \<lparr>pc_connectionString = (case connectionString of Some c \<Rightarrow> c
        | None \<Rightarrow> (case environment ''DATABASE_URL'' of Some c \<Rightarrow> c | None \<Rightarrow> DEFAULT_DATABASE_URL)),
      pc_application_name = applicationName,
      pc_max = (case maxConnections of Some n \<Rightarrow> n | None \<Rightarrow> 10),
      pc_connectionTimeoutMillis = 5000, pc_idleTimeoutMillis = 30000, pc_statement_timeout = 15000\<rparr>"

definition idle_client_failed :: "string \<Rightarrow> log_call" where
  "idle_client_failed message = LogWarn ''Idle PostgreSQL client failed'' [(''errorMessage'', JStr message)]"

definition DATABASE_READINESS_TIMEOUT_IN_MS :: int where
  "DATABASE_READINESS_TIMEOUT_IN_MS = 1000"

text \<open>
  A query settles after some milliseconds, with success or failure, or not at all; the race with the
  timer is lost by a query that is not earlier.
\<close>

definition isDatabaseReady :: "(string \<Rightarrow> (int \<times> bool) option) \<Rightarrow> string \<Rightarrow> int \<Rightarrow> bool" where
  "isDatabaseReady query readinessQuery timeoutInMs =
     (case query readinessQuery of
        None \<Rightarrow> False
      | Some (after, succeeded) \<Rightarrow> if after < timeoutInMs then succeeded else False)"

definition createInventoryDatabasePool :: "Environment \<Rightarrow> string option \<Rightarrow> int option \<Rightarrow> PoolConfig" where
  "createInventoryDatabasePool environment = createDatabasePool environment ''inventory-service''"

definition createOrderDatabasePool :: "Environment \<Rightarrow> string option \<Rightarrow> int option \<Rightarrow> PoolConfig" where
  "createOrderDatabasePool environment = createDatabasePool environment ''order-service''"

definition isInventoryDatabaseReady :: "(string \<Rightarrow> (int \<times> bool) option) \<Rightarrow> bool" where
  "isInventoryDatabaseReady query =
     isDatabaseReady query ''SELECT 1 FROM inventory_stock LIMIT 1'' DATABASE_READINESS_TIMEOUT_IN_MS"

definition isOrderDatabaseReady :: "(string \<Rightarrow> (int \<times> bool) option) \<Rightarrow> bool" where
  "isOrderDatabaseReady query =
     isDatabaseReady query ''SELECT 1 FROM orders LIMIT 1'' DATABASE_READINESS_TIMEOUT_IN_MS"

section \<open>The demo catalogue\<close>

definition DEMO_INVENTORY_STOCK :: "(string, int) jsmap" where
  "DEMO_INVENTORY_STOCK = [(''washing-machine-01'', 10), (''dishwasher-01'', 5), (''dryer-01'', 3)]"

text \<open>\<open>INSERT \<dots> SELECT * FROM UNNEST \<dots> ON CONFLICT (product_id) DO NOTHING\<close>, one statement.\<close>

definition insert_stock :: "(string \<times> int) list \<Rightarrow> (string \<times> int) list \<Rightarrow> (string \<times> int) list" where
  "insert_stock entries rows =
     foldl (\<lambda>rows (p, n). if p \<in> set (map fst rows) then rows else rows @ [(p, n)]) rows entries"

definition seedDemoInventoryStock :: "(string, int) jsmap \<Rightarrow> (InventoryDb, unit) io" where
  "seedDemoInventoryStock stock db =
     (if list_ex (\<lambda>(p, n). has_nul p) stock then (Inl nul_error, db)
      else if \<not> list_all (\<lambda>(p, n). in_int4 n) stock then (Inl (DatabaseError ''integer out of range''), db)
      else if \<not> list_all (\<lambda>(p, n). 0 \<le> n) stock then
        (Inl (DatabaseError ''violates check constraint inventory_stock_quantity_nonnegative''), db)
      else (Inr (), db \<lparr>inv_stock := insert_stock stock (inv_stock db)\<rparr>))"

definition initializeInventoryDatabase :: "(InventoryDb, 'r) io \<Rightarrow> (InventoryDb, 'r) io" where
  "initializeInventoryDatabase migrateInventoryDatabase =
     io_bind migrateInventoryDatabase (\<lambda>result.
     io_bind (seedDemoInventoryStock DEMO_INVENTORY_STOCK) (\<lambda>_. io_return result))"

section \<open>The app\<close>

definition inventory_health :: HttpResponse where
  "inventory_health = health_response ''inventory-service''"

definition inventory_ready :: "probe_result \<Rightarrow> probe_result \<Rightarrow> HttpResponse" where
  "inventory_ready rabbitMq database = ready_response ''inventory-service'' rabbitMq database"

definition get_stock :: "js_error + (string, int) jsmap \<Rightarrow> js_error + HttpResponse" where
  "get_stock read = (case read of
       Inl e \<Rightarrow> Inl e
     | Inr stock \<Rightarrow> Inr (json_response 200 (JObj [(''stock'', JObj (map (\<lambda>(p, n). (p, int_js n)) stock))])))"

definition inventory_error_middleware :: "js_error \<Rightarrow> string \<Rightarrow> string \<Rightarrow> HttpResponse \<times> log_call" where
  "inventory_error_middleware e verb path =
     (json_response 503 (error_body ''The inventory data is temporarily unavailable.''), request_failed_log e verb path)"

text \<open>
  initializeDatabase.ts: the script that prepares the database without starting the service, with its
  exit code and what it logs. \<open>ended\<close> is what \<open>Pool.end\<close> rejects with.
\<close>

definition initialize_script :: "(InventoryDb, 'r) io \<Rightarrow> js_error option \<Rightarrow> InventoryDb \<Rightarrow> (int \<times> log_call) \<times> InventoryDb" where
  "initialize_script migrateInventoryDatabase ended db =
     (case initializeInventoryDatabase migrateInventoryDatabase db of
        (Inl e, db') \<Rightarrow> ((1, LogError ''Failed to initialize inventory database'' e []), db')
      | (Inr result, db') \<Rightarrow> ((if ended = None then 0 else 1, LogInfo ''Inventory database initialized'' []), db'))"

section \<open>Seeding\<close>

lemma insert_stock_get:
  "map_of (insert_stock entries rows) p = (case map_of rows p of Some n \<Rightarrow> Some n | None \<Rightarrow> map_of entries p)"
proof (induction entries arbitrary: rows)
  case (Cons e entries)
  obtain q n where e: "e = (q, n)" by (cases e)
  have step: "insert_stock (e # entries) rows = insert_stock entries (if q \<in> set (map fst rows) then rows else rows @ [(q, n)])"
    by (simp add: insert_stock_def e)
  show ?case
  proof (cases "q \<in> set (map fst rows)")
    case True
    then have "map_of rows q \<noteq> None" by (simp add: map_of_eq_None_iff)
    with True Cons.IH step show ?thesis by (auto simp: e split: option.split)
  next
    case False
    then have "map_of rows q = None" by (simp add: map_of_eq_None_iff)
    with False Cons.IH step show ?thesis by (auto simp: e map_add_def split: option.split)
  qed
qed (simp add: insert_stock_def split: option.split)

lemma insert_stock_keeps:
  assumes "distinct (map fst rows)" "list_all (\<lambda>(p, n). 0 \<le> n \<and> in_int4 n) rows" "list_all (\<lambda>(p, n). 0 \<le> n \<and> in_int4 n) entries"
  shows "distinct (map fst (insert_stock entries rows)) \<and> list_all (\<lambda>(p, n). 0 \<le> n \<and> in_int4 n) (insert_stock entries rows)"
  unfolding insert_stock_def
  by (rule foldl_invariant) (use assms in \<open>auto simp: list_all_iff\<close>)

lemma insert_stock_known:
  "fst ` set entries \<subseteq> fst ` set rows \<Longrightarrow> insert_stock entries rows = rows"
proof (induction entries)
  case (Cons e entries)
  then have "fst e \<in> set (map fst rows)" "insert_stock entries rows = rows" by auto
  then show ?case by (cases e) (simp add: insert_stock_def)
qed (simp add: insert_stock_def)

lemma insert_stock_keys: "fst ` set (insert_stock entries rows) = fst ` set rows \<union> fst ` set entries"
proof (induction entries arbitrary: rows)
  case (Cons e entries)
  obtain q n where e: "e = (q, n)" by (cases e)
  have "insert_stock (e # entries) rows = insert_stock entries (if q \<in> set (map fst rows) then rows else rows @ [(q, n)])"
    by (simp add: insert_stock_def e)
  with Cons.IH show ?case by (auto simp: e)
qed (simp add: insert_stock_def)

text \<open>Deliveries take stock; no product appears or disappears.\<close>

lemma reserve_spec_products: "dom (ledger_stock (snd (reserve_spec q gen now ev l))) = dom (ledger_stock l)"
  by (auto simp: reserve_spec_def Let_def take_stock_def dom_def split: option.splits if_splits)

context inventory_store
begin

lemma deliver_all_products:
  assumes "inv s" "list_all valid_delivery ds" "list_all (ids_accepted id_ok) ds"
  shows "inv (deliver_all T ds s) \<and> dom (ledger_stock (ledger (deliver_all T ds s))) = dom (ledger_stock (ledger s))"
  unfolding deliver_all_def
proof (rule foldl_invariant [where P = "\<lambda>s'. inv s' \<and> dom (ledger_stock (ledger s')) = dom (ledger_stock (ledger s))"])
  fix s' d assume "d \<in> set ds" "inv s' \<and> dom (ledger_stock (ledger s')) = dom (ledger_stock (ledger s))"
  moreover have "valid_delivery d" "ids_accepted id_ok d" using assms(2,3) \<open>d \<in> set ds\<close> by (auto simp: list_all_iff)
  ultimately have "inv (deliver T d s')" "dom (ledger_stock (ledger (deliver T d s'))) = dom (ledger_stock (ledger s'))"
    using deliver_spec [of s' d] reserve_spec_products by metis+
  with \<open>inv s' \<and> dom (ledger_stock (ledger s')) = dom (ledger_stock (ledger s))\<close>
  show "inv (deliver T d s') \<and> dom (ledger_stock (ledger (deliver T d s'))) = dom (ledger_stock (ledger s))" by simp
qed (use assms in simp)

end

text \<open>
  C35: restarting the Inventory service never restocks. Seeding a database adds the demo products it
  lacks with their quantities, keeps every quantity that is there and leaves reservations and outbox
  alone; and after any deliveries of payments seeding it again, as every restart does, changes
  nothing, however much of the stock has been sold.
\<close>

theorem restart_never_restocks:
  assumes "pgi_inv db" "list_all valid_delivery ds" "list_all (ids_accepted uuid_ok) ds"
  shows "\<exists>db'. seedDemoInventoryStock DEMO_INVENTORY_STOCK db = (Inr (), db') \<and> pgi_inv db'
    \<and> (\<forall>p. map_of (inv_stock db') p = (case map_of (inv_stock db) p of Some n \<Rightarrow> Some n | None \<Rightarrow> map_of DEMO_INVENTORY_STOCK p))
    \<and> inv_reservations db' = inv_reservations db \<and> inv_outbox db' = inv_outbox db
    \<and> (let sold = deliver_all postgresInventoryTransaction ds db'
       in seedDemoInventoryStock DEMO_INVENTORY_STOCK sold = (Inr (), sold))"
proof -
  let ?db' = "db \<lparr>inv_stock := insert_stock DEMO_INVENTORY_STOCK (inv_stock db)\<rparr>"
  have demo: "\<not> list_ex (\<lambda>(p, n). has_nul p) DEMO_INVENTORY_STOCK" "list_all (\<lambda>(p, n). in_int4 n) DEMO_INVENTORY_STOCK"
    "list_all (\<lambda>(p, n). 0 \<le> n) DEMO_INVENTORY_STOCK" "list_all (\<lambda>(p, n). 0 \<le> n \<and> in_int4 n) DEMO_INVENTORY_STOCK"
    by (simp_all add: DEMO_INVENTORY_STOCK_def has_nul_def in_int4_def)
  have seed: "seedDemoInventoryStock DEMO_INVENTORY_STOCK d = (Inr (), d \<lparr>inv_stock := insert_stock DEMO_INVENTORY_STOCK (inv_stock d)\<rparr>)" for d
    using demo by (simp add: seedDemoInventoryStock_def)
  have inv: "pgi_inv ?db'"
    using assms(1) insert_stock_keeps [OF _ _ demo(4)] by (simp add: pgi_inv_def)
  let ?sold = "deliver_all postgresInventoryTransaction ds ?db'"
  from pgi.deliver_all_products [OF inv assms(2,3)] have "fst ` set (inv_stock ?sold) = fst ` set (inv_stock ?db')"
    by (simp add: pgi_ledger_def dom_map_of_conv_image_fst)
  then have "insert_stock DEMO_INVENTORY_STOCK (inv_stock ?sold) = inv_stock ?sold"
    by (intro insert_stock_known) (simp add: insert_stock_keys)
  then have "seedDemoInventoryStock DEMO_INVENTORY_STOCK ?sold = (Inr (), ?sold)" by (simp add: seed)
  with inv show ?thesis
    by (intro exI [of _ ?db']) (simp add: seed insert_stock_get)
qed

text \<open>A database without the dryers that has sold dishwashers.\<close>

definition sample_catalogue :: InventoryDb where
  "sample_catalogue = \<lparr>inv_stock = [(''washing-machine-01'', 10), (''dishwasher-01'', 0)], inv_reservations = [],
     inv_outbox = inv_outbox sample_inventory_db\<rparr>"

theorem restart_never_restocks_witness:
  "\<exists>db'. seedDemoInventoryStock DEMO_INVENTORY_STOCK sample_catalogue = (Inr (), db')
     \<and> map_of (inv_stock db') ''dishwasher-01'' = Some 0 \<and> map_of (inv_stock db') ''dryer-01'' = Some 3"
proof -
  have inv: "pgi_inv sample_catalogue" by (simp add: pgi_inv_def sample_catalogue_def in_int4_def)
  from restart_never_restocks [OF inv, of "[]"] obtain db' where
    "seedDemoInventoryStock DEMO_INVENTORY_STOCK sample_catalogue = (Inr (), db')"
    "\<forall>p. map_of (inv_stock db') p = (case map_of (inv_stock sample_catalogue) p of Some n \<Rightarrow> Some n | None \<Rightarrow> map_of DEMO_INVENTORY_STOCK p)"
    by auto
  then show ?thesis by (simp add: sample_catalogue_def DEMO_INVENTORY_STOCK_def)
qed

end
