(* ===== verification/CliTimeline.thy ===== *)
theory CliTimeline
  imports OrderStatus JsValue "HOL-Library.Multiset"
begin

text \<open>
  tools/cli/src/timeline.ts: what the developer tools make of the messages they observe on the
  exchange. Messages carry the time at which they were received.
\<close>

section \<open>Observed messages\<close>

record ObservedEnvelope =
  oe_eventId :: string
  oe_eventType :: string
  oe_correlationId :: string
  oe_orderId :: "string option"

record ObservedMessage =
  obs_receivedAt :: int
  obs_routingKey :: string
  obs_envelope :: ObservedEnvelope
  obs_body :: js

definition isRecord :: "js \<Rightarrow> bool" where
  "isRecord v = (case v of JObj _ \<Rightarrow> True | _ \<Rightarrow> False)"

definition readEnvelope :: "js \<Rightarrow> ObservedEnvelope option" where
  "readEnvelope body =
     (if \<not> isRecord body then None
      else case (js_string (js_get body ''eventId''), js_string (js_get body ''eventType'')) of
        (Some eid, Some etype) \<Rightarrow>
          (let data = js_get body ''data''
           in Some \<lparr>oe_eventId = eid, oe_eventType = etype,
                oe_correlationId = (case js_string (js_get body ''correlationId'') of Some c \<Rightarrow> c | None \<Rightarrow> []),
                oe_orderId = (if isRecord data then js_string (js_get data ''orderId'') else None)\<rparr>)
      | _ \<Rightarrow> None)"

definition PRODUCER_BY_EVENT_TYPE :: "(string \<times> string) list" where
  "PRODUCER_BY_EVENT_TYPE =
     [(''OrderCreated'', ''order-service''), (''PaymentAuthorized'', ''payment-service''),
      (''InventoryReserved'', ''inventory-service''), (''InventoryReservationFailed'', ''inventory-service''),
      (''DeliveryBooked'', ''delivery-service'')]"

definition producerOf :: "string \<Rightarrow> string" where
  "producerOf event_type = (case map_of PRODUCER_BY_EVENT_TYPE event_type of Some p \<Rightarrow> p | None \<Rightarrow> ''unknown'')"

section \<open>The timeline of an order\<close>

datatype ObservedOutcome = Delivered | ReservationFailed | Pending

record ObservedEntry =
  en_offsetInMs :: int
  en_producer :: string
  en_eventType :: string
  en_routingKey :: string
  en_eventId :: string
  en_copies :: nat

record ObservedTimeline =
  ot_orderId :: string
  ot_entries :: "ObservedEntry list"
  ot_outcome :: ObservedOutcome

text \<open>\<open>byEventId\<close>, an insertion-ordered map: the first message of an event and how many were seen.\<close>

definition count_message ::
    "string \<Rightarrow> (string, ObservedMessage \<times> nat) jsmap \<Rightarrow> ObservedMessage \<Rightarrow> (string, ObservedMessage \<times> nat) jsmap" where
  "count_message oid byEventId message =
     (if oe_orderId (obs_envelope message) \<noteq> Some oid then byEventId
      else let eid = oe_eventId (obs_envelope message)
           in case map_get byEventId eid of
                Some (first, copies) \<Rightarrow> map_set eid (first, copies + 1) byEventId
              | None \<Rightarrow> map_set eid (message, 1) byEventId)"

definition observed_entry :: "int \<Rightarrow> ObservedMessage \<times> nat \<Rightarrow> ObservedEntry" where
  "observed_entry submittedAt = (\<lambda>(first, copies).
     \<lparr>en_offsetInMs = max 0 (obs_receivedAt first - submittedAt), en_producer = producerOf (oe_eventType (obs_envelope first)),
      en_eventType = oe_eventType (obs_envelope first), en_routingKey = obs_routingKey first,
      en_eventId = oe_eventId (obs_envelope first), en_copies = copies\<rparr>)"

definition determineOutcome :: "string list \<Rightarrow> ObservedOutcome" where
  "determineOutcome event_types =
     (if ''DeliveryBooked'' \<in> set event_types then Delivered
      else if ''InventoryReservationFailed'' \<in> set event_types then ReservationFailed
      else Pending)"

text \<open>\<open>sort\<close> is stable.\<close>

definition buildOrderTimeline :: "string \<Rightarrow> ObservedMessage list \<Rightarrow> int \<Rightarrow> ObservedTimeline" where
  "buildOrderTimeline oid messages submittedAt =
     (let byEventId = foldl (count_message oid) [] messages;
          entries = map (observed_entry submittedAt) (sort_key (\<lambda>(first, copies). obs_receivedAt first) (map snd byEventId))
      in \<lparr>ot_orderId = oid, ot_entries = entries, ot_outcome = determineOutcome (map en_eventType entries)\<rparr>)"

definition padStart :: "nat \<Rightarrow> string \<Rightarrow> string" where
  "padStart n s = replicate (n - length s) CHR '' '' @ s"

definition padEnd :: "nat \<Rightarrow> string \<Rightarrow> string" where
  "padEnd n s = s @ replicate (n - length s) CHR '' ''"

definition format_entry :: "ObservedEntry \<Rightarrow> string" where
  "format_entry entry =
     (let copies = (if 1 < en_copies entry
        then ''  ('' @ nat_text (en_copies entry) @ '' copies of the same event id)'' else [])
      in ''    +'' @ padStart 5 (int_text (en_offsetInMs entry)) @ '' ms  '' @ padEnd 21 (en_producer entry) @
         padEnd 28 (en_eventType entry) @ en_routingKey entry @ copies)"

definition formatTimeline :: "ObservedTimeline \<Rightarrow> string list" where
  "formatTimeline timeline =
     (if ot_entries timeline = [] then [''    (no events observed)''] else map format_entry (ot_entries timeline))"

section \<open>What a timeline counts\<close>

definition of_order :: "string \<Rightarrow> ObservedMessage list \<Rightarrow> ObservedMessage list" where
  "of_order oid messages = filter (\<lambda>m. oe_orderId (obs_envelope m) = Some oid) messages"

definition event_of :: "ObservedMessage \<Rightarrow> string" where
  "event_of m = oe_eventId (obs_envelope m)"

text \<open>The map after some messages: per event its first message and the number of copies.\<close>

definition counts :: "string \<Rightarrow> ObservedMessage list \<Rightarrow> (string, ObservedMessage \<times> nat) jsmap \<Rightarrow> bool" where
  "counts oid messages byEventId \<longleftrightarrow>
     distinct (map_keys byEventId) \<and> set (map_keys byEventId) = event_of ` set (of_order oid messages)
     \<and> (\<forall>eid first copies. map_get byEventId eid = Some (first, copies) \<longrightarrow>
          List.find (\<lambda>m. event_of m = eid) (of_order oid messages) = Some first
          \<and> copies = length (filter (\<lambda>m. event_of m = eid) (of_order oid messages)))"

lemma counts_step:
  assumes "counts oid ms byEventId"
  shows "counts oid (ms @ [m]) (count_message oid byEventId m)"
proof (cases "oe_orderId (obs_envelope m) = Some oid")
  case False
  with assms show ?thesis by (simp add: counts_def count_message_def of_order_def)
next
  case True
  then have snoc: "of_order oid (ms @ [m]) = of_order oid ms @ [m]" by (simp add: of_order_def)
  show ?thesis
  proof (cases "map_get byEventId (event_of m)")
    case None
    then have "event_of m \<notin> event_of ` set (of_order oid ms)" using assms by (simp add: counts_def map_of_eq_None_iff)
    then have "List.find (\<lambda>x. event_of x = event_of m) (of_order oid ms) = None" "filter (\<lambda>x. event_of x = event_of m) (of_order oid ms) = []"
      by (force simp: find_None_iff filter_empty_conv image_iff)+
    with None True assms show ?thesis
      by (auto simp: counts_def count_message_def Let_def event_of_def [symmetric] set_keys_map_set snoc find_append
          split: option.split simp del: set_map)
  next
    case (Some x)
    obtain first copies where x: "x = (first, copies)" by fastforce
    from Some have "event_of m \<in> set (map_keys byEventId)"
      by (metis map_of_eq_None_iff option.distinct(1) set_map)
    with Some x True assms show ?thesis
      by (auto simp: counts_def count_message_def Let_def event_of_def [symmetric] set_keys_map_set snoc find_append
          split: option.split simp del: set_map)
  qed
qed

lemma counts_all: "counts oid messages (foldl (count_message oid) [] messages)"
proof (induction messages rule: rev_induct)
  case Nil
  show ?case by (simp add: counts_def of_order_def)
next
  case (snoc m ms)
  then show ?case using counts_step by simp
qed

lemma counts_total:
  assumes "distinct ks" "set ks = f ` set xs"
  shows "sum_list (map (\<lambda>k. length (filter (\<lambda>x. f x = k) xs)) ks) = length xs"
proof -
  have "length (filter (\<lambda>x. f x = k) xs) = count (image_mset f (mset xs)) k" for k
    by (induction xs) auto
  then have "sum_list (map (\<lambda>k. length (filter (\<lambda>x. f x = k) xs)) ks) = sum (count (image_mset f (mset xs))) (set ks)"
    using assms(1) by (simp add: sum_list_distinct_conv_sum_set)
  also have "\<dots> = size (image_mset f (mset xs))" by (simp only: size_multiset_overloaded_eq assms(2) set_image_mset set_mset_mset)
  finally show ?thesis by simp
qed

lemma sorted_map_mono: "sorted (map f xs) \<Longrightarrow> (\<And>x y. f x \<le> f y \<Longrightarrow> g x \<le> (g y :: int)) \<Longrightarrow> sorted (map g xs)" for f :: "'a \<Rightarrow> int"
  by (induction xs) auto

text \<open>The outcome that the Order service would report.\<close>

fun as_observed :: "OrderOutcome \<Rightarrow> ObservedOutcome" where
  "as_observed Completed = Delivered"
| "as_observed Failed = ReservationFailed"
| "as_observed InProgress = Pending"

definition workflow_text :: "OrderWorkflowEventType \<Rightarrow> string" where
  "workflow_text w = eventType_text (workflow_eventType w)"

lemma workflow_text_inj: "workflow_text v = workflow_text w \<longleftrightarrow> v = w"
  by (simp add: workflow_text_def eventType_text_inj workflow_eventType_inj)

lemma outcome_agrees:
  assumes "one_decision ws" "set types - {''OrderCreated''} = workflow_text ` set ws"
  shows "determineOutcome types = as_observed (getOrderOutcome (apply_all StatusCreated ws))"
proof -
  have mem: "workflow_text w \<in> set types \<longleftrightarrow> w \<in> set ws" for w
  proof -
    have "workflow_text w \<noteq> ''OrderCreated''" by (cases w) (simp_all add: workflow_text_def)
    then have "workflow_text w \<in> set types \<longleftrightarrow> workflow_text w \<in> workflow_text ` set ws" unfolding assms(2) [symmetric] by simp
    then show ?thesis by (auto simp: workflow_text_inj)
  qed
  from mem [of WfDeliveryBooked] mem [of WfInventoryReservationFailed] assms(1) show ?thesis
    by (auto simp: determineOutcome_def apply_all_furthest furthest_def workflow_text_def one_decision_def)
qed

text \<open>
  C36: the observed timeline counts right. It has one entry for every event of the order that was
  observed, in order of time, made of the first message of that event, with the number of messages
  that carried it: no message of the order is left out or counted twice. Its outcome is the one that
  the Order service's status rules give for the same events, in whatever order they were observed.
\<close>

theorem observed_timeline_counts:
  assumes "t = buildOrderTimeline oid messages submittedAt"
  shows "distinct (map en_eventId (ot_entries t)) \<and> set (map en_eventId (ot_entries t)) = event_of ` set (of_order oid messages)
    \<and> (\<forall>entry \<in> set (ot_entries t). \<exists>first. List.find (\<lambda>m. event_of m = en_eventId entry) (of_order oid messages) = Some first
        \<and> entry = observed_entry submittedAt (first, length (filter (\<lambda>m. event_of m = en_eventId entry) (of_order oid messages))))
    \<and> sorted (map en_offsetInMs (ot_entries t))
    \<and> sum_list (map en_copies (ot_entries t)) = length (of_order oid messages)
    \<and> (\<forall>ws. one_decision ws \<and> set (map en_eventType (ot_entries t)) - {''OrderCreated''} = workflow_text ` set ws
        \<longrightarrow> ot_outcome t = as_observed (getOrderOutcome (apply_all StatusCreated ws)))"
proof -
  let ?M = "foldl (count_message oid) [] messages" and ?ms = "of_order oid messages"
  let ?sorted = "sort_key (\<lambda>(first, copies). obs_receivedAt first) (map snd ?M)"
  have c: "counts oid messages ?M" by (rule counts_all)
  have entries: "ot_entries t = map (observed_entry submittedAt) ?sorted" "ot_outcome t = determineOutcome (map en_eventType (ot_entries t))"
    by (simp_all add: assms buildOrderTimeline_def Let_def)
  have good: "List.find (\<lambda>m. event_of m = k) ?ms = Some first \<and> copies = length (filter (\<lambda>m. event_of m = k) ?ms)
      \<and> event_of first = k" if "(k, first, copies) \<in> set ?M" for k first copies
  proof -
    from that c have "map_get ?M k = Some (first, copies)" by (simp add: counts_def)
    with c have "List.find (\<lambda>m. event_of m = k) ?ms = Some first \<and> copies = length (filter (\<lambda>m. event_of m = k) ?ms)"
      unfolding counts_def by blast
    moreover from this have "event_of first = k" by (auto simp: find_Some_iff)
    ultimately show ?thesis by blast
  qed
  have ids: "map (event_of \<circ> fst \<circ> snd) ?M = map_keys ?M"
    using good by (auto intro!: map_cong)
  have id_entry: "en_eventId (observed_entry submittedAt x) = event_of (fst x)" "en_copies (observed_entry submittedAt x) = snd x" for x
    by (simp_all add: observed_entry_def event_of_def split: prod.split)
  have perm: "mset (map en_eventId (ot_entries t)) = mset (map_keys ?M)"
  proof -
    have "mset (map en_eventId (ot_entries t)) = image_mset (event_of \<circ> fst) (mset (map snd ?M))"
      by (simp add: entries(1) id_entry comp_def)
    also have "\<dots> = mset (map_keys ?M)" unfolding ids [symmetric] by (simp add: comp_def multiset.map_comp)
    finally show ?thesis .
  qed
  have distinct: "distinct (map en_eventId (ot_entries t))" and set_ids: "set (map en_eventId (ot_entries t)) = event_of ` set ?ms"
    using c mset_eq_imp_distinct_iff [OF perm] mset_eq_setD [OF perm] by (simp_all add: counts_def)
  have each: "\<exists>first. List.find (\<lambda>m. event_of m = en_eventId entry) ?ms = Some first
        \<and> entry = observed_entry submittedAt (first, length (filter (\<lambda>m. event_of m = en_eventId entry) ?ms))"
    if "entry \<in> set (ot_entries t)" for entry
  proof -
    from that obtain k first copies where "(k, first, copies) \<in> set ?M" "entry = observed_entry submittedAt (first, copies)"
      by (auto simp: entries(1))
    with good [of k first copies] show ?thesis by (auto simp: id_entry)
  qed
  have "map en_copies (ot_entries t) = map (\<lambda>k. length (filter (\<lambda>m. event_of m = k) ?ms)) (map en_eventId (ot_entries t))"
    unfolding map_map
  proof (rule map_cong [OF refl])
    fix entry assume "entry \<in> set (ot_entries t)"
    from each [OF this] show "en_copies entry = ((\<lambda>k. length (filter (\<lambda>m. event_of m = k) ?ms)) \<circ> en_eventId) entry"
      by (metis comp_apply id_entry(2) snd_conv)
  qed
  then have total: "sum_list (map en_copies (ot_entries t)) = length ?ms"
    using counts_total [OF distinct set_ids] by (simp only:)
  have "sorted (map (\<lambda>(first, copies). obs_receivedAt first) ?sorted)" by (rule sorted_sort_key)
  then have "sorted (map (en_offsetInMs \<circ> observed_entry submittedAt) ?sorted)"
    by (rule sorted_map_mono) (auto simp: observed_entry_def)
  then have sorted: "sorted (map en_offsetInMs (ot_entries t))" by (simp add: entries(1))
  from distinct set_ids each sorted total outcome_agrees [of _ "map en_eventType (ot_entries t)"] show ?thesis
    by (auto simp: entries(2))
qed

text \<open>A delivered order whose delivery was announced twice, and a message of another order.\<close>

definition seen :: "int \<Rightarrow> string \<Rightarrow> string \<Rightarrow> string \<Rightarrow> ObservedMessage" where
  "seen at_ms eid etype oid = \<lparr>obs_receivedAt = at_ms, obs_routingKey = ''k'',
     obs_envelope = \<lparr>oe_eventId = eid, oe_eventType = etype, oe_correlationId = ''c'', oe_orderId = Some oid\<rparr>, obs_body = JNull\<rparr>"

definition sample_tap :: "ObservedMessage list" where
  "sample_tap = [seen 5 ''e1'' ''OrderCreated'' ''o1'', seen 9 ''e3'' ''DeliveryBooked'' ''o1'', seen 7 ''e2'' ''PaymentAuthorized'' ''o1'',
     seen 11 ''e3'' ''DeliveryBooked'' ''o1'', seen 12 ''e4'' ''OrderCreated'' ''o2'']"

theorem observed_timeline_counts_witness:
  "let t = buildOrderTimeline ''o1'' sample_tap 6
   in sum_list (map en_copies (ot_entries t)) = 4 \<and> sorted (map en_offsetInMs (ot_entries t)) \<and> ot_outcome t = Delivered"
proof -
  let ?t = "buildOrderTimeline ''o1'' sample_tap 6"
  have "one_decision [WfPaymentAuthorized, WfDeliveryBooked]" by (simp add: one_decision_def)
  moreover have "set (map en_eventType (ot_entries ?t)) - {''OrderCreated''} = workflow_text ` set [WfPaymentAuthorized, WfDeliveryBooked]"
    by (auto simp: buildOrderTimeline_def sample_tap_def seen_def count_message_def observed_entry_def workflow_text_def Let_def)
  moreover have "getOrderOutcome (apply_all StatusCreated [WfPaymentAuthorized, WfDeliveryBooked]) = Completed" by code_simp
  moreover have "length (of_order ''o1'' sample_tap) = 4" by (simp add: of_order_def sample_tap_def seen_def)
  ultimately show ?thesis
    using observed_timeline_counts [of ?t "''o1''" sample_tap 6] by (metis as_observed.simps(1))
qed

end
