(* ===== verification/DeadLetters.thy ===== *)
theory DeadLetters
  imports RabbitMqClient CliTimeline Calendar
begin

text \<open>
  tools/cli/src/deadLetters.ts: inspecting a dead-letter queue and replaying it. The broker is a state
  of the two queues and of what the channel holds unacknowledged; what happens to each call, and what
  else arrives in the dead-letter queue meanwhile, is an argument. \<open>JSON.parse\<close> and the conversion of a
  text by \<open>Number\<close> are parameters.
\<close>

section \<open>Queues\<close>

definition DEAD_LETTER_SUFFIX :: string where "DEAD_LETTER_SUFFIX = ''.dead-letter''"
definition REPLAYED_FROM_HEADER :: string where "REPLAYED_FROM_HEADER = ''x-commerce-flow-replayed-from''"
definition REPLAY_COUNT_HEADER :: string where "REPLAY_COUNT_HEADER = ''x-commerce-flow-replay-count''"

definition CONSUMER_QUEUES :: "string list" where
  "CONSUMER_QUEUES = map queueName COMMERCE_TOPOLOGY"

record QueuePair =
  qp_queueName :: string
  qp_deadLetterQueueName :: string

definition resolveQueuePair :: "string \<Rightarrow> string list \<Rightarrow> js_error + QueuePair" where
  "resolveQueuePair name allowedQueues =
     (let queue = (if endsWith name DEAD_LETTER_SUFFIX then dropEnd (length DEAD_LETTER_SUFFIX) name else name)
      in if queue \<notin> set allowedQueues then
           Inl (JsError (''Unknown queue '' @ [CHR 0x27] @ name @ [CHR 0x27] @ ''. Expected one of: '' @ join '', '' allowedQueues @ ''.''))
         else Inr \<lparr>qp_queueName = queue, qp_deadLetterQueueName = queue @ DEAD_LETTER_SUFFIX\<rparr>)"

section \<open>Numbers and timestamps of headers\<close>

definition Number_js :: "(rat \<Rightarrow> string) \<Rightarrow> (string \<Rightarrow> jsnum) \<Rightarrow> js \<Rightarrow> jsnum" where
  "Number_js num_text string_number v =
     (case v of JNum n \<Rightarrow> n | JBool b \<Rightarrow> Fin (if b then 1 else 0) | JNull \<Rightarrow> Fin 0 | JUndefined \<Rightarrow> NaN
      | JStr s \<Rightarrow> string_number s | _ \<Rightarrow> string_number (String_of num_text v))"

text \<open>\<open>v ?? w\<close>.\<close>

definition nullish :: "js \<Rightarrow> js \<Rightarrow> js" where
  "nullish v w = (if v = JUndefined \<or> v = JNull then w else v)"

text \<open>\<open>new Date(n).toISOString()\<close>: the fraction of a millisecond is cut off.\<close>

definition two_digits :: "int \<Rightarrow> string" where
  "two_digits n = pad_left 2 (nat_text (nat n))"

definition iso_string :: "int \<Rightarrow> string" where
  "iso_string t = (let ms = t mod ms_per_day in date_text (civil_of_days (t div ms_per_day)) @ ''T'' @
     two_digits (ms div 3600000) @ '':'' @ two_digits (ms div 60000 mod 60) @ '':'' @ two_digits (ms div 1000 mod 60) @ ''.'' @
     pad_left 3 (nat_text (nat (ms mod 1000))) @ ''Z'')"

definition trunc_ms :: "jsnum \<Rightarrow> int option" where
  "trunc_ms n = (case n of Fin r \<Rightarrow> time_clip (if 0 \<le> r then \<lfloor>r\<rfloor> else - \<lfloor>- r\<rfloor>) | _ \<Rightarrow> None)"

definition formatAmqpTimestamp :: "js \<Rightarrow> js_error + string option" where
  "formatAmqpTimestamp v =
     (let seconds = (case v of JNum n \<Rightarrow> Some n
        | JObj fs \<Rightarrow> (case js_get v ''value'' of JNum n \<Rightarrow> Some n | _ \<Rightarrow> None) | _ \<Rightarrow> None)
      in case seconds of None \<Rightarrow> Inr None
         | Some n \<Rightarrow> (case trunc_ms (js_mul n (Fin 1000)) of
               None \<Rightarrow> Inl (JsError ''Invalid time value'')
             | Some t \<Rightarrow> Inr (Some (iso_string t))))"

definition optionalString :: "js \<Rightarrow> string option" where
  "optionalString v = (case v of JStr s \<Rightarrow> if s \<noteq> [] then Some s else None | _ \<Rightarrow> None)"

section \<open>Summaries\<close>

text \<open>Headers are \<open>None\<close> where the message has none.\<close>

record DeadLetter =
  dm_content :: string
  dm_messageId :: js
  dm_type :: js
  dm_correlationId :: js
  dm_contentType :: js
  dm_headers :: "log_context option"

record DeathRecord =
  de_reason :: string
  de_queue :: string
  de_count :: jsnum
  de_time :: "string option"
  de_routingKeys :: "string list"

definition readDeathRecord ::
    "(rat \<Rightarrow> string) \<Rightarrow> (string \<Rightarrow> jsnum) \<Rightarrow> log_context option \<Rightarrow> js_error + DeathRecord option" where
  "readDeathRecord num_text string_number headers =
     (case (case headers of None \<Rightarrow> JUndefined | Some h \<Rightarrow> js_get (JObj h) ''x-death'') of
        JArr (latest # _) \<Rightarrow>
          (if \<not> (case latest of JObj _ \<Rightarrow> True | JArr _ \<Rightarrow> True | _ \<Rightarrow> False) then Inr None
           else and_then (formatAmqpTimestamp (js_get latest ''time'')) (\<lambda>time. Inr (Some
             \<lparr>de_reason = String_of num_text (nullish (js_get latest ''reason'') (JStr ''unknown'')),
              de_queue = String_of num_text (nullish (js_get latest ''queue'') (JStr ''unknown'')),
              de_count = Number_js num_text string_number (nullish (js_get latest ''count'') (JNum (Fin 1))),
              de_time = time,
              de_routingKeys = (case js_get latest ''routing-keys'' of JArr ks \<Rightarrow> map (String_of num_text) ks | _ \<Rightarrow> [])\<rparr>)))
      | _ \<Rightarrow> Inr None)"

record DeadLetterSummary =
  ds_messageId :: "string option"
  ds_eventType :: "string option"
  ds_correlationId :: "string option"
  ds_orderId :: "string option"
  ds_replayCount :: jsnum
  ds_death :: "DeathRecord option"
  ds_sizeInBytes :: nat

text \<open>\<open>a ?? b\<close> on optional values.\<close>

definition or_else :: "'a option \<Rightarrow> 'a option \<Rightarrow> 'a option" where
  "or_else a b = (case a of None \<Rightarrow> b | Some x \<Rightarrow> Some x)"

definition replay_count :: "(rat \<Rightarrow> string) \<Rightarrow> (string \<Rightarrow> jsnum) \<Rightarrow> log_context \<Rightarrow> jsnum" where
  "replay_count num_text string_number headers =
     Number_js num_text string_number (nullish (js_get (JObj headers) REPLAY_COUNT_HEADER) (JNum (Fin 0)))"

definition summarizeDeadLetter ::
    "(rat \<Rightarrow> string) \<Rightarrow> (string \<Rightarrow> jsnum) \<Rightarrow> (string \<Rightarrow> js option) \<Rightarrow> DeadLetter \<Rightarrow> js_error + DeadLetterSummary" where
  "summarizeDeadLetter num_text string_number json_parse message =
     (let body = (case json_parse (dm_content message) of None \<Rightarrow> JUndefined | Some v \<Rightarrow> v);
          envelope = readEnvelope body;
          headers = (case dm_headers message of None \<Rightarrow> [] | Some h \<Rightarrow> h)
      in and_then (readDeathRecord num_text string_number (Some headers)) (\<lambda>death. Inr
        \<lparr>ds_messageId = or_else (optionalString (dm_messageId message)) (map_option oe_eventId envelope),
         ds_eventType = or_else (optionalString (dm_type message)) (map_option oe_eventType envelope),
         ds_correlationId = or_else (optionalString (dm_correlationId message)) (map_option oe_correlationId envelope),
         ds_orderId = (case envelope of None \<Rightarrow> None | Some e \<Rightarrow> oe_orderId e),
         ds_replayCount = replay_count num_text string_number headers,
         ds_death = death, ds_sizeInBytes = length (dm_content message)\<rparr>))"

text \<open>The headers of a replayed message: the broker's bookkeeping goes, the replay is recorded.\<close>

definition death_header :: "string \<Rightarrow> bool" where
  "death_header k = (k = ''x-death'' \<or> startsWith k ''x-first-death-'' \<or> startsWith k ''x-last-death-'')"

definition replayHeaders :: "log_context option \<Rightarrow> string \<Rightarrow> jsnum \<Rightarrow> log_context" where
  "replayHeaders headers deadLetterQueue previousReplayCount =
     (let kept = foldl (\<lambda>m (k, v). if death_header k then m else map_set k v m) [] (case headers of None \<Rightarrow> [] | Some h \<Rightarrow> h)
      in map_set REPLAY_COUNT_HEADER (JNum (js_add previousReplayCount (Fin 1)))
           (map_set REPLAYED_FROM_HEADER (JStr deadLetterQueue) kept))"

section \<open>The broker as the tool sees it\<close>

text \<open>
  \<open>dq_ready\<close> is the dead-letter queue, \<open>dq_unacked\<close> what the channel has fetched and not settled, and
  \<open>dq_target\<close> what has been routed to the consumer queue; \<open>dq_replayed\<close> are the calls of \<open>onReplayed\<close>. A channel that closes returns what it holds
  to the front of the queue, in its order.
\<close>

record dlq_state =
  dq_ready :: "DeadLetter list"
  dq_unacked :: "DeadLetter list"
  dq_target :: "DeadLetter list"
  dq_replayed :: "DeadLetterSummary list"

definition close_channel :: "dlq_state \<Rightarrow> dlq_state" where
  "close_channel s = s \<lparr>dq_ready := dq_unacked s @ dq_ready s, dq_unacked := []\<rparr>"

text \<open>
  What a publication comes to: routed and confirmed, returned as unroutable, or the connection is lost
  while its confirm is awaited, with the broker having taken it or not.
\<close>

datatype publish_fate = Routed | ReturnedUnroutable | ConfirmLost js_error bool

record replay_env =
  rp_check :: "nat \<Rightarrow> js_error option"
  rp_get :: "nat \<Rightarrow> js_error option"
  rp_publish :: "nat \<Rightarrow> publish_fate"
  rp_arrivals :: "nat \<Rightarrow> DeadLetter list"

record message_lib =
  ml_num_text :: "rat \<Rightarrow> string"
  ml_string_number :: "string \<Rightarrow> jsnum"
  ml_json_parse :: "string \<Rightarrow> js option"

definition summarize :: "message_lib \<Rightarrow> DeadLetter \<Rightarrow> js_error + DeadLetterSummary" where
  "summarize lib = summarizeDeadLetter (ml_num_text lib) (ml_string_number lib) (ml_json_parse lib)"

definition arrive :: "DeadLetter list \<Rightarrow> dlq_state \<Rightarrow> dlq_state" where
  "arrive ms s = s \<lparr>dq_ready := dq_ready s @ ms\<rparr>"

text \<open>The loop of \<open>inspectDeadLetters\<close>: at most n more messages; k counts the calls of \<open>get\<close>.\<close>

fun inspect_loop :: "message_lib \<Rightarrow> replay_env \<Rightarrow> nat \<Rightarrow> nat \<Rightarrow> (dlq_state, DeadLetterSummary list) io" where
  "inspect_loop lib env 0 k s = (Inr [], s)"
| "inspect_loop lib env (Suc n) k s0 =
     (let s = arrive (rp_arrivals env k) s0
      in case rp_get env k of
           Some e \<Rightarrow> (Inl e, s)
         | None \<Rightarrow>
             (case dq_ready s of
                [] \<Rightarrow> (Inr [], s)
              | m # rest \<Rightarrow>
                  (let s1 = s \<lparr>dq_ready := rest, dq_unacked := dq_unacked s @ [m]\<rparr>
                   in case summarize lib m of
                        Inl e \<Rightarrow> (Inl e, s1)
                      | Inr summary \<Rightarrow>
                          (case inspect_loop lib env n (Suc k) s1 of
                             (Inl e, s2) \<Rightarrow> (Inl e, s2)
                           | (Inr summaries, s2) \<Rightarrow> (Inr (summary # summaries), s2)))))"

definition default_inspect_limit :: int where "default_inspect_limit = 20"

text \<open>The inspection's total and its summaries.\<close>

definition inspectDeadLetters ::
    "message_lib \<Rightarrow> replay_env \<Rightarrow> int \<Rightarrow> (dlq_state, nat \<times> DeadLetterSummary list) io" where
  "inspectDeadLetters lib env limit s =
     (case rp_check env 0 of
        Some e \<Rightarrow> (Inl e, close_channel s)
      | None \<Rightarrow>
          (let messageCount = length (dq_ready s)
           in case inspect_loop lib env (nat (min limit (int messageCount))) 0 s of
                (Inl e, s') \<Rightarrow> (Inl e, close_channel s')
              | (Inr summaries, s') \<Rightarrow> (Inr (messageCount, summaries), close_channel s')))"

section \<open>Replay\<close>

definition replay_copy :: "message_lib \<Rightarrow> QueuePair \<Rightarrow> DeadLetter \<Rightarrow> DeadLetter" where
  "replay_copy lib queue m = m \<lparr>dm_headers := Some (replayHeaders (dm_headers m) (qp_deadLetterQueueName queue)
     (replay_count (ml_num_text lib) (ml_string_number lib) (case dm_headers m of None \<Rightarrow> [] | Some h \<Rightarrow> h)))\<rparr>"

definition unroutable_error :: "QueuePair \<Rightarrow> js_error" where
  "unroutable_error queue = JsError (''The broker could not route the message to '' @ [CHR 0x27] @ qp_queueName queue @ [CHR 0x27] @ ''.'')"

text \<open>The loop of \<open>replayDeadLetters\<close>, with n = \<open>maximum - replayed\<close> and k = \<open>replayed\<close>.\<close>

fun replay_loop :: "message_lib \<Rightarrow> replay_env \<Rightarrow> QueuePair \<Rightarrow> nat \<Rightarrow> nat \<Rightarrow> (dlq_state, DeadLetterSummary list) io" where
  "replay_loop lib env queue 0 k s = (Inr [], s)"
| "replay_loop lib env queue (Suc n) k s0 =
     (let s = arrive (rp_arrivals env k) s0
      in case rp_get env k of
           Some e \<Rightarrow> (Inl e, s)
         | None \<Rightarrow>
             (case dq_ready s of
                [] \<Rightarrow> (Inr [], s)
              | m # rest \<Rightarrow>
                  (let s1 = s \<lparr>dq_ready := rest, dq_unacked := dq_unacked s @ [m]\<rparr>;
                       taken = s1 \<lparr>dq_target := dq_target s1 @ [replay_copy lib queue m]\<rparr>
                   in case summarize lib m of
                        Inl e \<Rightarrow> (Inl e, s1)
                      | Inr summary \<Rightarrow>
                          (case rp_publish env k of
                             ConfirmLost e routed \<Rightarrow> (Inl e, if routed then taken else s1)
                           | ReturnedUnroutable \<Rightarrow>
                               (Inl (unroutable_error queue), s1 \<lparr>dq_ready := m # rest, dq_unacked := dq_unacked s\<rparr>)
                           | Routed \<Rightarrow>
                               (case replay_loop lib env queue n (Suc k) (taken \<lparr>dq_unacked := dq_unacked s, dq_replayed := dq_replayed s @ [summary]\<rparr>) of
                                  (Inl e, s2) \<Rightarrow> (Inl e, s2)
                                | (Inr summaries, s2) \<Rightarrow> (Inr (summary # summaries), s2))))))"

record ReplayResult =
  rr_replayed :: nat
  rr_remaining :: nat
  rr_summaries :: "DeadLetterSummary list"

definition replayDeadLetters ::
    "message_lib \<Rightarrow> replay_env \<Rightarrow> QueuePair \<Rightarrow> int option \<Rightarrow> (dlq_state, ReplayResult) io" where
  "replayDeadLetters lib env queue limit s =
     (case (rp_check env 0, rp_check env 1) of
        (Some e, _) \<Rightarrow> (Inl e, close_channel s)
      | (None, Some e) \<Rightarrow> (Inl e, close_channel s)
      | (None, None) \<Rightarrow>
          (let messageCount = int (length (dq_ready s));
               maximum = min (case limit of None \<Rightarrow> messageCount | Some n \<Rightarrow> n) messageCount
           in case replay_loop lib env queue (nat maximum) 0 s of
                (Inl e, s') \<Rightarrow> (Inl e, close_channel s')
              | (Inr summaries, s') \<Rightarrow>
                  (case rp_check env 2 of
                     Some e \<Rightarrow> (Inl e, close_channel s')
                   | None \<Rightarrow> (Inr \<lparr>rr_replayed = length summaries, rr_remaining = length (dq_ready s'), rr_summaries = summaries\<rparr>,
                       close_channel s'))))"

section \<open>Nothing is lost\<close>

lemma inspect_loop_returns:
  "inspect_loop lib env n k s = (r, s') \<Longrightarrow> \<exists>arrived. dq_unacked s' @ dq_ready s' = dq_unacked s @ dq_ready s @ arrived \<and> dq_target s' = dq_target s"
proof (induction n arbitrary: k s r s')
  case (Suc n)
  show ?case
  proof (cases "rp_get env k")
    case None
    note get = this
    show ?thesis
    proof (cases "dq_ready (arrive (rp_arrivals env k) s)")
      case Nil
      with None Suc.prems show ?thesis by (auto simp: arrive_def Let_def)
    next
      case (Cons m rest)
      let ?s1 = "arrive (rp_arrivals env k) s \<lparr>dq_ready := rest, dq_unacked := dq_unacked (arrive (rp_arrivals env k) s) @ [m]\<rparr>"
      have s1: "dq_unacked ?s1 @ dq_ready ?s1 = dq_unacked s @ dq_ready s @ rp_arrivals env k" "dq_target ?s1 = dq_target s"
        using Cons by (simp_all add: arrive_def)
      show ?thesis
      proof (cases "summarize lib m")
        case (Inl e)
        with None Cons Suc.prems s1 show ?thesis by (auto simp: Let_def)
      next
        case (Inr summary)
        obtain q s2 where rec: "inspect_loop lib env n (Suc k) ?s1 = (q, s2)" by fastforce
        from Suc.IH [OF rec] s1 obtain arrived where "dq_unacked s2 @ dq_ready s2 = dq_unacked s @ dq_ready s @ arrived" "dq_target s2 = dq_target s"
          by (metis append.assoc)
        moreover have "s' = s2" using Suc.prems get Cons Inr rec by (simp add: Let_def split: sum.splits)
        ultimately show ?thesis by blast
      qed
    qed
  qed (use Suc.prems in \<open>auto simp: arrive_def Let_def\<close>)
qed simp

text \<open>
  How far a replay of at most n messages got: j of them moved, the rest still first in the queue, and at
  most one more copy routed, of the message whose confirm was lost.
\<close>

definition moved :: "message_lib \<Rightarrow> QueuePair \<Rightarrow> nat \<Rightarrow> nat \<Rightarrow> dlq_state \<Rightarrow> js_error + 'r \<Rightarrow> dlq_state \<Rightarrow> bool" where
  "moved lib queue n j s r s' \<longleftrightarrow> j \<le> n
     \<and> (\<exists>arrived. dq_unacked s' @ dq_ready s' = drop j (dq_ready s) @ arrived)
     \<and> (\<exists>extra. dq_target s' = dq_target s @ map (replay_copy lib queue) (take j (dq_ready s)) @ extra
          \<and> (extra = [] \<or> (\<exists>e. r = Inl e) \<and> j < n \<and> extra = [replay_copy lib queue (dq_ready s ! j)]))
     \<and> (\<forall>x. r = Inr x \<longrightarrow> j = n)"

lemma moved_first:
  assumes "moved lib queue n j s1 r s'" "dq_ready s1 = rest @ arrived" "dq_target s1 = dq_target s @ [replay_copy lib queue m]"
    "dq_ready s = m # rest" "n \<le> length rest" "\<And>x. r' = Inr x \<Longrightarrow> \<exists>y. r = Inr y" "\<And>e. r = Inl e \<Longrightarrow> r' = Inl e"
  shows "moved lib queue (Suc n) (Suc j) s r' s'"
proof -
  from assms(1) have j: "j \<le> n" and all: "\<And>x. r = Inr x \<Longrightarrow> j = n" by (auto simp: moved_def)
  from assms(1) obtain arrived' where rest: "dq_unacked s' @ dq_ready s' = drop j (rest @ arrived) @ arrived'"
    by (auto simp: moved_def assms(2))
  from assms(1) obtain extra where target: "dq_target s' = dq_target s @ [replay_copy lib queue m] @ map (replay_copy lib queue) (take j (rest @ arrived)) @ extra"
    "extra = [] \<or> (\<exists>e. r = Inl e) \<and> j < n \<and> extra = [replay_copy lib queue ((rest @ arrived) ! j)]"
    by (auto simp: moved_def assms(2,3))
  from rest j assms(4,5) have "\<exists>arrived''. dq_unacked s' @ dq_ready s' = drop (Suc j) (dq_ready s) @ arrived''" by auto
  moreover have "dq_target s' = dq_target s @ map (replay_copy lib queue) (take (Suc j) (dq_ready s)) @ extra"
    using target(1) j assms(4,5) by simp
  moreover have "extra = [] \<or> (\<exists>e. r' = Inl e) \<and> Suc j < Suc n \<and> extra = [replay_copy lib queue (dq_ready s ! Suc j)]"
    using target(2) assms(4,5,7) j by (auto simp: nth_append)
  ultimately show ?thesis using j all assms(6) by (auto simp: moved_def)
qed

lemma replay_loop_moved:
  "\<lbrakk>replay_loop lib env queue n k s = (r, s'); dq_unacked s = []; n \<le> length (dq_ready s)\<rbrakk>
    \<Longrightarrow> \<exists>j. moved lib queue n j s r s' \<and> (\<forall>xs. r = Inr xs \<longrightarrow> length xs = n \<and> dq_unacked s' = [])"
proof (induction n arbitrary: k s r s')
  case 0
  then show ?case by (auto simp: moved_def)
next
  case (Suc n)
  from Suc.prems(3) obtain m rest where ready: "dq_ready s = m # rest" "n \<le> length rest" by (cases "dq_ready s") auto
  let ?arr = "rp_arrivals env k"
  let ?s = "arrive ?arr s"
  let ?s1 = "?s \<lparr>dq_ready := rest @ ?arr, dq_unacked := dq_unacked ?s @ [m]\<rparr>"
  let ?taken = "?s1 \<lparr>dq_target := dq_target ?s1 @ [replay_copy lib queue m]\<rparr>"
  have fields: "dq_ready ?s = m # rest @ ?arr" "dq_unacked ?s = []" "dq_target ?s = dq_target s"
    using ready Suc.prems(2) by (simp_all add: arrive_def)
  have stop: "\<exists>j. moved lib queue (Suc n) j s (Inl e) t \<and> (\<forall>xs. (Inl e :: js_error + DeadLetterSummary list) = Inr xs \<longrightarrow> length xs = Suc n \<and> dq_unacked t = [])"
    if "dq_unacked t @ dq_ready t = m # rest @ ?arr" "dq_target t = dq_target s \<or> dq_target t = dq_target s @ [replay_copy lib queue m]" for e t
    using that ready by (auto simp: moved_def intro!: exI [of _ 0])
  show ?case
  proof (cases "rp_get env k")
    case (Some e)
    with Suc.prems(1) have "r = Inl e" "s' = ?s" by (simp_all add: Let_def)
    with stop [of ?s e] fields show ?thesis by simp
  next
    case None
    note get = this
    show ?thesis
    proof (cases "summarize lib m")
      case (Inl e)
      with get Suc.prems(1) have "r = Inl e" "s' = ?s1" by (simp_all add: Let_def fields)
      with stop [of ?s1 e] fields show ?thesis by simp
    next
      case (Inr summary)
      note sum = this
      show ?thesis
      proof (cases "rp_publish env k")
        case (ConfirmLost e routed)
        with sum get Suc.prems(1) have "r = Inl e" "s' = (if routed then ?taken else ?s1)" by (auto simp: Let_def fields)
        with stop [of s' e] fields show ?thesis by (cases routed) simp_all
      next
        case ReturnedUnroutable
        with sum get Suc.prems(1) have "r = Inl (unroutable_error queue)"
          "s' = ?s1 \<lparr>dq_ready := m # rest @ ?arr, dq_unacked := dq_unacked ?s\<rparr>" by (simp_all add: Let_def fields)
        with stop [of s' "unroutable_error queue"] fields show ?thesis by simp
      next
        case Routed
        let ?next = "?taken \<lparr>dq_unacked := dq_unacked ?s, dq_replayed := dq_replayed ?s @ [summary]\<rparr>"
        obtain q s2 where rec: "replay_loop lib env queue n (Suc k) ?next = (q, s2)" by fastforce
        have "dq_unacked ?next = []" "n \<le> length (dq_ready ?next)" using fields ready(2) by simp_all
        from Suc.IH [OF rec this] obtain j where j: "moved lib queue n j ?next q s2"
          "\<forall>xs. q = Inr xs \<longrightarrow> length xs = n \<and> dq_unacked s2 = []" by blast
        have res: "r = (case q of Inl e \<Rightarrow> Inl e | Inr xs \<Rightarrow> Inr (summary # xs))" "s' = s2"
          using Suc.prems(1) sum get Routed rec by (cases q; auto simp: Let_def fields)+
        have "moved lib queue (Suc n) (Suc j) s r s2"
          by (rule moved_first [OF j(1)]) (use fields ready res in \<open>auto split: sum.splits\<close>)
        with j(2) res show ?thesis by (auto split: sum.splits)
      qed
    qed
  qed
qed

section \<open>What a replayed message carries\<close>

lemma kept_headers:
  "map_of (foldl (\<lambda>m (k, v). if death_header k then m else map_set k v m) m0 h) key =
     (if death_header key then map_of m0 key else case map_of (rev h) key of Some v \<Rightarrow> Some v | None \<Rightarrow> map_of m0 key)"
proof (induction h arbitrary: m0)
  case (Cons x h)
  obtain k v where x: "x = (k, v)" by (cases x)
  show ?case using Cons.IH by (auto simp: x map_add_def split: option.split)
qed simp

lemma replay_headers_get:
  "js_get (JObj (replayHeaders headers dlq n)) k =
     (if k = REPLAY_COUNT_HEADER then JNum (js_add n (Fin 1))
      else if k = REPLAYED_FROM_HEADER then JStr dlq
      else if death_header k then JUndefined
      else case map_of (rev (case headers of None \<Rightarrow> [] | Some h \<Rightarrow> h)) k of Some v \<Rightarrow> v | None \<Rightarrow> JUndefined)"
  by (auto simp: replayHeaders_def Let_def kept_headers split: option.split)

lemma copy_count:
  "replay_count nt sn (the (dm_headers (replay_copy lib queue m))) =
     js_add (replay_count (ml_num_text lib) (ml_string_number lib) (case dm_headers m of None \<Rightarrow> [] | Some h \<Rightarrow> h)) (Fin 1)"
  by (simp add: replay_count_def replay_copy_def replay_headers_get nullish_def Number_js_def del: js_get_simps)

lemma copy_death: "readDeathRecord nt sn (dm_headers (replay_copy lib queue m)) = Inr None"
proof -
  obtain hs where hs: "dm_headers (replay_copy lib queue m) = Some hs" "js_get (JObj hs) ''x-death'' = JUndefined"
    by (simp add: replay_copy_def replay_headers_get REPLAY_COUNT_HEADER_def REPLAYED_FROM_HEADER_def death_header_def del: js_get_simps)
  show ?thesis unfolding readDeathRecord_def hs(1) option.case hs(2) by simp
qed

lemma close_unacked: "dq_unacked (close_channel s) @ dq_ready (close_channel s) = dq_unacked s @ dq_ready s"
  "dq_target (close_channel s) = dq_target s" "dq_unacked (close_channel s) = []"
  by (simp_all add: close_channel_def)

section \<open>Inspection and replay\<close>

lemma inspect_keeps:
  assumes "inspectDeadLetters lib env limit s = (r, s')" "dq_unacked s = []"
  shows "\<exists>arrived. dq_ready s' = dq_ready s @ arrived \<and> dq_unacked s' = [] \<and> dq_target s' = dq_target s"
proof (cases "rp_check env 0")
  case None
  obtain q t where loop: "inspect_loop lib env (nat (min limit (int (length (dq_ready s))))) 0 s = (q, t)" by fastforce
  from inspect_loop_returns [OF loop] assms(2) obtain arrived where "dq_unacked t @ dq_ready t = dq_ready s @ arrived" "dq_target t = dq_target s" by auto
  moreover have "s' = close_channel t" using assms(1) None loop by (auto simp: inspectDeadLetters_def Let_def split: sum.splits)
  ultimately show ?thesis by (auto simp: close_channel_def)
qed (use assms in \<open>auto simp: inspectDeadLetters_def close_channel_def\<close>)

lemma replay_moved:
  assumes "replayDeadLetters lib env queue limit s = (r, s')" "dq_unacked s = []"
    "n = nat (min (case limit of None \<Rightarrow> int (length (dq_ready s)) | Some l \<Rightarrow> l) (int (length (dq_ready s))))"
  shows "\<exists>j. moved lib queue n j s r s' \<and> dq_unacked s' = []
    \<and> (\<forall>result. r = Inr result \<longrightarrow> rr_replayed result = j \<and> j = n \<and> rr_remaining result = length (dq_ready s'))
    \<or> (\<exists>e. r = Inl e) \<and> moved lib queue n j s (Inl e0 :: js_error + ReplayResult) s' \<and> dq_unacked s' = []"
proof -
  have closed: "moved lib queue n j s q (close_channel t) = moved lib queue n j s q t" for j and q :: "js_error + 'z" and t
    unfolding moved_def close_unacked(1,2) ..
  have start: "moved lib queue n 0 s (Inl e0 :: js_error + ReplayResult) s" using assms(2) by (auto simp: moved_def)
  show ?thesis
  proof (cases "rp_check env 0 = None \<and> rp_check env 1 = None")
    case False
    with assms(1) have "\<exists>e. r = Inl e" "s' = close_channel s"
      by (auto simp: replayDeadLetters_def split: option.splits)
    with start closed [of 0 "Inl e0" s] show ?thesis by (auto simp: close_unacked)
  next
    case True
    obtain q t where loop: "replay_loop lib env queue n 0 s = (q, t)" by fastforce
    have "n \<le> length (dq_ready s)" by (simp add: assms(3))
    from replay_loop_moved [OF loop assms(2) this] obtain j where j: "moved lib queue n j s q t"
      "\<forall>xs. q = Inr xs \<longrightarrow> length xs = n \<and> dq_unacked t = []" by blast
    have s': "s' = close_channel t"
      using assms(1) True loop by (auto simp: replayDeadLetters_def Let_def assms(3) [symmetric] split: sum.splits option.splits)
    have retype: "moved lib queue n j s (Inl e0 :: js_error + ReplayResult) t"
      using j(1) by (auto simp: moved_def)
    show ?thesis
    proof (cases "\<exists>result. r = Inr result")
      case False
      then have "\<exists>e. r = Inl e" by (cases r) auto
      with retype closed [of j "Inl e0" t] s' show ?thesis by (auto simp: close_unacked)
    next
      case True
      then obtain result where r: "r = Inr result" by blast
      with assms(1) loop \<open>rp_check env 0 = None \<and> rp_check env 1 = None\<close> obtain xs where xs: "q = Inr xs"
        "rr_replayed result = length xs" "rr_remaining result = length (dq_ready t)"
        by (auto simp: replayDeadLetters_def Let_def assms(3) [symmetric] split: sum.splits option.splits)
      with j have "j = n" "dq_unacked t = []" "length xs = n" by (auto simp: moved_def)
      moreover have "moved lib queue n j s r t" using j(1) xs(1) r by (auto simp: moved_def)
      moreover have "dq_ready s' = dq_ready t" using s' \<open>dq_unacked t = []\<close> by (simp add: close_channel_def)
      ultimately show ?thesis using xs r s' closed [of j r t] by (auto simp: close_unacked)
    qed
  qed
qed

text \<open>
  C40: the dead-letter tools lose no message. For a queue the tool accepts, which is a consumer queue of
  the topology with the dead-letter queue that the client declared for it: whatever fails and whatever
  arrives in between, after a replay some j messages from the front have been moved to the consumer
  queue in their order, the others are still there in front of what arrived, and at most one more copy
  was routed, of the next message, when its confirm was lost. A replay that returns moved exactly the
  messages it may (all that were there at the start, or the limit), however many arrive meanwhile, and
  reports that. A copy carries one replay more and no trace of the earlier death. Inspecting changes
  nothing.
\<close>

theorem replay_loses_nothing:
  assumes "resolveQueuePair name CONSUMER_QUEUES = Inr queue" "dq_unacked s = []"
    and "replayDeadLetters lib env queue limit s = (r, s')" "inspectDeadLetters lib env' limit' s = (r', s'')"
  shows "(\<exists>q \<in> set COMMERCE_TOPOLOGY. qp_queueName queue = queueName q \<and> qp_deadLetterQueueName queue = deadLetterQueueName (queueName q))
    \<and> (\<exists>j arrived extra. j \<le> length (dq_ready s) \<and> dq_ready s' = drop j (dq_ready s) @ arrived \<and> dq_unacked s' = []
        \<and> dq_target s' = dq_target s @ map (replay_copy lib queue) (take j (dq_ready s)) @ extra
        \<and> (case r of
             Inl e \<Rightarrow> extra = [] \<or> (j < length (dq_ready s) \<and> extra = [replay_copy lib queue (dq_ready s ! j)])
           | Inr result \<Rightarrow> extra = [] \<and> rr_replayed result = j \<and> rr_remaining result = length (dq_ready s')
               \<and> j = nat (min (case limit of None \<Rightarrow> int (length (dq_ready s)) | Some l \<Rightarrow> l) (int (length (dq_ready s))))))
    \<and> (\<forall>m. readDeathRecord nt sn (dm_headers (replay_copy lib queue m)) = Inr None
        \<and> replay_count nt sn (the (dm_headers (replay_copy lib queue m)))
          = js_add (replay_count (ml_num_text lib) (ml_string_number lib) (case dm_headers m of None \<Rightarrow> [] | Some h \<Rightarrow> h)) (Fin 1))
    \<and> (\<exists>arrived. dq_ready s'' = dq_ready s @ arrived \<and> dq_unacked s'' = [] \<and> dq_target s'' = dq_target s)"
proof -
  have pair: "\<exists>q \<in> set COMMERCE_TOPOLOGY. qp_queueName queue = queueName q \<and> qp_deadLetterQueueName queue = deadLetterQueueName (queueName q)"
    using assms(1) by (auto simp: resolveQueuePair_def CONSUMER_QUEUES_def Let_def deadLetterQueueName_def DEAD_LETTER_SUFFIX_def split: if_splits)
  define n where "n = nat (min (case limit of None \<Rightarrow> int (length (dq_ready s)) | Some l \<Rightarrow> l) (int (length (dq_ready s))))"
  have n: "n \<le> length (dq_ready s)" by (simp add: n_def)
  from replay_moved [OF assms(3,2) n_def, of undefined] obtain j where j:
    "moved lib queue n j s r s' \<and> (\<forall>result. r = Inr result \<longrightarrow> rr_replayed result = j \<and> j = n \<and> rr_remaining result = length (dq_ready s'))
     \<or> (\<exists>e. r = Inl e) \<and> moved lib queue n j s (Inl undefined :: js_error + ReplayResult) s'" "dq_unacked s' = []" by blast
  have replayed: "\<exists>j arrived extra. j \<le> length (dq_ready s) \<and> dq_ready s' = drop j (dq_ready s) @ arrived \<and> dq_unacked s' = []
        \<and> dq_target s' = dq_target s @ map (replay_copy lib queue) (take j (dq_ready s)) @ extra
        \<and> (case r of
             Inl e \<Rightarrow> extra = [] \<or> (j < length (dq_ready s) \<and> extra = [replay_copy lib queue (dq_ready s ! j)])
           | Inr result \<Rightarrow> extra = [] \<and> rr_replayed result = j \<and> rr_remaining result = length (dq_ready s') \<and> j = n)"
  proof (cases r)
    case (Inl e)
    with j have "moved lib queue n j s (Inl undefined :: js_error + ReplayResult) s'" by (auto simp: moved_def)
    with j(2) n Inl show ?thesis by (intro exI [of _ j]) (auto simp: moved_def)
  next
    case (Inr result)
    with j n show ?thesis by (intro exI [of _ j]) (auto simp: moved_def)
  qed
  with pair replayed copy_death copy_count inspect_keeps [OF assms(4,2)] show ?thesis unfolding n_def by blast
qed


lemma replay_loses_nothing_witness:
  "let letter = \<lparr>dm_content = ''x'', dm_messageId = JStr ''m'', dm_type = JStr ''OrderCreated'', dm_correlationId = JStr ''c'',
       dm_contentType = JUndefined, dm_headers = Some [(''x-death'', JArr [])]\<rparr>;
       s = \<lparr>dq_ready = [letter, letter], dq_unacked = [], dq_target = [], dq_replayed = []\<rparr>;
       lib = \<lparr>ml_num_text = (\<lambda>_. ''''), ml_string_number = (\<lambda>_. NaN), ml_json_parse = (\<lambda>_. None)\<rparr>;
       env = \<lparr>rp_check = (\<lambda>_. None), rp_get = (\<lambda>_. None), rp_publish = (\<lambda>_. Routed), rp_arrivals = (\<lambda>_. [])\<rparr>;
       queue = \<lparr>qp_queueName = ''payment-service.order-created'', qp_deadLetterQueueName = ''payment-service.order-created.dead-letter''\<rparr>;
       s' = snd (replayDeadLetters lib env queue (Some 1) s)
     in dq_ready s' = [letter] \<and> length (dq_target s') = 1 \<and> resolveQueuePair ''payment-service.order-created'' CONSUMER_QUEUES = Inr queue
       \<and> (\<exists>arrived. dq_ready (snd (inspectDeadLetters lib env 20 s)) = dq_ready s @ arrived)"
proof -
  define letter where "letter = \<lparr>dm_content = ''x'', dm_messageId = JStr ''m'', dm_type = JStr ''OrderCreated'', dm_correlationId = JStr ''c'',
       dm_contentType = JUndefined, dm_headers = Some [(''x-death'', JArr [])]\<rparr>"
  define s where "s = \<lparr>dq_ready = [letter, letter], dq_unacked = [], dq_target = [], dq_replayed = []\<rparr>"
  define lib where "lib = \<lparr>ml_num_text = (\<lambda>_. ''''), ml_string_number = (\<lambda>_. NaN), ml_json_parse = (\<lambda>_. None)\<rparr>"
  define env where "env = \<lparr>rp_check = (\<lambda>_. None), rp_get = (\<lambda>_. None), rp_publish = (\<lambda>_. Routed), rp_arrivals = (\<lambda>_. [])\<rparr>"
  define queue where "queue = \<lparr>qp_queueName = ''payment-service.order-created'', qp_deadLetterQueueName = ''payment-service.order-created.dead-letter''\<rparr>"
  have pair: "resolveQueuePair ''payment-service.order-created'' CONSUMER_QUEUES = Inr queue" unfolding queue_def by code_simp
  have r: "\<exists>summaries. replayDeadLetters lib env queue (Some 1) s
      = (Inr \<lparr>rr_replayed = 1, rr_remaining = 1, rr_summaries = summaries\<rparr>, snd (replayDeadLetters lib env queue (Some 1) s))"
    unfolding lib_def env_def queue_def s_def letter_def
    by (simp add: replayDeadLetters_def summarize_def summarizeDeadLetter_def readDeathRecord_def Let_def arrive_def numeral_eq_Suc)
  then obtain summaries where r: "replayDeadLetters lib env queue (Some 1) s
      = (Inr \<lparr>rr_replayed = 1, rr_remaining = 1, rr_summaries = summaries\<rparr>, snd (replayDeadLetters lib env queue (Some 1) s))" by blast
  have "dq_unacked s = []" by (simp add: s_def)
  from replay_loses_nothing [OF pair this r, of env 20 "fst (inspectDeadLetters lib env 20 s)" "snd (inspectDeadLetters lib env 20 s)" "\<lambda>_. []" "\<lambda>_. NaN"]
  have "dq_ready (snd (replayDeadLetters lib env queue (Some 1) s)) = [letter]"
    "length (dq_target (snd (replayDeadLetters lib env queue (Some 1) s))) = 1"
    "\<exists>arrived. dq_ready (snd (inspectDeadLetters lib env 20 s)) = dq_ready s @ arrived"
    by (auto simp: s_def)
  with pair show ?thesis unfolding letter_def s_def lib_def env_def queue_def Let_def by blast
qed

end
