(* ===== verification/Services.thy ===== *)
theory Services
  imports Workflow RabbitMqClient ServiceHost InventoryApp
begin

text \<open>
  The composition roots, services/*/src/index.ts: from which configuration each service is made, the
  queue it subscribes to with the parser it reads it by, what it publishes, the tasks it runs, and what
  it starts and stops. The parts themselves are modelled in their own theories.
\<close>

section \<open>What each service is made of\<close>

datatype Service = OrderService | PaymentService | InventoryService | DeliveryService | NotificationService

record service_parts =
  sp_port :: jsnum
  sp_rabbitMqUrl :: string
  sp_publishTimeoutInMs :: "jsnum option"
  sp_pool :: "PoolConfig option"
  sp_outbox :: "(string \<times> jsnum \<times> jsnum \<times> jsnum) option"

definition ORDER_OUTBOX_TABLE :: string where
  "ORDER_OUTBOX_TABLE = ''order_outbox''"

text \<open>The services with a database: \<open>config\<close> gives the pool, the client and the relay of the outbox.\<close>

definition outbox_parts :: "(string option \<Rightarrow> int option \<Rightarrow> PoolConfig) \<Rightarrow> string \<Rightarrow> ServiceConfig \<Rightarrow> service_parts" where
  "outbox_parts create_pool table config =
     \<lparr>sp_port = cf_port config, sp_rabbitMqUrl = cf_rabbitMqUrl config, sp_publishTimeoutInMs = Some (cf_publishTimeoutInMs config),
      sp_pool = Some (create_pool (Some (cf_databaseUrl config)) None),
      sp_outbox = Some (table, cf_batchSize config, cf_pollIntervalInMs config, cf_leaseInMs config)\<rparr>"

definition order_parts :: "(rat \<Rightarrow> string) \<Rightarrow> (string \<Rightarrow> string option) \<Rightarrow> Environment \<Rightarrow> js_error + service_parts" where
  "order_parts num_text url_protocol env =
     map_sum id (outbox_parts (createOrderDatabasePool env) ORDER_OUTBOX_TABLE) (readOrderConfig num_text url_protocol env)"

definition inventory_parts :: "(rat \<Rightarrow> string) \<Rightarrow> (string \<Rightarrow> string option) \<Rightarrow> Environment \<Rightarrow> js_error + service_parts" where
  "inventory_parts num_text url_protocol env =
     map_sum id (outbox_parts (createInventoryDatabasePool env) ''inventory_outbox'') (readInventoryConfig num_text url_protocol env)"

text \<open>The services without one: a port and the broker.\<close>

definition broker_parts ::
    "(rat \<Rightarrow> string) \<Rightarrow> (string \<Rightarrow> string option) \<Rightarrow> string \<Rightarrow> int \<Rightarrow> Environment \<Rightarrow> js_error + service_parts" where
  "broker_parts num_text url_protocol port_name default_port env =
     and_then (readPort num_text env port_name default_port) (\<lambda>port.
     and_then (readUrl url_protocol env ''RABBITMQ_URL'' DEVELOPMENT_RABBITMQ_URL [''amqp:'', ''amqps:'']) (\<lambda>rabbitMqUrl.
       Inr \<lparr>sp_port = port, sp_rabbitMqUrl = rabbitMqUrl, sp_publishTimeoutInMs = None, sp_pool = None, sp_outbox = None\<rparr>))"

definition payment_parts :: "(rat \<Rightarrow> string) \<Rightarrow> (string \<Rightarrow> string option) \<Rightarrow> Environment \<Rightarrow> js_error + service_parts" where
  "payment_parts num_text url_protocol = broker_parts num_text url_protocol ''PAYMENT_SERVICE_PORT'' 3002"

definition delivery_parts :: "(rat \<Rightarrow> string) \<Rightarrow> (string \<Rightarrow> string option) \<Rightarrow> Environment \<Rightarrow> js_error + service_parts" where
  "delivery_parts num_text url_protocol = broker_parts num_text url_protocol ''DELIVERY_SERVICE_PORT'' 3004"

definition notification_parts :: "(rat \<Rightarrow> string) \<Rightarrow> (string \<Rightarrow> string option) \<Rightarrow> Environment \<Rightarrow> js_error + service_parts" where
  "notification_parts num_text url_protocol = broker_parts num_text url_protocol ''NOTIFICATION_SERVICE_PORT'' 3005"

fun service_parts_of :: "(rat \<Rightarrow> string) \<Rightarrow> (string \<Rightarrow> string option) \<Rightarrow> Service \<Rightarrow> Environment \<Rightarrow> js_error + service_parts" where
  "service_parts_of nt up OrderService = order_parts nt up"
| "service_parts_of nt up PaymentService = payment_parts nt up"
| "service_parts_of nt up InventoryService = inventory_parts nt up"
| "service_parts_of nt up DeliveryService = delivery_parts nt up"
| "service_parts_of nt up NotificationService = notification_parts nt up"

section \<open>Subscriptions and publications\<close>

record 'e subscription =
  su_queue :: QueueBinding
  su_parseEvent :: "js \<Rightarrow> js_error + 'e"

definition order_subscription :: "(rat \<Rightarrow> string) \<Rightarrow> zod_lib \<Rightarrow> OrderWorkflowEvent subscription" where
  "order_subscription num_text z = \<lparr>su_queue = orderWorkflowEvents, su_parseEvent = parseOrderWorkflowEvent num_text z\<rparr>"

definition payment_subscription :: "zod_lib \<Rightarrow> OrderCreatedEvent subscription" where
  "payment_subscription z = \<lparr>su_queue = paymentOrderCreated, su_parseEvent = parseOrderCreatedEvent z\<rparr>"

definition inventory_subscription :: "zod_lib \<Rightarrow> PaymentAuthorizedEvent subscription" where
  "inventory_subscription z = \<lparr>su_queue = inventoryPaymentAuthorized, su_parseEvent = parsePaymentAuthorizedEvent z\<rparr>"

definition delivery_subscription :: "zod_lib \<Rightarrow> InventoryReservedEvent subscription" where
  "delivery_subscription z = \<lparr>su_queue = deliveryInventoryReserved, su_parseEvent = parseInventoryReservedEvent z\<rparr>"

definition notification_subscription :: "(rat \<Rightarrow> string) \<Rightarrow> zod_lib \<Rightarrow> NotificationEvent subscription" where
  "notification_subscription num_text z = \<lparr>su_queue = notificationCustomerEvents, su_parseEvent = parseNotificationEvent num_text z\<rparr>"

text \<open>The queue of a service, and the event id under which it handles a message, or the parser's error.\<close>

fun service_queue :: "(rat \<Rightarrow> string) \<Rightarrow> zod_lib \<Rightarrow> Service \<Rightarrow> QueueBinding" where
  "service_queue nt z OrderService = su_queue (order_subscription nt z)"
| "service_queue nt z PaymentService = su_queue (payment_subscription z)"
| "service_queue nt z InventoryService = su_queue (inventory_subscription z)"
| "service_queue nt z DeliveryService = su_queue (delivery_subscription z)"
| "service_queue nt z NotificationService = su_queue (notification_subscription nt z)"

fun service_reads :: "(rat \<Rightarrow> string) \<Rightarrow> zod_lib \<Rightarrow> Service \<Rightarrow> js \<Rightarrow> js_error + string" where
  "service_reads nt z OrderService v = map_sum id (\<lambda>e. we_eventId (event_record e)) (su_parseEvent (order_subscription nt z) v)"
| "service_reads nt z PaymentService v = map_sum id eventId (su_parseEvent (payment_subscription z) v)"
| "service_reads nt z InventoryService v = map_sum id eventId (su_parseEvent (inventory_subscription z) v)"
| "service_reads nt z DeliveryService v = map_sum id eventId (su_parseEvent (delivery_subscription z) v)"
| "service_reads nt z NotificationService v = map_sum id nt_eventId (su_parseEvent (notification_subscription nt z) v)"

text \<open>
  What the two services without an outbox publish with: \<open>rabbitMq.publish\<close> under a fixed key. The
  others publish through the relay, under the key of the event's type.
\<close>

definition publishPaymentAuthorized :: "(string \<Rightarrow> PaymentAuthorizedEvent \<Rightarrow> 'r) \<Rightarrow> PaymentAuthorizedEvent \<Rightarrow> 'r" where
  "publishPaymentAuthorized publish event = publish (ROUTING_KEYS PaymentAuthorized) event"

definition publishDeliveryBooked :: "(string \<Rightarrow> DeliveryBookedEvent \<Rightarrow> 'r) \<Rightarrow> DeliveryBookedEvent \<Rightarrow> 'r" where
  "publishDeliveryBooked publish event = publish (ROUTING_KEYS DeliveryBooked) event"

fun service_publishes :: "Service \<Rightarrow> EventType list" where
  "service_publishes OrderService = [OrderCreated]"
| "service_publishes PaymentService = [PaymentAuthorized]"
| "service_publishes InventoryService = [InventoryReserved, InventoryReservationFailed]"
| "service_publishes DeliveryService = [DeliveryBooked]"
| "service_publishes NotificationService = []"

section \<open>Starting and stopping\<close>

text \<open>\<open>start\<close>: \<open>migrated\<close> is what migrating (and seeding) the database came to.\<close>

definition database_ready_log :: "string \<Rightarrow> MigrationResult \<Rightarrow> log_call" where
  "database_ready_log message migration = LogInfo message
     [(''schemaVersion'', int_js (currentVersion migration)), (''appliedMigrations'', JArr (map int_js (appliedVersions migration)))]"

definition start_order :: "js_error + MigrationResult \<Rightarrow> js_error + log_call" where
  "start_order migrated = map_sum id (database_ready_log ''Order database ready'') migrated"

definition start_inventory :: "js_error + MigrationResult \<Rightarrow> js_error + log_call" where
  "start_inventory migrated = map_sum id (database_ready_log ''Inventory database ready'') migrated"

fun service_tasks :: "Service \<Rightarrow> string list" where
  "service_tasks OrderService = [''rabbitmq-supervisor'', ''outbox-relay'']"
| "service_tasks InventoryService = [''rabbitmq-supervisor'', ''outbox-relay'']"
| "service_tasks PaymentService = [''rabbitmq-supervisor'']"
| "service_tasks DeliveryService = [''rabbitmq-supervisor'']"
| "service_tasks NotificationService = [''rabbitmq-supervisor'']"

text \<open>
  What \<open>stop\<close> releases: the client and, where there is one, the pool. What is in flight at the client
  and what \<open>Pool.end\<close> comes to are arguments.
\<close>

record service_resources =
  sr_client :: RabbitMqClient
  sr_pool_open :: bool

definition with_client :: "(RabbitMqClient, unit) io \<Rightarrow> (service_resources, unit) io" where
  "with_client f r = (let (result, c) = f (sr_client r) in (result, r \<lparr>sr_client := c\<rparr>))"

definition pool_end :: "js_error option \<Rightarrow> (service_resources, unit) io" where
  "pool_end ended r = ((case ended of None \<Rightarrow> Inr () | Some e \<Rightarrow> Inl e), r \<lparr>sr_pool_open := False\<rparr>)"

definition stop_with_pool :: "RabbitMqClientOptions \<Rightarrow> nat \<Rightarrow> bool \<Rightarrow> js_error option \<Rightarrow> (service_resources, unit) io" where
  "stop_with_pool opts inFlightCount drained ended =
     io_bind (with_client (close_client opts inFlightCount drained)) (\<lambda>_. pool_end ended)"

definition stop_without_pool :: "RabbitMqClientOptions \<Rightarrow> nat \<Rightarrow> bool \<Rightarrow> (service_resources, unit) io" where
  "stop_without_pool opts inFlightCount drained = with_client (close_client opts inFlightCount drained)"

text \<open>Both databases' services stop alike, and so do the three services without one.\<close>

fun stop_service :: "Service \<Rightarrow> RabbitMqClientOptions \<Rightarrow> nat \<Rightarrow> bool \<Rightarrow> js_error option \<Rightarrow> (service_resources, unit) io" where
  "stop_service OrderService opts n d ended = stop_with_pool opts n d ended"
| "stop_service InventoryService opts n d ended = stop_with_pool opts n d ended"
| "stop_service _ opts n d ended = stop_without_pool opts n d"

fun has_pool :: "Service \<Rightarrow> bool" where
  "has_pool OrderService = True" | "has_pool InventoryService = True" | "has_pool _ = False"

text \<open>
  Stopping releases everything, whatever is in flight: no connection stays open, no consumer is kept,
  and the pool is ended even when that fails, which is the only way for \<open>stop\<close> to throw.
\<close>

lemma stop_releases_everything:
  assumes "no_leak (sr_client r)" "stop_service s opts n d ended r = (result, r')" "sr_pool_open r \<longrightarrow> has_pool s"
  shows "cl_open (sr_client r') = [] \<and> cl_consumers (sr_client r') = [] \<and> \<not> client_ready (sr_client r') \<and> \<not> sr_pool_open r'
    \<and> result = (if has_pool s then case ended of None \<Rightarrow> Inr () | Some e \<Rightarrow> Inl e else Inr ())"
proof -
  obtain c' where c: "close_client opts n d (sr_client r) = (Inr (), c')" "cl_open c' = []" "cl_consumers c' = []" "\<not> client_ready c'"
    by (rule close_leaves_nothing_open [OF assms(1)])
  then show ?thesis using assms(2,3)
    by (cases s) (auto simp: stop_with_pool_def stop_without_pool_def with_client_def pool_end_def io_bind_def)
qed

section \<open>The services fit together\<close>

text \<open>Any of the five events, with its type, id, encoding and contract.\<close>

fun event_type_of :: "CommerceEvent \<Rightarrow> EventType" where
  "event_type_of (OrderCreatedE e) = OrderCreated"
| "event_type_of (PaymentAuthorizedE e) = PaymentAuthorized"
| "event_type_of (InventoryReservedE e) = InventoryReserved"
| "event_type_of (InventoryReservationFailedE e) = InventoryReservationFailed"
| "event_type_of (DeliveryBookedE e) = DeliveryBooked"

fun event_id_of :: "CommerceEvent \<Rightarrow> string" where
  "event_id_of (OrderCreatedE e) = eventId e"
| "event_id_of (PaymentAuthorizedE e) = eventId e"
| "event_id_of (InventoryReservedE e) = eventId e"
| "event_id_of (InventoryReservationFailedE e) = eventId e"
| "event_id_of (DeliveryBookedE e) = eventId e"

fun event_js :: "CommerceEvent \<Rightarrow> js" where
  "event_js (OrderCreatedE e) = orderCreated_js e"
| "event_js (PaymentAuthorizedE e) = paymentAuthorized_js e"
| "event_js (InventoryReservedE e) = inventoryReserved_js e"
| "event_js (InventoryReservationFailedE e) = reservationFailed_js e"
| "event_js (DeliveryBookedE e) = deliveryBooked_js e"

fun valid_event :: "zod_lib \<Rightarrow> CommerceEvent \<Rightarrow> bool" where
  "valid_event z (OrderCreatedE e) = valid_OrderCreated z e"
| "valid_event z (PaymentAuthorizedE e) = valid_PaymentAuthorized z e"
| "valid_event z (InventoryReservedE e) = valid_InventoryReserved z e"
| "valid_event z (InventoryReservationFailedE e) = valid_ReservationFailed z e"
| "valid_event z (DeliveryBookedE e) = valid_DeliveryBooked z e"

lemma event_js_type:
  "valid_event z e \<Longrightarrow> js_get (json_wire (event_js e)) ''eventType'' = JStr (eventType_text (event_type_of e))"
  by (cases e) (simp_all add: event_js_defs js_get_def valid_defs)

text \<open>A schema rejects the events of another type.\<close>

lemma parse_other_type:
  assumes "zod_documented z" "js_get v ''eventType'' = JStr (eventType_text u)" "u \<noteq> t"
  shows "parse_or_throw z (eventEnvelope (eventType_text t) ds) rd v = Inl (JsError ''ZodError'')"
proof -
  have "zod_parse z (eventEnvelope (eventType_text t) ds) v = None"
    using assms
    by (cases v) (auto simp: eventEnvelope_def zod_documented_eqs [OF assms(1)] eventType_text_inj split: option.splits)
  then show ?thesis by (simp add: parse_or_throw_def)
qed


lemmas parse_other = parse_other_type [where t = OrderCreated, simplified] parse_other_type [where t = PaymentAuthorized, simplified]
  parse_other_type [where t = InventoryReserved, simplified] parse_other_type [where t = InventoryReservationFailed, simplified]
  parse_other_type [where t = DeliveryBooked, simplified]

lemmas subscription_defs = order_subscription_def payment_subscription_def inventory_subscription_def delivery_subscription_def
  notification_subscription_def

lemmas schemas_of_types = orderCreatedEventSchema_def paymentAuthorizedEventSchema_def inventoryReservedEventSchema_def

lemma single_type_rejects:
  assumes "zod_documented z" "js_get v ''eventType'' = JStr (eventType_text u)"
  shows "u \<noteq> OrderCreated \<Longrightarrow> parseOrderCreatedEvent z v = Inl (JsError ''ZodError'')"
    "u \<noteq> PaymentAuthorized \<Longrightarrow> parsePaymentAuthorizedEvent z v = Inl (JsError ''ZodError'')"
    "u \<noteq> InventoryReserved \<Longrightarrow> parseInventoryReservedEvent z v = Inl (JsError ''ZodError'')"
  unfolding parser_defs schemas_of_types using parse_other(1-3) [OF assms] by blast+

lemma routed_to:
  "queueName (service_queue num_text z s) \<in> set (queues_of_key (getRoutingKey t)) \<longleftrightarrow> getRoutingKey t \<in> set (routingKeys (service_queue num_text z s))"
  by (cases s) (auto simp: subscription_defs queues_of_key_def COMMERCE_TOPOLOGY_def queue_defs)

context documented_zod
begin

lemmas wire_parses = OrderCreated_wire PaymentAuthorized_wire InventoryReserved_wire ReservationFailed_wire DeliveryBooked_wire

lemma wire_read:
  assumes "valid_event z e" "getRoutingKey (event_type_of e) \<in> set (routingKeys (service_queue num_text z s))"
  shows "service_reads num_text z s (json_wire (event_js e)) = Inr (event_id_of e)"
  using assms
  by (cases s; cases e)
    (simp_all add: subscription_defs queue_defs getRoutingKey_def subscription_defs wire_parses workflow_wire notification_wire workflow_record_def)

lemma wire_rejected:
  assumes "valid_event z e" "getRoutingKey (event_type_of e) \<notin> set (routingKeys (service_queue num_text z s))"
  shows "\<exists>err. service_reads num_text z s (json_wire (event_js e)) = Inl err"
  using assms single_type_rejects [OF doc event_js_type [OF assms(1)]] event_js_type [OF assms(1)]
  by (cases s; cases e)
    (simp_all add: subscription_defs queue_defs getRoutingKey_def subscription_defs parseOrderWorkflowEvent_def parseNotificationEvent_def)

end

text \<open>Who publishes an event.\<close>

fun publisher :: "EventType \<Rightarrow> Service" where
  "publisher OrderCreated = OrderService"
| "publisher PaymentAuthorized = PaymentService"
| "publisher InventoryReserved = InventoryService"
| "publisher InventoryReservationFailed = InventoryService"
| "publisher DeliveryBooked = DeliveryService"

lemma published_by: "t \<in> set (service_publishes s) \<longleftrightarrow> s = publisher t"
  by (cases s; cases t) simp_all

text \<open>
  C38: the services fit together. A valid event of any type is routed to a service exactly when that
  service's parser accepts what arrives from the wire, and then the service handles it under its event
  id; it is routed to at least one service, and exactly one service publishes events of its type. Every
  queue of the topology is consumed by exactly one service.
\<close>

theorem services_fit_together:
  assumes "zod_documented z" "valid_event z e"
  shows "(\<forall>s. service_reads num_text z s (json_wire (event_js e)) = Inr (event_id_of e)
        \<and> queueName (service_queue num_text z s) \<in> set (queues_of_key (getRoutingKey (event_type_of e)))
      \<or> (\<exists>err. service_reads num_text z s (json_wire (event_js e)) = Inl err)
        \<and> queueName (service_queue num_text z s) \<notin> set (queues_of_key (getRoutingKey (event_type_of e))))
    \<and> (\<exists>s. queueName (service_queue num_text z s) \<in> set (queues_of_key (getRoutingKey (event_type_of e))))
    \<and> (\<exists>!s. event_type_of e \<in> set (service_publishes s))
    \<and> (\<forall>q \<in> set COMMERCE_TOPOLOGY. \<exists>!s. service_queue num_text z s = q)"
proof -
  have z: "documented_zod z" using assms(1) by (rule documented_zod.intro)
  have reads: "service_reads num_text z s (json_wire (event_js e)) = Inr (event_id_of e)
        \<and> queueName (service_queue num_text z s) \<in> set (queues_of_key (getRoutingKey (event_type_of e)))
      \<or> (\<exists>err. service_reads num_text z s (json_wire (event_js e)) = Inl err)
        \<and> queueName (service_queue num_text z s) \<notin> set (queues_of_key (getRoutingKey (event_type_of e)))" for s
    unfolding routed_to using documented_zod.wire_read [OF z assms(2)] documented_zod.wire_rejected [OF z assms(2)] by blast
  have "\<exists>s. queueName (service_queue num_text z s) \<in> set (queues_of_key (getRoutingKey t))" for t
    unfolding routed_to
    by (cases t) (simp_all add: getRoutingKey_def subscription_defs queue_defs exI [of _ PaymentService] exI [of _ OrderService])
  moreover have "\<exists>!s. t \<in> set (service_publishes s)" for t by (simp add: published_by)
  moreover have "\<exists>!s. service_queue num_text z s = q" if "q \<in> set COMMERCE_TOPOLOGY" for q
  proof -
    have queues: "service_queue num_text z OrderService = orderWorkflowEvents" "service_queue num_text z PaymentService = paymentOrderCreated"
      "service_queue num_text z InventoryService = inventoryPaymentAuthorized" "service_queue num_text z DeliveryService = deliveryInventoryReserved"
      "service_queue num_text z NotificationService = notificationCustomerEvents" by (simp_all add: subscription_defs)
    have "inj (service_queue num_text z)" by (rule injI, rename_tac s t) (case_tac s; case_tac t; simp add: subscription_defs queue_defs)
    moreover have "\<exists>s. service_queue num_text z s = q"
      using that queues unfolding COMMERCE_TOPOLOGY_def by (auto simp del: service_queue.simps)
    ultimately show ?thesis by (metis injD)
  qed
  ultimately show ?thesis using reads by blast
qed

text \<open>A booked delivery on the wire.\<close>

definition sample_booked :: DeliveryBookedEvent where
  "sample_booked = \<lparr>eventId = ''e-5'', eventType = DeliveryBooked, occurredAt = ''2024-02-28T10:00:00Z'', correlationId = ''c-1'',
     event_data = \<lparr>db_orderId = ''o-1'', db_deliveryId = ''d-1'', db_carrier = ''Simulated Carrier'', db_estimatedDeliveryDate = ''2024-03-02''\<rparr>\<rparr>"

theorem services_fit_together_witness:
  "let z = zod_lib_ref (\<lambda>_. True) (\<lambda>_. True); e = DeliveryBookedE sample_booked
   in (\<forall>s. (\<exists>err. service_reads (\<lambda>_. []) z s (json_wire (event_js e)) = Inl err) \<or> s = OrderService \<or> s = NotificationService)
     \<and> service_reads (\<lambda>_. []) z NotificationService (json_wire (event_js e)) = Inr ''e-5''"
proof -
  let ?z = "zod_lib_ref (\<lambda>_. True) (\<lambda>_. True)" and ?e = "DeliveryBookedE sample_booked"
  have z: "zod_documented ?z" by (rule zref.doc)
  have "valid_event ?z ?e"
    by (simp add: sample_booked_def valid_defs valid_identifier_def zod_lib_ref_def)
  from services_fit_together [OF z this, of "\<lambda>_. []"]
  have reads: "service_reads (\<lambda>_. []) ?z s (json_wire (event_js ?e)) = Inr ''e-5'' \<and> queueName (service_queue (\<lambda>_. []) ?z s) \<in> set (queues_of_key (getRoutingKey DeliveryBooked))
      \<or> (\<exists>err. service_reads (\<lambda>_. []) ?z s (json_wire (event_js ?e)) = Inl err)
        \<and> queueName (service_queue (\<lambda>_. []) ?z s) \<notin> set (queues_of_key (getRoutingKey DeliveryBooked))" for s
    by (simp add: sample_booked_def)
  have "queueName (service_queue (\<lambda>_. []) ?z NotificationService) \<in> set (queues_of_key (getRoutingKey DeliveryBooked))"
    "queueName (service_queue (\<lambda>_. []) ?z s) \<in> set (queues_of_key (getRoutingKey DeliveryBooked)) \<Longrightarrow> s = OrderService \<or> s = NotificationService" for s
    unfolding routed_to by (simp_all add: getRoutingKey_def subscription_defs queue_defs, cases s) (simp_all add: subscription_defs queue_defs)
  with reads show ?thesis unfolding Let_def by blast
qed

end
