(* ===== verification/SystemProbe.thy ===== *)
theory SystemProbe
  imports Services LogTrace
begin

text \<open>
  tools/cli/src/systemProbe.ts and status.ts: the read-only probes of the running system, and the
  one-screen status with its exit code. What an HTTP request or a broker call comes to is an argument;
  \<open>JSON.parse\<close> is a parameter. Every line printed is part of the result.
\<close>

section \<open>HTTP\<close>

record http_request =
  rq_url :: string
  rq_method :: string
  rq_headers :: "(string \<times> string) list"
  rq_body :: "string option"
  rq_timeoutInMs :: int

text \<open>A request is answered with a status and a text, or throws (its timeout included).\<close>

type_synonym http_lib = "http_request \<Rightarrow> js_error + nat \<times> string"

record HttpResult =
  hr_status :: nat
  hr_body :: js

definition requestJson :: "http_lib \<Rightarrow> (string \<Rightarrow> js option) \<Rightarrow> http_request \<Rightarrow> js_error + HttpResult" where
  "requestJson fetch json_parse request =
     and_then (fetch request) (\<lambda>(status, text').
       Inr \<lparr>hr_status = status, hr_body = (case json_parse text' of Some v \<Rightarrow> v | None \<Rightarrow> JStr text')\<rparr>)"

definition get_request :: "string \<Rightarrow> http_request" where
  "get_request url = \<lparr>rq_url = url, rq_method = ''GET'', rq_headers = [], rq_body = None, rq_timeoutInMs = 5000\<rparr>"

definition service_url :: "Endpoints \<Rightarrow> string \<Rightarrow> string \<Rightarrow> string" where
  "service_url endpoints service path = the (map_of (ep_services endpoints) service) @ path"

section \<open>Readiness\<close>

record ServiceReadiness =
  rd_service :: string
  rd_ready :: bool
  rd_detail :: string

definition describeDependencies :: "(rat \<Rightarrow> string) \<Rightarrow> js \<Rightarrow> string option" where
  "describeDependencies num_text body =
     (if \<not> isRecord body \<or> \<not> isRecord (js_get body ''dependencies'') then None
      else Some (join '', '' (map (\<lambda>(name, status). name @ '': '' @ String_of num_text status)
        (js_fields (js_get body ''dependencies'')))))"

definition service_readiness :: "http_lib \<Rightarrow> (string \<Rightarrow> js option) \<Rightarrow> (rat \<Rightarrow> string) \<Rightarrow> Endpoints \<Rightarrow> string \<Rightarrow> ServiceReadiness" where
  "service_readiness fetch json_parse num_text endpoints service =
     (case requestJson fetch json_parse ((get_request (service_url endpoints service ''/ready'')) \<lparr>rq_timeoutInMs := 2000\<rparr>) of
        Inl e \<Rightarrow> \<lparr>rd_service = service, rd_ready = False, rd_detail = ''not reachable''\<rparr>
      | Inr result \<Rightarrow> \<lparr>rd_service = service, rd_ready = (hr_status result = 200),
          rd_detail = (case describeDependencies num_text (hr_body result) of Some d \<Rightarrow> d
            | None \<Rightarrow> ''HTTP '' @ nat_text (hr_status result))\<rparr>)"

definition readReadiness :: "http_lib \<Rightarrow> (string \<Rightarrow> js option) \<Rightarrow> (rat \<Rightarrow> string) \<Rightarrow> Endpoints \<Rightarrow> ServiceReadiness list" where
  "readReadiness fetch json_parse num_text endpoints =
     map (service_readiness fetch json_parse num_text endpoints) SERVICE_NAMES"

section \<open>Stock, outbox and notifications\<close>

text \<open>The fields of an object whose values are numbers.\<close>

definition number_fields :: "js \<Rightarrow> (string, jsnum) jsmap" where
  "number_fields v = List.map_filter (\<lambda>(k, x). case x of JNum n \<Rightarrow> Some (k, n) | _ \<Rightarrow> None) (js_fields v)"

definition readStock :: "http_lib \<Rightarrow> (string \<Rightarrow> js option) \<Rightarrow> Endpoints \<Rightarrow> js_error + (string, jsnum) jsmap" where
  "readStock fetch json_parse endpoints =
     and_then (requestJson fetch json_parse (get_request (service_url endpoints ''inventory-service'' ''/stock''))) (\<lambda>result.
       if hr_status result \<noteq> 200 \<or> \<not> isRecord (hr_body result) \<or> \<not> isRecord (js_get (hr_body result) ''stock'') then
         Inl (JsError (''GET /stock answered HTTP '' @ nat_text (hr_status result) @ ''.''))
       else Inr (number_fields (js_get (hr_body result) ''stock'')))"

definition readOutboxDiagnostics :: "http_lib \<Rightarrow> (string \<Rightarrow> js option) \<Rightarrow> Endpoints \<Rightarrow> js option" where
  "readOutboxDiagnostics fetch json_parse endpoints =
     (case requestJson fetch json_parse (get_request (service_url endpoints ''inventory-service'' ''/diagnostics/outbox'')) of
        Inl e \<Rightarrow> None
      | Inr result \<Rightarrow> if hr_status result = 200 \<and> isRecord (hr_body result) then Some (hr_body result) else None)"

record NotificationSummary =
  ns_orderId :: string
  ns_type :: string
  ns_message :: string

definition notification_summary :: "(rat \<Rightarrow> string) \<Rightarrow> js \<Rightarrow> NotificationSummary" where
  "notification_summary num_text v = \<lparr>ns_orderId = String_of num_text (js_get v ''orderId''),
     ns_type = String_of num_text (js_get v ''type''), ns_message = String_of num_text (js_get v ''message'')\<rparr>"

definition readNotifications :: "http_lib \<Rightarrow> (string \<Rightarrow> js option) \<Rightarrow> (rat \<Rightarrow> string) \<Rightarrow> Endpoints \<Rightarrow> js_error + NotificationSummary list" where
  "readNotifications fetch json_parse num_text endpoints =
     and_then (requestJson fetch json_parse (get_request (service_url endpoints ''notification-service'' ''/notifications''))) (\<lambda>result.
       let answered = Inl (JsError (''GET /notifications answered HTTP '' @ nat_text (hr_status result) @ ''.''))
       in if hr_status result \<noteq> 200 \<or> \<not> isRecord (hr_body result) then answered
          else case js_get (hr_body result) ''notifications'' of
            JArr vs \<Rightarrow> Inr (map (notification_summary num_text) (filter isRecord vs))
          | _ \<Rightarrow> answered)"

section \<open>Queues\<close>

record QueueDepth =
  qd_name :: string
  qd_messages :: nat
  qd_consumers :: nat
  qd_missing :: bool

definition OBSERVED_QUEUES :: "string list" where
  "OBSERVED_QUEUES = concat (map (\<lambda>q. [queueName q, queueName q @ ''.dead-letter'']) COMMERCE_TOPOLOGY)"

text \<open>What the broker answers for one queue: opening a channel, the passive check, and closing again.\<close>

record queue_probe =
  qp_channel :: "js_error option"
  qp_check :: "js_error + nat \<times> nat"
  qp_close :: "js_error option"

text \<open>A channel that cannot be closed after a check that succeeded reports the queue once more, as missing.\<close>

definition queue_depth :: "string \<Rightarrow> queue_probe \<Rightarrow> QueueDepth list" where
  "queue_depth name probe =
     (let missing = \<lparr>qd_name = name, qd_messages = 0, qd_consumers = 0, qd_missing = True\<rparr>
      in case qp_check probe of
           Inl e \<Rightarrow> [missing]
         | Inr (messageCount, consumerCount) \<Rightarrow>
             \<lparr>qd_name = name, qd_messages = messageCount, qd_consumers = consumerCount, qd_missing = False\<rparr>
               # (case qp_close probe of None \<Rightarrow> [] | Some e \<Rightarrow> [missing]))"

fun queue_depths :: "(string \<Rightarrow> queue_probe) \<Rightarrow> string list \<Rightarrow> js_error + QueueDepth list" where
  "queue_depths broker [] = Inr []"
| "queue_depths broker (name # names) =
     (case qp_channel (broker name) of
        Some e \<Rightarrow> Inl e
      | None \<Rightarrow> and_then (queue_depths broker names) (\<lambda>rest. Inr (queue_depth name (broker name) @ rest)))"

definition readQueueDepths :: "js_error option \<Rightarrow> (string \<Rightarrow> queue_probe) \<Rightarrow> js_error + QueueDepth list" where
  "readQueueDepths connect broker = (case connect of Some e \<Rightarrow> Inl e | None \<Rightarrow> queue_depths broker OBSERVED_QUEUES)"

definition countDeadLetters :: "QueueDepth list \<Rightarrow> nat" where
  "countDeadLetters queues = sum_list (map qd_messages (filter (\<lambda>q. endsWith (qd_name q) ''.dead-letter'') queues))"

section \<open>The status screen (status.ts)\<close>

definition service_line :: "ServiceReadiness \<Rightarrow> string" where
  "service_line s = ''  '' @ (if rd_ready s then ''ready    '' else ''NOT READY'') @ ''  '' @ padEnd 22 (rd_service s) @ rd_detail s"

definition stock_lines :: "(rat \<Rightarrow> string) \<Rightarrow> js_error + (string, jsnum) jsmap \<Rightarrow> string list" where
  "stock_lines num_text read = (case read of
       Inl e \<Rightarrow> [''  unavailable ('' @ error_message e @ '')'']
     | Inr stock \<Rightarrow> map (\<lambda>(product, n). ''  '' @ padEnd 24 product @ String_of num_text (JNum n)) stock)"

definition outbox_lines :: "(rat \<Rightarrow> string) \<Rightarrow> js option \<Rightarrow> string list" where
  "outbox_lines num_text outbox = (case outbox of
       None \<Rightarrow> [''  unavailable''] | Some v \<Rightarrow> [''  '' @ json_text num_text v])"

definition queue_line :: "QueueDepth \<Rightarrow> string" where
  "queue_line q = ''  '' @ padEnd 52 (qd_name q) @
     (if qd_missing q then ''missing'' else padStart 4 (nat_text (qd_messages q)) @ '' / '' @ nat_text (qd_consumers q))"

text \<open>The lines of the queues, and whether they leave the system healthy.\<close>

definition queue_lines :: "js_error + QueueDepth list \<Rightarrow> string list \<times> bool" where
  "queue_lines read = (case read of
       Inl e \<Rightarrow> ([''  RabbitMQ unavailable ('' @ error_message e @ '')''], False)
     | Inr queues \<Rightarrow>
         (let deadLetters = countDeadLetters queues
          in (map queue_line queues @
              (if 0 < deadLetters then [''  '' @ nat_text deadLetters @ '' dead-lettered message(s) need attention.''] else []),
              \<not> 0 < deadLetters)))"

definition notification_line :: "NotificationSummary \<Rightarrow> string" where
  "notification_line n = ''  '' @ ns_orderId n @ ''  '' @ padEnd 28 (ns_type n) @ ns_message n"

definition notification_lines :: "js_error + NotificationSummary list \<Rightarrow> string list" where
  "notification_lines read = (case read of
       Inl e \<Rightarrow> [''  unavailable ('' @ error_message e @ '')'']
     | Inr ns \<Rightarrow> (if length ns = 0 then [''  none yet''] else []) @ map notification_line (drop (length ns - 10) ns) @
         (if 10 < length ns then [''  (latest 10 of '' @ nat_text (length ns) @ '')''] else []))"

text \<open>\<open>main\<close>: the screen and the exit code.\<close>

definition status_main ::
    "http_lib \<Rightarrow> (string \<Rightarrow> js option) \<Rightarrow> (rat \<Rightarrow> string) \<Rightarrow> js_error option \<Rightarrow> (string \<Rightarrow> queue_probe) \<Rightarrow> Endpoints \<Rightarrow> string list \<times> int" where
  "status_main fetch json_parse num_text connect broker endpoints =
     (let services = readReadiness fetch json_parse num_text endpoints;
          (queue_part, queues_ok) = queue_lines (readQueueDepths connect broker);
          healthy = list_all rd_ready services \<and> queues_ok
      in ([''Services''] @ map service_line services @ [CHR 0x0A # ''Stock''] @ stock_lines num_text (readStock fetch json_parse endpoints) @
          [CHR 0x0A # ''Outbox''] @ outbox_lines num_text (readOutboxDiagnostics fetch json_parse endpoints) @
          [CHR 0x0A # ''Queues (messages waiting / consumers)''] @ queue_part @
          [CHR 0x0A # ''Notifications''] @ notification_lines (readNotifications fetch json_parse num_text endpoints),
          if healthy then 0 else 1))"

section \<open>The status of the modelled services\<close>

text \<open>What each service's \<open>/ready\<close> answers, by its probes; three of them have no database to ask.\<close>

fun service_ready_response :: "Service \<Rightarrow> probe_result \<Rightarrow> probe_result \<Rightarrow> HttpResponse" where
  "service_ready_response OrderService broker db = ready_response ''order-service'' broker db"
| "service_ready_response InventoryService broker db = inventory_ready broker db"
| "service_ready_response PaymentService broker db = payment_ready (getProbeReadiness broker)"
| "service_ready_response DeliveryService broker db = delivery_ready (getProbeReadiness broker)"
| "service_ready_response NotificationService broker db = notification_ready (getProbeReadiness broker)"

fun service_name :: "Service \<Rightarrow> string" where
  "service_name OrderService = ''order-service''"
| "service_name PaymentService = ''payment-service''"
| "service_name InventoryService = ''inventory-service''"
| "service_name DeliveryService = ''delivery-service''"
| "service_name NotificationService = ''notification-service''"

text \<open>Everything a service depends on is there.\<close>

definition dependencies_ready :: "(Service \<Rightarrow> probe_result) \<Rightarrow> (Service \<Rightarrow> probe_result) \<Rightarrow> Service \<Rightarrow> bool" where
  "dependencies_ready broker db s \<longleftrightarrow> getProbeReadiness (broker s) \<and> (has_pool s \<longrightarrow> getProbeReadiness (db s))"

text \<open>The services answer at their endpoints.\<close>

definition served :: "http_lib \<Rightarrow> (rat \<Rightarrow> string) \<Rightarrow> Endpoints \<Rightarrow> (Service \<Rightarrow> probe_result) \<Rightarrow> (Service \<Rightarrow> probe_result) \<Rightarrow> bool" where
  "served fetch num_text endpoints broker db \<longleftrightarrow>
     (\<forall>s request. rq_url request = service_url endpoints (service_name s) ''/ready'' \<longrightarrow>
        (let response = service_ready_response s (broker s) (db s)
         in fetch request = Inr (http_status response, json_text num_text (http_body response))))"

lemma service_names: "set SERVICE_NAMES = range service_name"
proof -
  have "UNIV = {OrderService, PaymentService, InventoryService, DeliveryService, NotificationService}"
    by (auto intro: Service.exhaust)
  then have "range service_name = service_name ` {OrderService, PaymentService, InventoryService, DeliveryService, NotificationService}"
    by (simp only:)
  then show ?thesis by (simp add: SERVICE_NAMES_def insert_commute)
qed

lemma ready_status:
  "http_status (service_ready_response s (broker s) (db s)) = 200 \<longleftrightarrow> dependencies_ready broker db s"
  by (cases s) (auto simp: dependencies_ready_def ready_response_def inventory_ready_def payment_ready_def delivery_ready_def
      notification_ready_def broker_ready_response_def json_response_def Let_def)

lemma served_readiness:
  assumes "served fetch num_text endpoints broker db"
  shows "rd_ready (service_readiness fetch json_parse num_text endpoints (service_name s)) \<longleftrightarrow> dependencies_ready broker db s"
  using assms ready_status [of s broker db]
  by (auto simp: served_def service_readiness_def requestJson_def and_then_def get_request_def Let_def)

lemma queue_depths_read:
  "queue_depths broker names = Inr queues \<Longrightarrow>
     queues = concat (map (\<lambda>name. queue_depth name (broker name)) names) \<and> (\<forall>name \<in> set names. qp_channel (broker name) = None)"
  by (induction names arbitrary: queues) (auto simp: and_then_def split: option.splits sum.splits)


text \<open>The dead letters that were counted: those of the queues the broker knows.\<close>

definition no_dead_letters :: "(string \<Rightarrow> queue_probe) \<Rightarrow> bool" where
  "no_dead_letters broker \<longleftrightarrow> (\<forall>q \<in> set COMMERCE_TOPOLOGY. \<forall>m c. qp_check (broker (deadLetterQueueName (queueName q))) = Inr (m, c) \<longrightarrow> m = 0)"

lemma depth_messages:
  "sum_list (map qd_messages (queue_depth name probe)) = (case qp_check probe of Inr (m, c) \<Rightarrow> m | Inl e \<Rightarrow> 0)"
  "qd \<in> set (queue_depth name probe) \<Longrightarrow> qd_name qd = name"
  by (auto simp: queue_depth_def Let_def split: sum.splits option.splits prod.splits if_splits)

lemma counted_depths:
  "countDeadLetters (queue_depth name probe @ rest)
     = (if endsWith name ''.dead-letter'' then case qp_check probe of Inr (m, c) \<Rightarrow> m | Inl e \<Rightarrow> 0 else 0) + countDeadLetters rest"
proof -
  have "filter (\<lambda>q. endsWith (qd_name q) ''.dead-letter'') (queue_depth name probe)
      = (if endsWith name ''.dead-letter'' then queue_depth name probe else [])"
    using depth_messages(2) [of _ name probe] by (auto simp: filter_empty_conv intro: filter_True)
  then show ?thesis by (simp add: countDeadLetters_def depth_messages(1))
qed

lemma counted_none:
  "countDeadLetters (concat (map (\<lambda>name. queue_depth name (broker name)) names)) = 0
     \<longleftrightarrow> (\<forall>name \<in> set names. endsWith name ''.dead-letter'' \<longrightarrow> (\<forall>m c. qp_check (broker name) = Inr (m, c) \<longrightarrow> m = 0))"
  by (induction names) (auto simp: counted_depths countDeadLetters_def [of "[]"] split: sum.splits prod.splits)

lemma observed_dead_letter_queues:
  "{name \<in> set OBSERVED_QUEUES. endsWith name ''.dead-letter''} = deadLetterQueueName ` queueName ` set COMMERCE_TOPOLOGY"
proof -
  have "filter (\<lambda>name. endsWith name ''.dead-letter'') OBSERVED_QUEUES = map (deadLetterQueueName \<circ> queueName) COMMERCE_TOPOLOGY"
    by code_simp
  from arg_cong [OF this, of set] show ?thesis by (simp add: image_image)
qed

lemma ball_image_image:
  assumes "{x \<in> A. E x} = f ` g ` B" shows "(\<forall>x \<in> A. E x \<longrightarrow> Q x) \<longleftrightarrow> (\<forall>y \<in> B. Q (f (g y)))"
proof -
  have "(\<forall>x \<in> A. E x \<longrightarrow> Q x) \<longleftrightarrow> (\<forall>x \<in> {x \<in> A. E x}. Q x)" by blast
  then show ?thesis unfolding assms by blast
qed

lemma depths_readable:
  "(\<exists>queues. queue_depths broker names = Inr queues) \<longleftrightarrow> (\<forall>name \<in> set names. qp_channel (broker name) = None)"
  by (induction names) (auto simp: and_then_def split: option.splits sum.splits)


text \<open>
  C39: the status command reports the health of the system. Run against the services as they are
  modelled, it exits with 0 exactly when every service has all it depends on, the broker can be asked
  for its queues and no dead-letter queue holds a message, and with 1 otherwise; the screen shows a
  service as ready exactly when its dependencies are.
\<close>

theorem status_reports_health:
  assumes "served fetch num_text endpoints broker db"
  shows "snd (status_main fetch json_parse num_text connect queues endpoints)
      = (if (\<forall>s. dependencies_ready broker db s) \<and> connect = None
           \<and> (\<forall>name \<in> set OBSERVED_QUEUES. qp_channel (queues name) = None) \<and> no_dead_letters queues then 0 else 1)
    \<and> (\<forall>s. \<exists>detail. service_line \<lparr>rd_service = service_name s, rd_ready = dependencies_ready broker db s, rd_detail = detail\<rparr>
        \<in> set (fst (status_main fetch json_parse num_text connect queues endpoints)))"
proof -
  let ?services = "readReadiness fetch json_parse num_text endpoints"
  have each: "rd_ready (service_readiness fetch json_parse num_text endpoints (service_name s)) \<longleftrightarrow> dependencies_ready broker db s" for s
    by (rule served_readiness [OF assms])
  have "list_all rd_ready ?services \<longleftrightarrow> (\<forall>name \<in> range service_name. rd_ready (service_readiness fetch json_parse num_text endpoints name))"
    by (simp add: readReadiness_def list_all_iff service_names)
  also have "\<dots> \<longleftrightarrow> (\<forall>s. dependencies_ready broker db s)" by (simp add: each)
  finally have ready: "list_all rd_ready ?services \<longleftrightarrow> (\<forall>s. dependencies_ready broker db s)" .
  have dead: "(\<forall>name \<in> set OBSERVED_QUEUES. endsWith name ''.dead-letter'' \<longrightarrow> (\<forall>m c. qp_check (queues name) = Inr (m, c) \<longrightarrow> m = 0))
      \<longleftrightarrow> no_dead_letters queues"
    unfolding no_dead_letters_def by (rule ball_image_image [OF observed_dead_letter_queues])
  have depths: "snd (queue_lines (readQueueDepths connect queues)) \<longleftrightarrow> connect = None
      \<and> (\<forall>name \<in> set OBSERVED_QUEUES. qp_channel (queues name) = None) \<and> no_dead_letters queues"
  proof (cases "connect = None \<and> (\<forall>name \<in> set OBSERVED_QUEUES. qp_channel (queues name) = None)")
    case True
    then obtain qs where "queue_depths queues OBSERVED_QUEUES = Inr qs" using depths_readable [of queues OBSERVED_QUEUES] by blast
    with True queue_depths_read [OF this] counted_none [of queues OBSERVED_QUEUES] dead show ?thesis
      by (simp add: readQueueDepths_def queue_lines_def Let_def)
  next
    case False
    then have "\<exists>e. readQueueDepths connect queues = Inl e"
      using depths_readable [of queues OBSERVED_QUEUES] by (cases "queue_depths queues OBSERVED_QUEUES") (auto simp: readQueueDepths_def split: option.split)
    with False show ?thesis by (auto simp: queue_lines_def)
  qed
  have lines: "service_line (service_readiness fetch json_parse num_text endpoints (service_name s))
      \<in> set (fst (status_main fetch json_parse num_text connect queues endpoints))" for s
    using service_names by (auto simp: status_main_def readReadiness_def Let_def split: prod.split)
  have "\<exists>detail. service_readiness fetch json_parse num_text endpoints (service_name s)
      = \<lparr>rd_service = service_name s, rd_ready = dependencies_ready broker db s, rd_detail = detail\<rparr>" for s
    using each [of s] by (intro exI [of _ "rd_detail (service_readiness fetch json_parse num_text endpoints (service_name s))"])
      (auto simp: service_readiness_def split: sum.splits)
  with lines have "\<forall>s. \<exists>detail. service_line \<lparr>rd_service = service_name s, rd_ready = dependencies_ready broker db s, rd_detail = detail\<rparr>
        \<in> set (fst (status_main fetch json_parse num_text connect queues endpoints))" by metis
  moreover have "snd (status_main fetch json_parse num_text connect queues endpoints)
      = (if list_all rd_ready ?services \<and> snd (queue_lines (readQueueDepths connect queues)) then 0 else 1)"
    by (simp add: status_main_def Let_def split: prod.split)
  ultimately show ?thesis by (simp add: ready depths)
qed


text \<open>Five services of which the Payment service has lost its broker.\<close>

definition sample_endpoints :: Endpoints where
  "sample_endpoints = \<lparr>ep_services = map (\<lambda>name. (name, ''http://'' @ name)) SERVICE_NAMES, ep_rabbitMqUrl = ''amqp://localhost''\<rparr>"

definition sample_broker :: "Service \<Rightarrow> probe_result" where
  "sample_broker s = ProbeReturns (s \<noteq> PaymentService)"

definition sample_fetch :: http_lib where
  "sample_fetch request =
     (case map_of (map (\<lambda>s. (service_url sample_endpoints (service_name s) ''/ready'', service_ready_response s (sample_broker s) (ProbeReturns True)))
        [OrderService, PaymentService, InventoryService, DeliveryService, NotificationService]) (rq_url request) of
        Some response \<Rightarrow> Inr (http_status response, json_text (\<lambda>_. []) (http_body response))
      | None \<Rightarrow> Inl (JsError ''fetch failed''))"

theorem status_reports_health_witness:
  "snd (status_main sample_fetch (\<lambda>_. None) (\<lambda>_. []) None
     (\<lambda>_. \<lparr>qp_channel = None, qp_check = Inr (0, 1), qp_close = None\<rparr>) sample_endpoints) = 1"
proof -
  have urls: "service_url sample_endpoints (service_name s) ''/ready'' = ''http://'' @ service_name s @ ''/ready''" for s
    by (cases s) (simp_all add: service_url_def sample_endpoints_def SERVICE_NAMES_def)
  have "served sample_fetch (\<lambda>_. []) sample_endpoints sample_broker (\<lambda>_. ProbeReturns True)"
    unfolding served_def Let_def
  proof (intro allI impI)
    fix s and request :: http_request
    assume "rq_url request = service_url sample_endpoints (service_name s) ''/ready''"
    then have "rq_url request = ''http://'' @ service_name s @ ''/ready''" unfolding urls .
    then show "sample_fetch request = Inr (http_status (service_ready_response s (sample_broker s) (ProbeReturns True)),
        json_text (\<lambda>_. []) (http_body (service_ready_response s (sample_broker s) (ProbeReturns True))))"
      by (cases s) (simp_all add: sample_fetch_def urls)
  qed
  from status_reports_health [OF this, of "\<lambda>_. None" None "\<lambda>_. \<lparr>qp_channel = None, qp_check = Inr (0, 1), qp_close = None\<rparr>"]
  show ?thesis by (auto simp: dependencies_ready_def sample_broker_def)
qed

end
