(* ===== verification/OperatorCli.thy ===== *)
theory OperatorCli
  imports DeadLetters LogTrace SystemProbe
begin

text \<open>
  tools/cli/src/dlq.ts and trace.ts: the commands around the dead-letter tools and the trace, from the
  arguments of the process to its exit code. What is printed is part of the state; text outside ASCII
  is written as its UTF-8 bytes.
\<close>

section \<open>Printing\<close>

record console =
  co_out :: "string list"
  co_err :: "string list"

record dlq_world = console +
  dw_queue :: "string \<Rightarrow> dlq_state"

definition print :: "string \<Rightarrow> ('a console_scheme, unit) io" where
  "print line c = (Inr (), c \<lparr>co_out := co_out c @ [line]\<rparr>)"

definition print_error :: "string \<Rightarrow> ('a console_scheme, unit) io" where
  "print_error line c = (Inr (), c \<lparr>co_err := co_err c @ [line]\<rparr>)"

definition NL :: string where "NL = [CHR 0x0A]"

section \<open>dlq\<close>

definition USAGE :: string where
  "USAGE = ''Usage:'' @ NL @ ''  npm run dlq [-- list [<queue>]]'' @ NL @ ''  npm run dlq -- replay <queue> [--limit <n>]'' @ NL @ NL @
     ''Queues: '' @ join '', '' (map queueName COMMERCE_TOPOLOGY)"

definition or_text :: "string option \<Rightarrow> string \<Rightarrow> string" where
  "or_text v d = (case v of None \<Rightarrow> d | Some s \<Rightarrow> s)"

definition js_positive :: "int \<Rightarrow> jsnum \<Rightarrow> bool" where
  "js_positive n x = js_less (Fin (of_int n)) x"

definition formatSummary :: "message_lib \<Rightarrow> DeadLetterSummary \<Rightarrow> string" where
  "formatSummary lib summary =
     (let number = (\<lambda>n. String_of (ml_num_text lib) (JNum n));
          death = (case ds_death summary of
            Some d \<Rightarrow> de_reason d @ '' by '' @ de_queue d @
              (case de_time d of Some t \<Rightarrow> if t = [] then [] else '' at '' @ t | None \<Rightarrow> []) @
              (if js_positive 1 (de_count d) then '' ('' @ number (de_count d) @ '' times)'' else [])
          | None \<Rightarrow> ''no x-death header'')
      in ''    '' @ or_text (ds_eventType summary) ''unknown type'' @ ''  '' @
         ''event '' @ or_text (ds_messageId summary) ''?'' @ ''  '' @
         ''order '' @ or_text (ds_orderId summary) ''?'' @ ''  '' @
         ''correlation '' @ or_text (ds_correlationId summary) ''?'' @ NL @
         ''      '' @ death @
         (if js_positive 0 (ds_replayCount summary) then '', replayed '' @ number (ds_replayCount summary) @ '' time(s) before'' else []))"

text \<open>A call on the dead-letter queue of a pair; the rest of the broker is not touched.\<close>

definition on_queue :: "QueuePair \<Rightarrow> (dlq_state, 'r) io \<Rightarrow> (dlq_world, 'r) io" where
  "on_queue queue f w =
     (let (r, s) = f (dw_queue w (qp_queueName queue)) in (r, w \<lparr>dw_queue := (dw_queue w)(qp_queueName queue := s)\<rparr>))"

definition more_line :: "nat \<Rightarrow> string" where
  "more_line n = ''    '' @ [CHR 0xE2, CHR 0x80, CHR 0xA6] @ '' '' @ nat_text n @ '' more''"

text \<open>One queue of the list: its total, and its first messages.\<close>

definition list_queue :: "message_lib \<Rightarrow> (string \<Rightarrow> replay_env) \<Rightarrow> int \<Rightarrow> QueuePair \<Rightarrow> (dlq_world, nat) io" where
  "list_queue lib env limit queue =
     io_bind (on_queue queue (inspectDeadLetters lib (env (qp_queueName queue)) limit)) (\<lambda>(total, messages).
     io_bind (print (qp_deadLetterQueueName queue @ '': '' @ nat_text total @ '' message(s)'')) (\<lambda>_.
     io_bind (io_forEach (\<lambda>m. print (formatSummary lib m)) messages) (\<lambda>_.
     io_bind (if length messages < total then print (more_line (total - length messages)) else io_return ()) (\<lambda>_.
     io_return total))))"

fun list_queues :: "message_lib \<Rightarrow> (string \<Rightarrow> replay_env) \<Rightarrow> int \<Rightarrow> QueuePair list \<Rightarrow> (dlq_world, nat) io" where
  "list_queues lib env limit [] = io_return 0"
| "list_queues lib env limit (q # qs) =
     io_bind (list_queue lib env limit q) (\<lambda>n. io_bind (list_queues lib env limit qs) (\<lambda>total. io_return (n + total)))"

text \<open>\<open>resolveQueuePair\<close> of one queue, or of every queue of the topology; the first that throws ends it.\<close>

definition dlq_list :: "message_lib \<Rightarrow> (string \<Rightarrow> replay_env) \<Rightarrow> string option \<Rightarrow> (dlq_world, int) io" where
  "dlq_list lib env name =
     (let named = (case name of Some n \<Rightarrow> n \<noteq> [] | None \<Rightarrow> False);
          queues = read_all (\<lambda>n. resolveQueuePair n CONSUMER_QUEUES) (if named then [the name] else map queueName COMMERCE_TOPOLOGY)
      in case queues of
           Inl e \<Rightarrow> (\<lambda>w. (Inl e, w))
         | Inr qs \<Rightarrow>
             io_bind (list_queues lib env (if named then 20 else 3) qs) (\<lambda>total.
             io_bind (if 0 < total then print (NL @ ''Fix the cause first (see the services' error logs), then:'' @ NL @ ''  npm run dlq -- replay <queue>'')
                      else io_return ()) (\<lambda>_. io_return 0)))"

definition replayed_line :: "QueuePair \<Rightarrow> DeadLetterSummary \<Rightarrow> string" where
  "replayed_line queue summary = ''  replayed '' @ or_text (ds_eventType summary) ''message'' @ '' '' @ or_text (ds_messageId summary) [] @ '' '' @
     ''(order '' @ or_text (ds_orderId summary) ''?'' @ '') -> '' @ qp_queueName queue"


text \<open>\<open>onReplayed\<close> prints each message as it has moved, also when the replay fails later.\<close>

definition print_replayed :: "QueuePair \<Rightarrow> nat \<Rightarrow> (dlq_world, unit) io" where
  "print_replayed queue before w =
     io_forEach (\<lambda>m. print (replayed_line queue m)) (drop before (dq_replayed (dw_queue w (qp_queueName queue)))) w"

definition dlq_replay :: "message_lib \<Rightarrow> (string \<Rightarrow> replay_env) \<Rightarrow> string \<Rightarrow> int option \<Rightarrow> (dlq_world, int) io" where
  "dlq_replay lib env name limit w =
     (case resolveQueuePair name CONSUMER_QUEUES of
        Inl e \<Rightarrow> (Inl e, w)
      | Inr queue \<Rightarrow>
          (let before = length (dq_replayed (dw_queue w (qp_queueName queue)));
               (r, w') = on_queue queue (replayDeadLetters lib (env (qp_queueName queue)) queue limit) w;
               w'' = snd (print_replayed queue before w')
           in case r of
                Inl e \<Rightarrow> (Inl e, w'')
              | Inr result \<Rightarrow>
                  io_bind (print (NL @ ''Replayed '' @ nat_text (rr_replayed result) @ '' message(s) from '' @ qp_deadLetterQueueName queue @ ''; '' @
                    nat_text (rr_remaining result) @ '' remaining.'')) (\<lambda>_. io_return 0) w''))"

text \<open>\<open>Number\<close> of the argument after \<open>--limit\<close>; none there is \<open>NaN\<close>.\<close>

definition dlq_parseLimit :: "(string \<Rightarrow> jsnum) \<Rightarrow> string list \<Rightarrow> js_error + int option" where
  "dlq_parseLimit string_number args =
     (case dropWhile (\<lambda>a. a \<noteq> ''--limit'') args of
        [] \<Rightarrow> Inr None
      | _ # after \<Rightarrow>
          (case (case after of [] \<Rightarrow> NaN | a # _ \<Rightarrow> string_number a) of
             Fin r \<Rightarrow> if of_int \<lfloor>r\<rfloor> = r \<and> 1 \<le> r then Inr (Some \<lfloor>r\<rfloor>) else Inl (JsError ''--limit expects a positive integer.'')
           | _ \<Rightarrow> Inl (JsError ''--limit expects a positive integer.'')))"

text \<open>
  \<open>main\<close> with its \<open>catch\<close>: \<open>connect\<close> is what reading the endpoints and connecting came to. The limit is
  read before the replay begins.
\<close>

definition dlq_main ::
    "message_lib \<Rightarrow> (string \<Rightarrow> replay_env) \<Rightarrow> js_error option \<Rightarrow> string list \<Rightarrow> dlq_world \<Rightarrow> int \<times> dlq_world" where
  "dlq_main lib env connect argv w =
     (let command = (case argv of [] \<Rightarrow> ''list'' | c # _ \<Rightarrow> c);
          name = (case argv of _ # n # _ \<Rightarrow> Some n | _ \<Rightarrow> None);
          work = (if command \<noteq> ''list'' \<and> command \<noteq> ''replay'' \<or> command = ''replay'' \<and> or_text name [] = [] then
              io_bind (print_error USAGE) (\<lambda>_. io_return 2)
            else case connect of
              Some e \<Rightarrow> (\<lambda>w. (Inl e, w))
            | None \<Rightarrow> if command = ''list'' then dlq_list lib env name
                else (case dlq_parseLimit (ml_string_number lib) (drop 2 argv) of
                  Inl e \<Rightarrow> (\<lambda>w. (Inl e, w))
                | Inr limit \<Rightarrow> dlq_replay lib env (or_text name []) limit))
      in case work w of
           (Inr code, w') \<Rightarrow> (code, w')
         | (Inl e, w') \<Rightarrow> (1, snd (print_error (error_message e) w')))"

section \<open>trace\<close>

definition TRACE_USAGE :: string where
  "TRACE_USAGE = ''Usage: npm run --silent trace -- <correlation-or-order-id> [log files...]'' @ NL @
     ''Reads the services' JSON logs from the files or from stdin.''"

text \<open>\<open>readLines\<close>: the named files one after the other, or standard input when none is named.\<close>

definition readLines :: "(string \<Rightarrow> string list) \<Rightarrow> string list \<Rightarrow> string list \<Rightarrow> string list" where
  "readLines file stdin files = (if 0 < length files then concat (map file files) else stdin)"

definition trace_main ::
    "(string \<Rightarrow> js option) \<Rightarrow> (string \<Rightarrow> rat) \<Rightarrow> (rat \<Rightarrow> string) \<Rightarrow> (string \<Rightarrow> string list) \<Rightarrow> string list \<Rightarrow> string list \<Rightarrow> int \<times> console" where
  "trace_main json_parse collation num_text file stdin argv =
     (let identifier = (case argv of [] \<Rightarrow> [] | i # _ \<Rightarrow> i);
          entries = selectTrace json_parse collation (readLines file stdin (drop 1 argv)) identifier
      in if identifier = [] then (2, \<lparr>co_out = [], co_err = [TRACE_USAGE]\<rparr>)
         else if length entries = 0 then (1, \<lparr>co_out = [], co_err = [''No log entries found for '' @ identifier @ ''.'']\<rparr>)
         else (0, \<lparr>co_out = map (formatLogEntry num_text) entries, co_err = []\<rparr>))"


section \<open>Only a replay moves messages\<close>

text \<open>Every queue the broker holds, except those of S, is as it was but for what arrived.\<close>

definition kept_outside :: "string set \<Rightarrow> dlq_world \<Rightarrow> dlq_world \<Rightarrow> bool" where
  "kept_outside S w w' \<longleftrightarrow> (\<forall>q. q \<notin> S \<longrightarrow> dq_unacked (dw_queue w q) = [] \<longrightarrow> dq_unacked (dw_queue w' q) = []
     \<and> dq_target (dw_queue w' q) = dq_target (dw_queue w q) \<and> (\<exists>arrived. dq_ready (dw_queue w' q) = dq_ready (dw_queue w q) @ arrived))"

lemma kept_refl: "dw_queue w = dw_queue w' \<Longrightarrow> kept_outside S w w'"
  by (auto simp: kept_outside_def)

lemma kept_trans: "kept_outside S w w1 \<Longrightarrow> kept_outside S w1 w2 \<Longrightarrow> kept_outside S w w2"
  unfolding kept_outside_def by (metis append.assoc)

definition keeps :: "(dlq_world, 'a) io \<Rightarrow> bool" where
  "keeps f \<longleftrightarrow> (\<forall>w. kept_outside {} w (snd (f w)))"

lemma keeps_bind: "\<lbrakk>keeps f; \<And>x. keeps (g x)\<rbrakk> \<Longrightarrow> keeps (io_bind f g)"
  unfolding keeps_def io_bind_def
  by (auto split: prod.split sum.split) (metis kept_trans snd_conv)+

lemma keeps_print: "keeps (print line)" "keeps (print_error line)" "keeps (io_return x)" "keeps (\<lambda>w. (Inl e, w))"
  by (simp_all add: keeps_def print_def print_error_def io_return_def kept_refl)

lemma keeps_forEach: "(\<And>x. keeps (f x)) \<Longrightarrow> keeps (io_forEach f xs)"
  by (induction xs) (auto intro: keeps_bind keeps_print)

lemma keeps_inspect: "keeps (on_queue queue (inspectDeadLetters lib env limit))"
  unfolding keeps_def kept_outside_def on_queue_def
  by (auto split: prod.split dest: inspect_keeps)

lemmas keeps_intros = keeps_bind keeps_forEach keeps_print keeps_inspect

lemma keeps_list: "keeps (dlq_list lib env name)"
proof -
  have one: "keeps (list_queue lib env limit q)" for limit q
    unfolding list_queue_def by (auto intro!: keeps_intros)
  then have "keeps (list_queues lib env limit qs)" for limit qs
    by (induction qs) (auto intro!: keeps_intros)
  then show ?thesis unfolding dlq_list_def by (auto simp: Let_def split: sum.split intro!: keeps_intros)
qed

lemma printed_queue: "dw_queue (snd (io_forEach (\<lambda>m. print (f m)) ms w)) = dw_queue w"
  by (induction ms arbitrary: w) (auto simp: io_return_def io_bind_def print_def)

lemma replay_touches:
  assumes "resolveQueuePair name CONSUMER_QUEUES = Inr queue" "dq_unacked (dw_queue w (qp_queueName queue)) = []"
  obtains r s' where "replayDeadLetters lib (env (qp_queueName queue)) queue limit (dw_queue w (qp_queueName queue)) = (r, s')"
    "dw_queue (snd (dlq_replay lib env name limit w)) = (dw_queue w)(qp_queueName queue := s')"
    "fst (dlq_replay lib env name limit w) = map_sum id (\<lambda>_. 0) r"
proof -
  obtain r s' where r: "replayDeadLetters lib (env (qp_queueName queue)) queue limit (dw_queue w (qp_queueName queue)) = (r, s')" by fastforce
  moreover from this have "dw_queue (snd (dlq_replay lib env name limit w)) = (dw_queue w)(qp_queueName queue := s')"
    "fst (dlq_replay lib env name limit w) = map_sum id (\<lambda>_. 0) r"
    by (auto simp: dlq_replay_def assms(1) on_queue_def Let_def print_replayed_def printed_queue io_bind_def print_def io_return_def split: sum.split)
  ultimately show thesis using that by blast
qed

lemma list_code: "fst (dlq_list lib env name w) = Inr c \<Longrightarrow> c = 0"
  by (auto simp: dlq_list_def io_bind_def io_return_def Let_def split: sum.splits prod.splits)

text \<open>What \<open>main\<close> makes of the work's result.\<close>

definition dlq_exit :: "(js_error + int) \<times> dlq_world \<Rightarrow> int \<times> dlq_world" where
  "dlq_exit r = (case r of (Inr code, w') \<Rightarrow> (code, w') | (Inl e, w') \<Rightarrow> (1, snd (print_error (error_message e) w')))"

lemma dlq_exit_queue: "dw_queue (snd (dlq_exit r)) = dw_queue (snd r)"
  "fst (dlq_exit r) = (case fst r of Inr code \<Rightarrow> code | Inl e \<Rightarrow> 1)"
  by (auto simp: dlq_exit_def print_error_def split: prod.split sum.split)

lemma kept_queue: "dw_queue w1 = dw_queue w2 \<Longrightarrow> kept_outside S w w1 = kept_outside S w w2"
  by (simp add: kept_outside_def)

lemma dlq_main_cases:
  obtains "dlq_main lib env connect argv w = dlq_exit (Inr 2, snd (print_error USAGE w))"
  | e where "dlq_main lib env connect argv w = dlq_exit (Inl e, w)"
  | name where "dlq_main lib env connect argv w = dlq_exit (dlq_list lib env name w)"
  | name rest limit where "argv = ''replay'' # name # rest" "dlq_main lib env connect argv w = dlq_exit (dlq_replay lib env name limit w)"
proof (cases "argv \<noteq> [] \<and> hd argv \<noteq> ''list'' \<and> (hd argv \<noteq> ''replay'' \<or> tl argv = [] \<or> hd (tl argv) = [])")
  case True
  then have "dlq_main lib env connect argv w = dlq_exit (Inr 2, snd (print_error USAGE w))"
    by (cases argv; cases "tl argv") (auto simp: dlq_main_def Let_def dlq_exit_def io_bind_def io_return_def print_error_def or_text_def)
  then show thesis by (rule that(1))
next
  case usage: False
  show thesis
  proof (cases connect)
    case (Some e)
    with usage have "dlq_main lib env connect argv w = dlq_exit (Inl e, w)"
      by (cases argv; cases "tl argv") (auto simp: dlq_main_def Let_def dlq_exit_def or_text_def)
    then show thesis by (rule that(2))
  next
    case connect: None
    show thesis
    proof (cases "argv = [] \<or> hd argv = ''list''")
      case True
      with connect have "dlq_main lib env connect argv w = dlq_exit (dlq_list lib env (case argv of _ # n # _ \<Rightarrow> Some n | _ \<Rightarrow> None) w)"
        by (cases argv) (auto simp: dlq_main_def Let_def dlq_exit_def)
      then show thesis by (rule that(3))
    next
      case False
      with usage obtain name rest where argv: "argv = ''replay'' # name # rest" "name \<noteq> []" by (cases argv; cases "tl argv") auto
      show thesis
      proof (cases "dlq_parseLimit (ml_string_number lib) rest")
        case (Inl e)
        with argv connect have "dlq_main lib env connect argv w = dlq_exit (Inl e, w)" by (simp add: dlq_main_def Let_def dlq_exit_def or_text_def)
        then show thesis by (rule that(2))
      next
        case (Inr limit)
        with argv connect have "dlq_main lib env connect argv w = dlq_exit (dlq_replay lib env name limit w)"
          by (simp add: dlq_main_def Let_def dlq_exit_def or_text_def)
        with argv(1) show thesis by (rule that(4))
      qed
    qed
  qed
qed

text \<open>
  Whatever the arguments of the command and whatever fails: only the queue named in a replay command
  loses messages, and what it loses is in its consumer queue.
\<close>

lemma dlq_moves_only_when_told:
  assumes "\<And>q. dq_unacked (dw_queue w q) = []" "dlq_main lib env connect argv w = (code, w')"
  shows "code \<in> {0, 1, 2} \<and> (kept_outside {} w w'
    \<or> (\<exists>name rest queue j arrived extra. argv = ''replay'' # name # rest \<and> resolveQueuePair name CONSUMER_QUEUES = Inr queue
        \<and> kept_outside {qp_queueName queue} w w'
        \<and> dq_ready (dw_queue w' (qp_queueName queue)) = drop j (dq_ready (dw_queue w (qp_queueName queue))) @ arrived
        \<and> dq_target (dw_queue w' (qp_queueName queue)) = dq_target (dw_queue w (qp_queueName queue))
            @ map (replay_copy lib queue) (take j (dq_ready (dw_queue w (qp_queueName queue)))) @ extra))"
proof (cases rule: dlq_main_cases [of lib env connect argv w])
  case 1
  with assms(2) have "code = 2" "dw_queue w' = dw_queue w" by (auto simp: dlq_exit_def print_error_def)
  then show ?thesis by (simp add: kept_refl)
next
  case (2 e)
  with assms(2) have "code = 1" "dw_queue w' = dw_queue w" using dlq_exit_queue [of "(Inl e, w)"] by simp_all
  then show ?thesis by (simp add: kept_refl)
next
  case (3 name)
  let ?r = "dlq_list lib env name w"
  from 3 assms(2) have "dlq_exit ?r = (code, w')" by simp
  with dlq_exit_queue [of ?r] have code: "code = (case fst ?r of Inr code \<Rightarrow> code | Inl e \<Rightarrow> 1)" and w': "dw_queue w' = dw_queue (snd ?r)"
    by simp_all
  from code list_code [of lib env name w] have "code \<in> {0, 1, 2}" by (auto split: sum.splits)
  moreover have "kept_outside {} w w'" using keeps_list kept_queue [OF w'] by (auto simp: keeps_def)
  ultimately show ?thesis by blast
next
  case (4 name rest limit)
  let ?r = "dlq_replay lib env name limit w"
  from 4 assms(2) have "dlq_exit ?r = (code, w')" by simp
  with dlq_exit_queue [of ?r] have code: "code = (case fst ?r of Inr code \<Rightarrow> code | Inl e \<Rightarrow> 1)" and w': "dw_queue w' = dw_queue (snd ?r)"
    by simp_all
  show ?thesis
  proof (cases "resolveQueuePair name CONSUMER_QUEUES")
    case (Inl e)
    then have "?r = (Inl e, w)" by (simp add: dlq_replay_def)
    with code w' show ?thesis by (simp add: kept_refl)
  next
    case (Inr queue)
    from replay_touches [OF Inr assms(1)] obtain r s' where
      run: "replayDeadLetters lib (env (qp_queueName queue)) queue limit (dw_queue w (qp_queueName queue)) = (r, s')"
      and q: "dw_queue (snd ?r) = (dw_queue w)(qp_queueName queue := s')" and f: "fst ?r = map_sum id (\<lambda>_. 0) r" by blast
    from replay_moved [OF run assms(1) refl] obtain j x where "moved lib queue x j (dw_queue w (qp_queueName queue)) r s'
        \<or> moved lib queue x j (dw_queue w (qp_queueName queue)) (Inl undefined :: js_error + ReplayResult) s'" "dq_unacked s' = []"
      by blast
    then obtain arrived extra where "dq_ready s' = drop j (dq_ready (dw_queue w (qp_queueName queue))) @ arrived"
      "dq_target s' = dq_target (dw_queue w (qp_queueName queue)) @ map (replay_copy lib queue) (take j (dq_ready (dw_queue w (qp_queueName queue)))) @ extra"
      by (auto simp: moved_def)
    moreover have "kept_outside {qp_queueName queue} w w'" using w' q by (simp add: kept_outside_def)
    moreover have "code \<in> {0, 1, 2}" using code f by (cases r) auto
    ultimately show ?thesis using 4(1) Inr w' q by auto
  qed
qed

end
