(* ===== verification/DemoSupport.thy ===== *)
theory DemoSupport
  imports SystemProbe OrderRequests
begin

text \<open>
  tools/cli/src/eventTap.ts and demoSupport.ts: the tap that observes the exchange and lets the demos
  wait for messages, and their checks, polls, submissions and report. Messages, timers and what each
  call comes to are arguments, by the order in which they happen.
\<close>

section \<open>The event tap\<close>

record ConsumedMessage =
  cm_content :: string
  cm_messageId :: js
  cm_type :: js
  cm_correlationId :: js
  cm_routingKey :: string

definition text_or :: "(rat \<Rightarrow> string) \<Rightarrow> js \<Rightarrow> string \<Rightarrow> string" where
  "text_or num_text v d = String_of num_text (if v = JUndefined \<or> v = JNull then JStr d else v)"

text \<open>A message of which no envelope can be read is observed under its AMQP properties.\<close>

definition observe :: "(string \<Rightarrow> js option) \<Rightarrow> (rat \<Rightarrow> string) \<Rightarrow> int \<Rightarrow> ConsumedMessage \<Rightarrow> ObservedMessage" where
  "observe json_parse num_text now m =
     (let body = (case json_parse (cm_content m) of Some v \<Rightarrow> v | None \<Rightarrow> JUndefined)
      in \<lparr>obs_receivedAt = now, obs_routingKey = cm_routingKey m,
          obs_envelope = (case readEnvelope body of Some e \<Rightarrow> e
            | None \<Rightarrow> \<lparr>oe_eventId = text_or num_text (cm_messageId m) ''unknown'', oe_eventType = text_or num_text (cm_type m) ''unknown'',
                oe_correlationId = text_or num_text (cm_correlationId m) [], oe_orderId = None\<rparr>),
          obs_body = body\<rparr>)"

text \<open>
  A call of \<open>waitFor\<close>: pending as long as its listener is registered and its timer runs; both end when it
  is settled.
\<close>

record waiter =
  wt_predicate :: "ObservedMessage list \<Rightarrow> bool"
  wt_result :: "bool option"

record event_tap =
  tap_messages :: "ObservedMessage list"
  tap_waiters :: "waiter list"

definition waitFor :: "(ObservedMessage list \<Rightarrow> bool) \<Rightarrow> event_tap \<Rightarrow> event_tap" where
  "waitFor predicate tap = tap \<lparr>tap_waiters := tap_waiters tap @
     [\<lparr>wt_predicate = predicate, wt_result = (if predicate (tap_messages tap) then Some True else None)\<rparr>]\<rparr>"

definition listener :: "ObservedMessage list \<Rightarrow> waiter \<Rightarrow> waiter" where
  "listener messages w = (if wt_result w = None \<and> wt_predicate w messages then w \<lparr>wt_result := Some True\<rparr> else w)"

definition record_message :: "ObservedMessage \<Rightarrow> event_tap \<Rightarrow> event_tap" where
  "record_message m tap =
     (let messages = tap_messages tap @ [m] in \<lparr>tap_messages = messages, tap_waiters = map (listener messages) (tap_waiters tap)\<rparr>)"

definition wait_timeout :: "nat \<Rightarrow> event_tap \<Rightarrow> event_tap" where
  "wait_timeout i tap =
     (if i < length (tap_waiters tap) \<and> wt_result (tap_waiters tap ! i) = None
      then tap \<lparr>tap_waiters := (tap_waiters tap)[i := (tap_waiters tap ! i) \<lparr>wt_result := Some False\<rparr>]\<rparr> else tap)"

datatype tap_event = Received ObservedMessage | WaitStarted "ObservedMessage list \<Rightarrow> bool" | TimerFired nat

fun tap_step :: "tap_event \<Rightarrow> event_tap \<Rightarrow> event_tap" where
  "tap_step (Received m) tap = record_message m tap"
| "tap_step (WaitStarted p) tap = waitFor p tap"
| "tap_step (TimerFired i) tap = wait_timeout i tap"

text \<open>
  \<open>open\<close>: the calls are connect, createChannel, checkExchange, assertQueue, bindQueue and consume; the
  first that fails ends it, and the connection is closed again. The result says whether one is open.
\<close>

fun open_tap :: "(nat \<Rightarrow> js_error option) \<Rightarrow> (js_error + event_tap) \<times> bool" where
  "open_tap fails =
     (case fails 0 of
        Some e \<Rightarrow> (Inl e, False)
      | None \<Rightarrow>
          (case List.map_filter fails [1, 2, 3, 4, 5] of
             e # _ \<Rightarrow> (Inl e, False)
           | [] \<Rightarrow> (Inr \<lparr>tap_messages = [], tap_waiters = []\<rparr>, True)))"

record RawEvent =
  raw_eventId :: string
  raw_eventType :: string
  raw_correlationId :: string
  raw_body :: js

record TapPublication =
  tp_exchange :: string
  tp_routingKey :: string
  tp_content :: string
  tp_messageId :: string
  tp_correlationId :: string
  tp_type :: string

definition tap_publication :: "(rat \<Rightarrow> string) \<Rightarrow> string \<Rightarrow> RawEvent \<Rightarrow> TapPublication" where
  "tap_publication num_text routingKey event =
     \<lparr>tp_exchange = ''commerce.events'', tp_routingKey = routingKey, tp_content = json_text num_text (raw_body event),
      tp_messageId = raw_eventId event, tp_correlationId = raw_correlationId event, tp_type = raw_eventType event\<rparr>"

text \<open>The calls are createConfirmChannel, publish with its confirm, and the channel's close in \<open>finally\<close>.\<close>

definition tap_publish :: "(rat \<Rightarrow> string) \<Rightarrow> (nat \<Rightarrow> js_error option) \<Rightarrow> string \<Rightarrow> RawEvent \<Rightarrow> (js_error + unit) \<times> TapPublication list" where
  "tap_publish num_text fails routingKey event =
     (case fails 0 of
        Some e \<Rightarrow> (Inl e, [])
      | None \<Rightarrow>
          ((case fails 2 of Some e \<Rightarrow> Inl e | None \<Rightarrow> (case fails 1 of Some e \<Rightarrow> Inl e | None \<Rightarrow> Inr ())),
           [tap_publication num_text routingKey event]))"

section \<open>Waiting\<close>

text \<open>What one call of \<open>waitFor\<close> comes to, in isolation.\<close>

fun wait_outcome :: "(ObservedMessage list \<Rightarrow> bool) \<Rightarrow> nat \<Rightarrow> ObservedMessage list \<Rightarrow> tap_event list \<Rightarrow> bool option" where
  "wait_outcome p i ms [] = None"
| "wait_outcome p i ms (Received m # es) = (if p (ms @ [m]) then Some True else wait_outcome p i (ms @ [m]) es)"
| "wait_outcome p i ms (TimerFired j # es) = (if j = i then Some False else wait_outcome p i ms es)"
| "wait_outcome p i ms (WaitStarted q # es) = wait_outcome p i ms es"

definition run_tap :: "tap_event list \<Rightarrow> event_tap \<Rightarrow> event_tap" where
  "run_tap es tap = foldl (\<lambda>t e. tap_step e t) tap es"

lemma tap_step_keeps:
  assumes "i < length (tap_waiters tap)"
  shows "i < length (tap_waiters (tap_step e tap))"
    "wt_predicate (tap_waiters (tap_step e tap) ! i) = wt_predicate (tap_waiters tap ! i)"
    "wt_result (tap_waiters tap ! i) \<noteq> None \<Longrightarrow> tap_waiters (tap_step e tap) ! i = tap_waiters tap ! i"
  using assms
  by (cases e; auto simp: record_message_def waitFor_def wait_timeout_def listener_def Let_def nth_append nth_list_update)+

lemma settled_stays:
  "i < length (tap_waiters tap) \<Longrightarrow> wt_result (tap_waiters tap ! i) \<noteq> None
    \<Longrightarrow> tap_waiters (run_tap es tap) ! i = tap_waiters tap ! i"
  by (induction es arbitrary: tap) (simp_all add: run_tap_def tap_step_keeps)

text \<open>
  However the messages, the timers and other waits interleave, a wait is answered by its own predicate
  and timer alone: true at the first message that fulfils it, false if its timer is first, and then
  for good.
\<close>

lemma wait_is_independent:
  assumes "i < length (tap_waiters tap)" "wt_result (tap_waiters tap ! i) = None"
  shows "wt_result (tap_waiters (run_tap es tap) ! i) = wait_outcome (wt_predicate (tap_waiters tap ! i)) i (tap_messages tap) es"
  using assms
proof (induction es arbitrary: tap)
  case Nil
  then show ?case by (simp add: run_tap_def)
next
  case (Cons e es)
  have run: "run_tap (e # es) tap = run_tap es (tap_step e tap)" by (simp add: run_tap_def)
  note kept = tap_step_keeps [OF Cons.prems(1), of e]
  have new: "wt_result (tap_waiters (tap_step e tap) ! i) =
      (case e of Received m \<Rightarrow> if wt_predicate (tap_waiters tap ! i) (tap_messages tap @ [m]) then Some True else None
       | TimerFired j \<Rightarrow> if j = i then Some False else None | WaitStarted q \<Rightarrow> None)"
    "tap_messages (tap_step e tap) = tap_messages tap @ (case e of Received m \<Rightarrow> [m] | _ \<Rightarrow> [])"
    using Cons.prems
    by (cases e; auto simp: record_message_def waitFor_def wait_timeout_def listener_def Let_def nth_append nth_list_update)+
  show ?case
  proof (cases "wt_result (tap_waiters (tap_step e tap) ! i)")
    case None
    with Cons.IH [OF kept(1) None] new kept(2) show ?thesis unfolding run by (cases e) (auto split: if_splits)
  next
    case (Some b)
    with settled_stays [OF kept(1), of es] new show ?thesis unfolding run by (cases e) (auto split: if_splits)
  qed
qed

section \<open>Polling\<close>

text \<open>
  \<open>poll\<close>: the k-th read and the time after it are arguments. It reads until it is finished or the deadline
  has passed, so nothing but the clock bounds it.
\<close>

partial_function (option) poll_from ::
    "(nat \<Rightarrow> js_error + 'a) \<Rightarrow> (nat \<Rightarrow> int) \<Rightarrow> ('a \<Rightarrow> bool) \<Rightarrow> int \<Rightarrow> nat \<Rightarrow> ((js_error + 'a) \<times> nat) option" where
  "poll_from read now finished deadline k =
     (case read k of
        Inl e \<Rightarrow> Some (Inl e, k)
      | Inr v \<Rightarrow> if finished v \<or> deadline \<le> now k then Some (Inr v, k) else poll_from read now finished deadline (Suc k))"

definition poll :: "(nat \<Rightarrow> js_error + 'a) \<Rightarrow> (nat \<Rightarrow> int) \<Rightarrow> ('a \<Rightarrow> bool) \<Rightarrow> int \<Rightarrow> int \<Rightarrow> ((js_error + 'a) \<times> nat) option" where
  "poll read now finished start timeoutInMs = poll_from read now finished (start + timeoutInMs) 0"

lemmas poll_from_step = poll_from.simps

text \<open>Each read leaves less time, because the clock advances by the interval between two reads.\<close>

lemma poll_from_returns:
  assumes "\<And>k. now k + interval \<le> now (Suc k)" "0 < interval"
  shows "\<exists>r n. poll_from read now finished deadline k = Some (r, n) \<and> k \<le> n \<and> (k = n \<or> now (n - 1) < deadline)
    \<and> (\<forall>j. k \<le> j \<longrightarrow> j < n \<longrightarrow> (\<exists>v. read j = Inr v \<and> \<not> finished v)) \<and> r = read n
    \<and> (\<forall>v. r = Inr v \<longrightarrow> finished v \<or> deadline \<le> now n)"
proof (induction "nat (deadline - now k)" arbitrary: k rule: less_induct)
  case less
  show ?case
  proof (cases "\<exists>v. read k = Inr v \<and> \<not> finished v \<and> now k < deadline")
    case False
    then have "poll_from read now finished deadline k = Some (read k, k) \<and> (\<forall>v. read k = Inr v \<longrightarrow> finished v \<or> deadline \<le> now k)"
      by (subst poll_from_step) (auto split: sum.split)
    then show ?thesis by (intro exI [of _ "read k"] exI [of _ k]) auto
  next
    case True
    then obtain v where v: "read k = Inr v" "\<not> finished v" "now k < deadline" by blast
    from assms(1) [of k] assms(2) v(3) have "nat (deadline - now (Suc k)) < nat (deadline - now k)" by arith
    from less [OF this] obtain r n where rec: "poll_from read now finished deadline (Suc k) = Some (r, n)" "Suc k \<le> n"
      "Suc k = n \<or> now (n - 1) < deadline" "\<forall>j. Suc k \<le> j \<longrightarrow> j < n \<longrightarrow> (\<exists>v. read j = Inr v \<and> \<not> finished v)" "r = read n"
      "\<forall>v. r = Inr v \<longrightarrow> finished v \<or> deadline \<le> now n" by blast
    have "poll_from read now finished deadline k = Some (r, n)" using v rec(1) by (subst poll_from_step) simp
    moreover have "\<exists>v. read j = Inr v \<and> \<not> finished v" if "k \<le> j" "j < n" for j
      using that v rec(4) by (cases "k = j") auto
    moreover have "now (n - 1) < deadline" using rec(2,3) v(3) by auto
    ultimately show ?thesis using rec(2,5,6) by (intro exI [of _ r] exI [of _ n]) auto
  qed
qed

lemma clock_grows:
  assumes "\<And>k. now k + interval \<le> (now (Suc k) :: int)"
  shows "now 0 + int n * interval \<le> now n"
proof (induction n)
  case (Suc n)
  with assms [of n] show ?case by (simp add: algebra_simps)
qed simp

text \<open>
  Polling ends. If the clock advances by at least the interval between two reads, \<open>poll\<close> returns
  after at most one read more than the timeout has intervals, with the first value that is done if one is
  read before the deadline, with an error as soon as a read throws, and otherwise with what it read last.
\<close>

lemma poll_returns:
  assumes "\<And>k. now k + interval \<le> now (Suc k)" "0 < interval" "start \<le> now 0" "0 \<le> timeout"
  shows "\<exists>r n. poll read now finished start timeout = Some (r, n) \<and> int n * interval \<le> timeout + interval \<and> r = read n
    \<and> (\<forall>j < n. \<exists>v. read j = Inr v \<and> \<not> finished v)
    \<and> (\<forall>v. r = Inr v \<longrightarrow> finished v \<or> start + timeout \<le> now n)"
proof -
  from poll_from_returns [where now = now and interval = interval and k = 0 and deadline = "start + timeout" and read = read and finished = finished, OF assms(1,2)]
  obtain r n where rn: "poll_from read now finished (start + timeout) 0 = Some (r, n)" "0 = n \<or> now (n - 1) < start + timeout"
    "\<forall>j < n. \<exists>v. read j = Inr v \<and> \<not> finished v" "r = read n" "\<forall>v. r = Inr v \<longrightarrow> finished v \<or> start + timeout \<le> now n" by (elim exE conjE) simp
  have "int n * interval \<le> timeout + interval"
  proof (cases n)
    case (Suc m)
    with rn(2) clock_grows [of now interval m, OF assms(1)] assms(3) have "int m * interval \<le> timeout" by simp
    then show ?thesis by (simp add: Suc algebra_simps)
  qed (use assms in simp)
  with rn show ?thesis unfolding poll_def by blast
qed

section \<open>Checks and submissions\<close>

record demo_check =
  dc_description :: string
  dc_passed :: bool

record demo_state =
  de_checks :: "demo_check list"
  de_out :: "string list"

definition check :: "string \<Rightarrow> bool \<Rightarrow> 's demo_state_scheme \<Rightarrow> 's demo_state_scheme" where
  "check description passed s = s \<lparr>de_checks := de_checks s @ [\<lparr>dc_description = description, dc_passed = passed\<rparr>],
     de_out := de_out s @ [''  '' @ (if passed then ''PASS'' else ''FAIL'') @ ''  '' @ description]\<rparr>"

definition heading :: "string \<Rightarrow> 's demo_state_scheme \<Rightarrow> 's demo_state_scheme" where
  "heading title s = s \<lparr>de_out := de_out s @ [[CHR 0x0A] @ ''== '' @ title @ '' '' @ replicate (66 - length title) (CHR ''='')]\<rparr>"

definition reportResult :: "'s demo_state_scheme \<Rightarrow> int \<times> 's demo_state_scheme" where
  "reportResult s =
     (let failed = filter (\<lambda>c. \<not> dc_passed c) (de_checks s); s1 = heading ''Result'' s
      in (if length failed = 0 then 0 else 1,
          s1 \<lparr>de_out := de_out s1 @
            [if length failed = 0 then ''  All '' @ nat_text (length (de_checks s)) @ '' checks passed.''
             else ''  '' @ nat_text (length failed) @ '' of '' @ nat_text (length (de_checks s)) @ '' checks failed:'' @ [CHR 0x0A] @
               join [CHR 0x0A] (map (\<lambda>c. ''    - '' @ dc_description c) failed)]\<rparr>))"

definition waitForReadiness :: "(nat \<Rightarrow> ServiceReadiness list) \<Rightarrow> (nat \<Rightarrow> int) \<Rightarrow> int \<Rightarrow> int \<Rightarrow> string \<Rightarrow> demo_state \<Rightarrow> (bool \<times> demo_state) option" where
  "waitForReadiness readiness now start timeoutInMs title s =
     (case poll (\<lambda>k. Inr (readiness k)) now (list_all rd_ready) start timeoutInMs of
        Some (Inr services, n) \<Rightarrow>
          (let s1 = heading title s; s2 = s1 \<lparr>de_out := de_out s1 @ map service_line services\<rparr>
           in Some (list_all rd_ready services, check ''all five services report /ready'' (list_all rd_ready services) s2))
      | _ \<Rightarrow> None)"

definition RUN_ID_PATTERN :: "string \<Rightarrow> bool" where
  "RUN_ID_PATTERN s = (1 \<le> length s \<and> length s \<le> 64 \<and> list_all (\<lambda>c. is_alnum c \<or> c \<in> set ''._:-'') s)"

text \<open>\<open>generated\<close> is the text of the current time that the code uses when no run id is set.\<close>

definition run_id :: "Environment \<Rightarrow> string \<Rightarrow> js_error + string" where
  "run_id environment generated =
     (let given = (case environment ''DEMO_RUN_ID'' of Some v \<Rightarrow> trim v | None \<Rightarrow> []);
          chosen = (if given \<noteq> [] then given else generated)
      in if RUN_ID_PATTERN chosen then Inr chosen
         else Inl (JsError (''DEMO_RUN_ID may only contain letters, digits and . _ : - '' @ ''(at most 64 characters).'')))"

record SubmittedOrder =
  so_status :: nat
  so_submitted_orderId :: "string option"
  so_submittedAt :: int
  so_idempotencyKey :: string

definition order_request :: "(rat \<Rightarrow> string) \<Rightarrow> Endpoints \<Rightarrow> string \<Rightarrow> js \<Rightarrow> string \<Rightarrow> http_request" where
  "order_request num_text endpoints correlation body idempotency_key =
     \<lparr>rq_url = service_url endpoints ''order-service'' ''/orders'', rq_method = ''POST'',
      rq_headers = [(''content-type'', ''application/json''), (''x-correlation-id'', correlation), (''idempotency-key'', idempotency_key)],
      rq_body = Some (json_text num_text body), rq_timeoutInMs = 5000\<rparr>"

definition demo_submitOrder ::
    "http_lib \<Rightarrow> (string \<Rightarrow> js option) \<Rightarrow> (rat \<Rightarrow> string) \<Rightarrow> Endpoints \<Rightarrow> int \<Rightarrow> string \<Rightarrow> js \<Rightarrow> string \<Rightarrow> js_error + SubmittedOrder" where
  "demo_submitOrder fetch json_parse num_text endpoints now correlation body idempotency_key =
     and_then (requestJson fetch json_parse (order_request num_text endpoints correlation body idempotency_key)) (\<lambda>response.
       Inr \<lparr>so_status = hr_status response, so_submitted_orderId = js_string (js_get (hr_body response) ''orderId''),
         so_submittedAt = now, so_idempotencyKey = idempotency_key\<rparr>)"

text \<open>The order as its timeline endpoint shows it: status, outcome and entries.\<close>

definition readOrderTimeline ::
    "http_lib \<Rightarrow> (string \<Rightarrow> js option) \<Rightarrow> Endpoints \<Rightarrow> string \<Rightarrow> js_error + (js \<times> js \<times> js) option" where
  "readOrderTimeline fetch json_parse endpoints oid =
     and_then (requestJson fetch json_parse (get_request (service_url endpoints ''order-service'' (''/orders/'' @ oid)))) (\<lambda>response.
       let body = hr_body response
       in if hr_status response \<noteq> 200 \<or> \<not> (case body of JObj _ \<Rightarrow> True | JArr _ \<Rightarrow> True | _ \<Rightarrow> False) then Inr None
          else if js_get body ''order'' = JUndefined \<or> js_get body ''order'' = JNull then
            Inl (JsError (''Cannot read properties of '' @ (if js_get body ''order'' = JNull then ''null'' else ''undefined'') @ '' (reading 'status')''))
          else Inr (Some (js_get (js_get body ''order'') ''status'', js_get body ''outcome'', js_get body ''entries'')))"

definition eventsOf :: "ObservedMessage list \<Rightarrow> string \<Rightarrow> string \<Rightarrow> ObservedMessage list" where
  "eventsOf messages oid event_type =
     filter (\<lambda>m. oe_orderId (obs_envelope m) = Some oid \<and> oe_eventType (obs_envelope m) = event_type) messages"

definition names_notification :: "string \<Rightarrow> string \<Rightarrow> NotificationSummary \<Rightarrow> bool" where
  "names_notification oid kind n = (ns_orderId n = oid \<and> ns_type n = kind)"

definition waitForNotification ::
    "(nat \<Rightarrow> js_error + NotificationSummary list) \<Rightarrow> (nat \<Rightarrow> int) \<Rightarrow> int \<Rightarrow> string \<Rightarrow> string \<Rightarrow> (js_error + string option) option" where
  "waitForNotification read now start oid kind =
     map_option (\<lambda>(r, n). map_sum id (\<lambda>ns. map_option ns_message (List.find (names_notification oid kind) ns)) r)
       (poll read now (list_ex (names_notification oid kind)) start 10000)"

definition timeline_output :: "event_tap \<Rightarrow> string \<Rightarrow> int \<Rightarrow> string list" where
  "timeline_output tap oid submittedAt =
     (let timeline = buildOrderTimeline oid (tap_messages tap) submittedAt
      in (''  Events on commerce.events (outcome: '' @
            (case ot_outcome timeline of Delivered \<Rightarrow> ''Delivered'' | ReservationFailed \<Rightarrow> ''ReservationFailed'' | Pending \<Rightarrow> ''Pending'') @ ''):'')
         # formatTimeline timeline)"

lemma ok_not_space: "is_alnum c \<or> c \<in> set ''._:-'' \<Longrightarrow> \<not> is_space c"
  by (auto simp: is_alnum_def is_space_def Let_def)

text \<open>The correlation ids of the demos keep their place in the logs: the Order service accepts them.\<close>

lemma demo_correlation_accepted:
  assumes "run_id environment generated = Inr r" "length suffix \<le> 32" "list_all (\<lambda>c. is_alnum c \<or> c \<in> set ''._:-'') suffix"
  shows "resolveCorrelationId gen k (Some (''demo-'' @ r @ suffix)) = (''demo-'' @ r @ suffix, k)"
proof -
  let ?ok = "\<lambda>c. is_alnum c \<or> c \<in> set ''._:-''"
  from assms(1) have r: "RUN_ID_PATTERN r" by (auto simp: run_id_def Let_def split: if_splits)
  have ok: "list_all ?ok (''demo-'' @ r @ suffix)" using r assms(3) by (simp add: RUN_ID_PATTERN_def is_alnum_def)
  then have "\<forall>c \<in> set (''demo-'' @ r @ suffix). \<not> is_space c" using ok_not_space unfolding list_all_iff by blast
  from trim_id [OF this] ok r assms(2) show ?thesis
    by (simp add: resolveCorrelationId_def CORRELATION_ID_PATTERN_def RUN_ID_PATTERN_def)
qed

end
