(* ===== verification/RecoveryDemo.thy ===== *)
theory RecoveryDemo
  imports DemoSupport DeadLetters
begin

text \<open>
  tools/cli/src/recoveryDemo.ts: the script that stops the Payment service and the database, lets an
  order be dead-lettered, starts both again and replays. Every await of the script is made once, so
  what it comes to is a field of a record of answers; the containers it controls are known by the
  commands it gives. Of the output, the checks are modelled.
\<close>

section \<open>The script's state and its answers\<close>

record demo_world = demo_state +
  rd_commands :: "(string \<times> string) list"
  rd_startDatabase :: bool
  rd_startPayment :: bool
  rd_tap_open :: bool
  rd_connection_open :: bool

definition new_world :: demo_world where
  "new_world = \<lparr>de_checks = [], de_out = [], rd_commands = [], rd_startDatabase = False, rd_startPayment = False,
     rd_tap_open = False, rd_connection_open = False\<rparr>"

record recovery_answers =
  ra_readiness :: "ServiceReadiness list"
  ra_tap :: "js_error option"
  ra_connect :: "js_error option"
  ra_dead_before :: "string \<Rightarrow> js_error + nat"
  ra_stock_before :: "js_error + (string, jsnum) jsmap"
  ra_compose :: "nat \<Rightarrow> bool"
  ra_order :: "js_error + SubmittedOrder"
  ra_status :: "js_error + string"
  ra_dead_letters :: "js_error + nat"
  ra_inspection :: "js_error + DeadLetterSummary list"
  ra_messages :: "ObservedMessage list"
  ra_timeline_dead :: "js_error + nat"
  ra_recovered :: "js_error + string"
  ra_replay :: "js_error + ReplayResult"
  ra_timeline_replay :: "js_error + ReplayResult"
  ra_delivered :: bool
  ra_notification :: "js_error + string option"
  ra_stock_after :: "js_error + (string, jsnum) jsmap"
  ra_dead_after :: "string \<Rightarrow> js_error + nat"
  ra_timeline :: "js_error + (js \<times> js \<times> js) option"

text \<open>\<open>text.includes(part)\<close>.\<close>

fun has_part :: "string \<Rightarrow> string \<Rightarrow> bool" where
  "has_part part [] = (part = [])"
| "has_part part (c # cs) = (startsWith (c # cs) part \<or> has_part part cs)"

definition answer :: "js_error + 'a \<Rightarrow> ('s, 'a) io" where
  "answer r s = (r, s)"

definition check_io :: "string \<Rightarrow> bool \<Rightarrow> ('s demo_state_scheme, bool) io" where
  "check_io description passed s = (Inr passed, check description passed s)"

definition heading_io :: "string \<Rightarrow> ('s demo_state_scheme, unit) io" where
  "heading_io title s = (Inr (), heading title s)"

text \<open>\<open>compose\<close>: the command is given; whether it succeeded is the answer.\<close>

definition compose :: "recovery_answers \<Rightarrow> string \<Rightarrow> string \<Rightarrow> (demo_world, bool) io" where
  "compose a verb container s =
     (Inr (ra_compose a (length (rd_commands s))),
      s \<lparr>rd_commands := rd_commands s @ [(verb, container)],
         de_out := de_out s @ [''  $ docker compose '' @ verb @ '' '' @ container]\<rparr>)"

definition INVENTORY_QUEUE :: QueuePair where
  "INVENTORY_QUEUE = \<lparr>qp_queueName = ''inventory-service.payment-authorized'',
     qp_deadLetterQueueName = ''inventory-service.payment-authorized.dead-letter''\<rparr>"

definition ORDER_TIMELINE_QUEUE :: QueuePair where
  "ORDER_TIMELINE_QUEUE = \<lparr>qp_queueName = ''order-service.order-events'',
     qp_deadLetterQueueName = ''order-service.order-events.dead-letter''\<rparr>"

text \<open>What two of the answers are read from.\<close>

definition inventoryDatabaseStatus :: "ServiceReadiness list \<Rightarrow> string" where
  "inventoryDatabaseStatus readiness =
     (case List.find (\<lambda>s. rd_service s = ''inventory-service'') readiness of Some s \<Rightarrow> rd_detail s | None \<Rightarrow> [])"

definition deadLetterCount :: "string \<Rightarrow> QueueDepth list \<Rightarrow> nat" where
  "deadLetterCount name queues = (case List.find (\<lambda>q. qd_name q = name) queues of Some q \<Rightarrow> qd_messages q | None \<Rightarrow> 0)"

definition set_startPayment :: "bool \<Rightarrow> (demo_world, unit) io" where
  "set_startPayment b s = (Inr (), s \<lparr>rd_startPayment := b\<rparr>)"

definition set_startDatabase :: "bool \<Rightarrow> (demo_world, unit) io" where
  "set_startDatabase b s = (Inr (), s \<lparr>rd_startDatabase := b\<rparr>)"

text \<open>The entry with the most stock; of several, the first (\<open>sort\<close> is stable).\<close>

definition most_stock :: "(string, jsnum) jsmap \<Rightarrow> string \<times> jsnum" where
  "most_stock stock = (case stock of [] \<Rightarrow> ([], Fin 0)
     | e # es \<Rightarrow> foldl (\<lambda>best x. if js_less (snd best) (snd x) then x else best) e es)"

text \<open>\<open>if (!check(\<dots>)) return\<close>.\<close>

definition require :: "string \<Rightarrow> bool \<Rightarrow> ('s demo_state_scheme, unit) io \<Rightarrow> ('s demo_state_scheme, unit) io" where
  "require description passed continue =
     io_bind (check_io description passed) (\<lambda>ok. if ok then continue else io_return ())"

section \<open>The script\<close>

definition has_title :: "js list \<Rightarrow> string \<Rightarrow> bool" where
  "has_title entries title = list_ex (\<lambda>e. js_get e ''title'' = JStr title) entries"

text \<open>The timeline must have the three steps; entries that are no array make the call of \<open>some\<close> throw.\<close>

definition shows_steps :: "(js \<times> js \<times> js) option \<Rightarrow> js_error + bool" where
  "shows_steps timeline = (case timeline of
       None \<Rightarrow> Inr False
     | Some (status, outcome, entries) \<Rightarrow>
         if status \<noteq> JStr ''DeliveryBooked'' then Inr False
         else case entries of
           JArr es \<Rightarrow> Inr (list_all (has_title es) [''Payment authorized'', ''Stock reserved'', ''Delivery booked''])
         | JUndefined \<Rightarrow> Inl (JsError (''Cannot read properties of undefined (reading 'some')''))
         | JNull \<Rightarrow> Inl (JsError (''Cannot read properties of null (reading 'some')''))
         | _ \<Rightarrow> Inl (JsError ''timeline.entries.some is not a function''))"

text \<open>After the replay: the order completes once.\<close>

definition verify_recovery :: "recovery_answers \<Rightarrow> string \<Rightarrow> jsnum \<Rightarrow> (demo_world, unit) io" where
  "verify_recovery a product available =
     io_bind (check_io ''the order now completes with DeliveryBooked'' (ra_delivered a)) (\<lambda>_.
     io_bind (answer (ra_notification a)) (\<lambda>notification.
     io_bind (check_io ''Notification Service notified the customer'' (notification \<noteq> None)) (\<lambda>_.
     io_bind (answer (ra_stock_after a)) (\<lambda>stockAfter.
     io_bind (check_io (''stock of '' @ product @ '' decreased by exactly 1'')
       (map_get stockAfter product = Some (js_add available (Fin (- 1))))) (\<lambda>_.
     io_bind (answer (ra_dead_after a (qp_deadLetterQueueName INVENTORY_QUEUE))) (\<lambda>dead.
     io_bind (check_io (qp_deadLetterQueueName INVENTORY_QUEUE @ '' is empty again'') (dead = 0)) (\<lambda>_.
     io_bind (answer (ra_timeline a)) (\<lambda>timeline.
     io_bind (answer (shows_steps timeline)) (\<lambda>shown.
     io_bind (check_io ''the order timeline shows payment, reservation and delivery'' shown) (\<lambda>_.
     io_bind (answer (ra_dead_after a (qp_deadLetterQueueName ORDER_TIMELINE_QUEUE))) (\<lambda>dead.
     io_bind (check_io (qp_deadLetterQueueName ORDER_TIMELINE_QUEUE @ '' is empty again'') (dead = 0)) (\<lambda>_.
     io_return ()))))))))))))"

definition replay_dead_letters :: "recovery_answers \<Rightarrow> nat \<Rightarrow> (demo_world, unit) io" where
  "replay_dead_letters a timelineDeadLetters =
     io_bind (heading_io ''5. Replay the dead letters'') (\<lambda>_.
     io_bind (answer (ra_replay a)) (\<lambda>result.
     io_bind (check_io ''exactly one message was replayed'' (rr_replayed result = 1)) (\<lambda>_.
     io_bind (answer (ra_timeline_replay a)) (\<lambda>timelineReplay.
     io_bind (check_io ''the order timeline's dead letters were replayed'' (rr_replayed timelineReplay = timelineDeadLetters)) (\<lambda>_.
     io_return ())))))"

definition restart_database :: "recovery_answers \<Rightarrow> (demo_world, unit) io \<Rightarrow> (demo_world, unit) io" where
  "restart_database a continue =
     io_bind (heading_io ''4. PostgreSQL is back'') (\<lambda>_.
     io_bind (compose a ''start'' ''postgres'') (\<lambda>started.
     require ''PostgreSQL started'' started (
     io_bind (set_startDatabase False) (\<lambda>_.
     io_bind (answer (ra_recovered a)) (\<lambda>recovered.
     io_bind (check_io ''Inventory recovers without a restart'' (has_part ''database: Ready'' recovered)) (\<lambda>_. continue))))))"

definition database_outage :: "recovery_answers \<Rightarrow> string \<Rightarrow> (nat \<Rightarrow> (demo_world, unit) io) \<Rightarrow> (demo_world, unit) io" where
  "database_outage a oid continue =
     io_bind (heading_io ''3. PostgreSQL outage while the order is processed'') (\<lambda>_.
     io_bind (set_startDatabase True) (\<lambda>_.
     io_bind (compose a ''stop'' ''postgres'') (\<lambda>stopped.
     require ''PostgreSQL stopped'' stopped (
     io_bind (answer (ra_status a)) (\<lambda>status.
     io_bind (check_io (''Inventory reports its database as unavailable ('' @ status @ '')'') (has_part ''database: NotReady'' status)) (\<lambda>_.
     io_bind (compose a ''start'' ''payment-service'') (\<lambda>started.
     require ''Payment Service started'' started (
     io_bind (set_startPayment False) (\<lambda>_.
     io_bind (answer (ra_dead_letters a)) (\<lambda>deadLetters.
     io_bind (check_io (''PaymentAuthorized was moved to '' @ qp_deadLetterQueueName INVENTORY_QUEUE) (deadLetters = 1)) (\<lambda>_.
     io_bind (answer (ra_inspection a)) (\<lambda>_.
     io_bind (check_io ''no InventoryReserved was published during the outage'' (length (eventsOf (ra_messages a) oid ''InventoryReserved'') = 0)) (\<lambda>_.
     io_bind (answer (ra_timeline_dead a)) continue)))))))))))))"

definition order_without_payment ::
    "recovery_answers \<Rightarrow> (string \<Rightarrow> jsnum \<Rightarrow> string \<Rightarrow> (demo_world, unit) io) \<Rightarrow> (demo_world, unit) io" where
  "order_without_payment a continue =
     io_bind (answer (ra_stock_before a)) (\<lambda>stock.
     let (product, available) = most_stock stock
     in require ((if product = [] then ''a product'' else product) @ '' has stock'') (js_less (Fin 0) available) (
     io_bind (heading_io ''2. An order waits while Payment Service is stopped'') (\<lambda>_.
     io_bind (set_startPayment True) (\<lambda>_.
     io_bind (compose a ''stop'' ''payment-service'') (\<lambda>stopped.
     require ''Payment Service stopped'' stopped (
     io_bind (answer (ra_order a)) (\<lambda>order.
     require ''Order Service stores the order (201); OrderCreated waits for Payment'' (so_status order = 201) (
     case so_submitted_orderId order of
       Some oid \<Rightarrow> if oid = [] then io_return () else continue product available oid
     | None \<Rightarrow> io_return ()))))))))"

definition run_recovery :: "recovery_answers \<Rightarrow> (demo_world, unit) io" where
  "run_recovery a =
     foldr (\<lambda>queue continue. io_bind (answer (ra_dead_before a (qp_deadLetterQueueName queue))) (\<lambda>n.
         require (qp_deadLetterQueueName queue @ '' is empty before the demo '' @ ''(inspect leftovers with: npm run dlq)'') (n = 0) continue))
       [INVENTORY_QUEUE, ORDER_TIMELINE_QUEUE]
       (order_without_payment a (\<lambda>product available oid.
          database_outage a oid (\<lambda>timelineDeadLetters.
          restart_database a (
          io_bind (replay_dead_letters a timelineDeadLetters) (\<lambda>_. verify_recovery a product available)))))"

text \<open>The \<open>finally\<close> block: what was stopped and not started again is started, and both connections close.\<close>

definition recovery_cleanup :: "recovery_answers \<Rightarrow> (demo_world, unit) io" where
  "recovery_cleanup a s =
     (let s1 = (if rd_startDatabase s then snd (compose a ''start'' ''postgres'' s) else s);
          s2 = (if rd_startPayment s1 then snd (compose a ''start'' ''payment-service'' s1) else s1)
      in (Inr (), s2 \<lparr>rd_connection_open := False, rd_tap_open := False\<rparr>))"

definition open_connections :: "recovery_answers \<Rightarrow> (demo_world, unit) io" where
  "open_connections a s =
     (case ra_tap a of
        Some e \<Rightarrow> (Inl e, s)
      | None \<Rightarrow> (case ra_connect a of
            Some e \<Rightarrow> (Inl e, s \<lparr>rd_tap_open := True\<rparr>)
          | None \<Rightarrow> (Inr (), s \<lparr>rd_tap_open := True, rd_connection_open := True\<rparr>)))"

text \<open>\<open>main\<close> with its \<open>catch\<close>: the exit code.\<close>

definition recovery_main :: "recovery_answers \<Rightarrow> int \<times> demo_world" where
  "recovery_main a =
     (let ready = list_all rd_ready (ra_readiness a);
          s0 = check ''all five services report /ready'' ready (heading ''1. System readiness'' new_world)
      in if \<not> ready then (1, s0)
         else case open_connections a s0 of
           (Inl e, s1) \<Rightarrow> (1, s1)
         | (Inr _, s1) \<Rightarrow>
             (let (r, s2) = run_recovery a s1; s3 = snd (recovery_cleanup a s2)
              in case r of Inl e \<Rightarrow> (1, s3) | Inr _ \<Rightarrow> reportResult s3))"


section \<open>The script leaves the system as it found it\<close>

lemma queues_resolved:
  "resolveQueuePair (qp_queueName INVENTORY_QUEUE) CONSUMER_QUEUES = Inr INVENTORY_QUEUE"
  "resolveQueuePair (qp_queueName ORDER_TIMELINE_QUEUE) CONSUMER_QUEUES = Inr ORDER_TIMELINE_QUEUE"
  by code_simp+

text \<open>The commands given for a container, and whether the last of them stopped it.\<close>

definition commands_for :: "string \<Rightarrow> demo_world \<Rightarrow> string list" where
  "commands_for c s = map fst (filter (\<lambda>(verb, container). container = c) (rd_commands s))"

definition stopped :: "string \<Rightarrow> demo_world \<Rightarrow> bool" where
  "stopped c s \<longleftrightarrow> commands_for c s \<noteq> [] \<and> List.last (commands_for c s) \<noteq> ''start''"

text \<open>What is stopped is marked for the cleanup, and nothing else is ever stopped.\<close>

definition marked :: "demo_world \<Rightarrow> bool" where
  "marked s \<longleftrightarrow> (stopped ''postgres'' s \<longrightarrow> rd_startDatabase s) \<and> (stopped ''payment-service'' s \<longrightarrow> rd_startPayment s)
     \<and> snd ` set (rd_commands s) \<subseteq> {''postgres'', ''payment-service''} \<and> rd_tap_open s \<and> rd_connection_open s"

lemma marked_cong:
  "\<lbrakk>rd_commands s = rd_commands t; rd_startDatabase s = rd_startDatabase t; rd_startPayment s = rd_startPayment t;
    rd_tap_open s = rd_tap_open t; rd_connection_open s = rd_connection_open t\<rbrakk> \<Longrightarrow> marked s = marked t"
  by (simp add: marked_def stopped_def commands_for_def)

lemma marked_simple [intro]:
  "io_keeps marked (answer r)" "io_keeps marked (check_io d b)" "io_keeps marked (heading_io t)"
  by (auto simp: io_keeps_def answer_def check_io_def heading_io_def check_def heading_def marked_def stopped_def commands_for_def)

lemma marked_require [intro]: "io_keeps marked continue \<Longrightarrow> io_keeps marked (require d b continue)"
  unfolding require_def by (auto split: if_split)

lemma commands_append:
  "commands_for c (s \<lparr>rd_commands := rd_commands s @ [(verb, container)], de_out := x\<rparr>) =
     commands_for c s @ (if container = c then [verb] else [])"
  by (simp add: commands_for_def)

lemma marked_stop:
  "(\<And>x. io_keeps marked (f x)) \<Longrightarrow> io_keeps marked (io_bind (set_startPayment True) (\<lambda>_. io_bind (compose a ''stop'' ''payment-service'') f))"
  "(\<And>x. io_keeps marked (f x)) \<Longrightarrow> io_keeps marked (io_bind (set_startDatabase True) (\<lambda>_. io_bind (compose a ''stop'' ''postgres'') f))"
  by (auto simp: io_keeps_def io_bind_def set_startPayment_def set_startDatabase_def compose_def marked_def stopped_def commands_for_def)

lemma marked_start:
  "io_keeps marked continue \<Longrightarrow> io_keeps marked (io_bind (compose a ''start'' ''payment-service'') (\<lambda>ok. require d ok (io_bind (set_startPayment False) (\<lambda>_. continue))))"
  "io_keeps marked continue \<Longrightarrow> io_keeps marked (io_bind (compose a ''start'' ''postgres'') (\<lambda>ok. require d ok (io_bind (set_startDatabase False) (\<lambda>_. continue))))"
  by (auto simp: io_keeps_def io_bind_def set_startPayment_def set_startDatabase_def compose_def require_def check_io_def check_def io_return_def
      marked_def stopped_def commands_for_def)

lemma marked_run: "io_keeps marked (run_recovery a)"
proof -
  have verify: "io_keeps marked (verify_recovery a p n)" for p n unfolding verify_recovery_def by (intro io_keeps_bind marked_simple io_keeps_return)
  have replay: "io_keeps marked (replay_dead_letters a n)" for n unfolding replay_dead_letters_def by (intro io_keeps_bind marked_simple io_keeps_return)
  have restart: "io_keeps marked (restart_database a c)" if "io_keeps marked c" for c
    unfolding restart_database_def by (intro io_keeps_bind [OF marked_simple(3)] marked_start io_keeps_bind marked_simple that)
  have outage: "io_keeps marked (database_outage a oid c)" if "\<And>n. io_keeps marked (c n)" for oid c
    unfolding database_outage_def
    by (intro io_keeps_bind [OF marked_simple(3)] marked_stop marked_require io_keeps_bind [OF marked_simple(1)] io_keeps_bind [OF marked_simple(2)] marked_start that)
  have order: "io_keeps marked (order_without_payment a c)" if "\<And>p n oid. io_keeps marked (c p n oid)" for c
    unfolding order_without_payment_def Let_def
    by (auto intro!: io_keeps_bind [OF marked_simple(1)] io_keeps_bind [OF marked_simple(3)] marked_stop marked_require that split: prod.split option.split)
  show ?thesis unfolding run_recovery_def
    by (simp, intro io_keeps_bind [OF marked_simple(1)] marked_require order outage restart io_keeps_bind [OF replay] verify)
qed


lemma compose_commands:
  "commands_for c (snd (compose a verb x s)) = commands_for c s @ (if x = c then [verb] else [])"
  "rd_startPayment (snd (compose a verb x s)) = rd_startPayment s" "de_checks (snd (compose a verb x s)) = de_checks s"
  by (simp_all add: compose_def commands_for_def)

lemma untouched_not_stopped: "snd ` set (rd_commands s) \<subseteq> A \<Longrightarrow> c \<notin> A \<Longrightarrow> \<not> stopped c s"
  by (force simp: stopped_def commands_for_def filter_empty_conv)

lemma cleaned:
  assumes "marked s"
  shows "\<not> stopped c (snd (recovery_cleanup a s))" "\<not> rd_connection_open (snd (recovery_cleanup a s))" "\<not> rd_tap_open (snd (recovery_cleanup a s))"
    "de_checks (snd (recovery_cleanup a s)) = de_checks s"
proof -
  let ?s1 = "if rd_startDatabase s then snd (compose a ''start'' ''postgres'' s) else s"
  let ?s2 = "if rd_startPayment ?s1 then snd (compose a ''start'' ''payment-service'' ?s1) else ?s1"
  have end': "snd (recovery_cleanup a s) = ?s2 \<lparr>rd_connection_open := False, rd_tap_open := False\<rparr>"
    by (simp add: recovery_cleanup_def Let_def)
  have "commands_for c (?s2 \<lparr>rd_connection_open := False, rd_tap_open := False\<rparr>) = commands_for c ?s2" by (simp add: commands_for_def)
  also have "\<dots> = commands_for c s @ (if rd_startDatabase s \<and> c = ''postgres'' then [''start''] else [])
      @ (if rd_startPayment s \<and> c = ''payment-service'' then [''start''] else [])" by (auto simp: compose_commands)
  finally have commands: "commands_for c (snd (recovery_cleanup a s)) = \<dots>" unfolding end' .
  show "\<not> stopped c (snd (recovery_cleanup a s))"
  proof (cases "c = ''postgres'' \<or> c = ''payment-service''")
    case True
    with assms commands show ?thesis by (auto simp: marked_def stopped_def)
  next
    case False
    with assms have "\<not> stopped c s" by (intro untouched_not_stopped [of _ "{''postgres'', ''payment-service''}"]) (auto simp: marked_def)
    with False commands show ?thesis by (simp add: stopped_def)
  qed
  show "\<not> rd_connection_open (snd (recovery_cleanup a s))" "\<not> rd_tap_open (snd (recovery_cleanup a s))"
    "de_checks (snd (recovery_cleanup a s)) = de_checks s" unfolding end' by (simp_all add: compose_commands)
qed

text \<open>
  Whatever happens while it runs, the recovery demo starts what it stopped. For any answers of the
  services, of the broker and of docker, at the end the last command for every container it touched was
  to start it, its connections are closed, unless connecting failed after the tap was opened, in which
  case the tap stays open; and it exits with 0 only if all services were ready and every check passed.
\<close>

lemma recovery_demo_restores:
  "(\<forall>c. \<not> stopped c (snd (recovery_main a))) \<and> \<not> rd_connection_open (snd (recovery_main a))
    \<and> (rd_tap_open (snd (recovery_main a)) \<longleftrightarrow> list_all rd_ready (ra_readiness a) \<and> ra_tap a = None \<and> ra_connect a \<noteq> None)
    \<and> (fst (recovery_main a) = 1 \<or> fst (recovery_main a) = 0 \<and> list_all rd_ready (ra_readiness a)
         \<and> list_all dc_passed (de_checks (snd (recovery_main a))))"
proof -
  let ?ready = "list_all rd_ready (ra_readiness a)"
  define s0 where "s0 = check ''all five services report /ready'' ?ready (heading ''1. System readiness'' new_world)"
  have s0: "rd_commands s0 = []" "\<not> rd_tap_open s0" "\<not> rd_connection_open s0" by (simp_all add: s0_def check_def heading_def new_world_def)
  have none: "\<not> stopped c s" if "rd_commands s = []" for c s using that by (simp add: stopped_def commands_for_def)
  show ?thesis
  proof (cases "?ready \<and> ra_tap a = None \<and> ra_connect a = None")
    case False
    then consider "\<not> ?ready" | e where "?ready" "ra_tap a = Some e" | e where "?ready" "ra_tap a = None" "ra_connect a = Some e" by (cases "ra_tap a"; cases "ra_connect a") auto
    then show ?thesis
    proof cases
      case 1
      then have "recovery_main a = (1, s0)" by (simp add: recovery_main_def s0_def)
      with 1 s0 none [of s0] show ?thesis by simp
    next
      case 2
      then have "recovery_main a = (1, s0)" by (simp add: recovery_main_def s0_def open_connections_def)
      with 2 s0 none [of s0] show ?thesis by simp
    next
      case 3
      then have "recovery_main a = (1, s0 \<lparr>rd_tap_open := True\<rparr>)" by (simp add: recovery_main_def s0_def open_connections_def)
      with 3 s0 none [of "s0 \<lparr>rd_tap_open := True\<rparr>"] show ?thesis by simp
    qed
  next
    case True
    let ?s1 = "s0 \<lparr>rd_tap_open := True, rd_connection_open := True\<rparr>"
    obtain r s2 where run: "run_recovery a ?s1 = (r, s2)" by fastforce
    have "marked ?s1" using s0(1) by (simp add: marked_def stopped_def commands_for_def)
    with marked_run [of a] run have "marked s2" by (metis io_keepsD snd_conv)
    note clean = cleaned [OF this, where a = a]
    let ?s3 = "snd (recovery_cleanup a s2)"
    have main: "recovery_main a = (case r of Inl e \<Rightarrow> (1, ?s3) | Inr _ \<Rightarrow> reportResult ?s3)"
      using True run by (simp add: recovery_main_def open_connections_def Let_def s0_def)
    have report: "rd_commands (snd (reportResult s)) = rd_commands s" "rd_tap_open (snd (reportResult s)) = rd_tap_open s"
      "rd_connection_open (snd (reportResult s)) = rd_connection_open s" "de_checks (snd (reportResult s)) = de_checks s" for s :: demo_world
      by (simp_all add: reportResult_def heading_def Let_def)
    have same: "stopped c (snd (reportResult s)) = stopped c s" for c s by (simp add: stopped_def commands_for_def report(1))
    have code: "fst (reportResult s) = 1 \<or> fst (reportResult s) = 0 \<and> list_all dc_passed (de_checks s)" for s :: demo_world
      by (auto simp: reportResult_def Let_def filter_empty_conv list_all_iff)
    show ?thesis
    proof (cases r)
      case (Inl e)
      with main clean True show ?thesis by simp
    next
      case (Inr x)
      then have "recovery_main a = reportResult ?s3" by (simp add: main)
      with clean True code [of ?s3] show ?thesis by (simp add: report same)
    qed
  qed
qed

end
