(* ===== verification/Demo.thy ===== *)
theory Demo
  imports RecoveryDemo
begin

text \<open>
  tools/cli/src/demo.ts: the walk-through of the workflow that CI runs as a full-stack test. As in the
  recovery demo, what every await comes to is an answer, and of the output the checks are modelled.
\<close>

section \<open>Answers\<close>

record success_answers =
  sa_stock_before :: "js_error + (string, jsnum) jsmap"
  sa_order :: "js_error + SubmittedOrder"
  sa_retry :: "js_error + SubmittedOrder"
  sa_delivered :: bool
  sa_notification :: "js_error + string option"
  sa_stock_after :: "js_error + (string, jsnum) jsmap"
  sa_timeline :: "js_error + (js \<times> js \<times> js) option"

record unavailable_answers =
  ua_stock_before :: "js_error + (string, jsnum) jsmap"
  ua_order :: "js_error + SubmittedOrder"
  ua_rejected :: bool
  ua_messages :: "ObservedMessage list"
  ua_notification :: "js_error + string option"
  ua_stock_after :: "js_error + (string, jsnum) jsmap"

text \<open>The publication and the poll of the queue are awaited for their errors only.\<close>

record duplicate_answers =
  da_messages :: "ObservedMessage list"
  da_stock_before :: "js_error + (string, jsnum) jsmap"
  da_published :: "js_error + unit"
  da_queue_polled :: "js_error + unit"
  da_messages_after :: "ObservedMessage list"
  da_stock_after :: "js_error + (string, jsnum) jsmap"

record demo_answers =
  dd_readiness :: "ServiceReadiness list"
  dd_queues_before :: "js_error + QueueDepth list"
  dd_tap :: "js_error option"
  dd_success :: success_answers
  dd_unavailable :: unavailable_answers
  dd_duplicate :: duplicate_answers
  dd_invalid :: "js_error + SubmittedOrder"
  dd_messages :: "ObservedMessage list"
  dd_outbox :: "js option"
  dd_queues_after :: "js_error + QueueDepth list"

section \<open>The scenarios\<close>

text \<open>\<open>entries.some(entry => entry.kind === kind)\<close>.\<close>

definition some_entry :: "js \<Rightarrow> string \<Rightarrow> js_error + bool" where
  "some_entry entries kind = (case entries of
       JArr es \<Rightarrow> Inr (list_ex (\<lambda>e. js_get e ''kind'' = JStr kind) es)
     | JUndefined \<Rightarrow> Inl (JsError (''Cannot read properties of undefined (reading 'some')''))
     | JNull \<Rightarrow> Inl (JsError (''Cannot read properties of null (reading 'some')''))
     | _ \<Rightarrow> Inl (JsError ''timeline.entries.some is not a function''))"

definition shows_replay :: "(js \<times> js \<times> js) option \<Rightarrow> js_error + bool" where
  "shows_replay timeline = (case timeline of
       None \<Rightarrow> Inr False
     | Some (status, outcome, entries) \<Rightarrow> if outcome \<noteq> JStr ''Completed'' then Inr False else some_entry entries ''Replayed'')"

text \<open>A submission that was not answered with 201 and an order id ends the scenario.\<close>

definition created :: "SubmittedOrder \<Rightarrow> (string \<Rightarrow> ('s demo_state_scheme, 'a) io) \<Rightarrow> 'a \<Rightarrow> ('s demo_state_scheme, 'a) io" where
  "created order continue otherwise =
     io_bind (check_io ''Order Service answers 201 Created'' (so_status order = 201)) (\<lambda>ok.
       case so_submitted_orderId order of
         Some oid \<Rightarrow> if ok \<and> oid \<noteq> [] then continue oid else io_return otherwise
       | None \<Rightarrow> io_return otherwise)"

definition successfulOrder :: "success_answers \<Rightarrow> ('s demo_state_scheme, string option) io" where
  "successfulOrder a =
     io_bind (heading_io ''2. A successful order'') (\<lambda>_.
     io_bind (answer (sa_stock_before a)) (\<lambda>stock.
     let (product, available) = most_stock stock
     in if js_less available (Fin 1) then
          io_bind (check_io (''a product with stock is available '' @ ''(reset with: docker compose --profile app down --volumes)'') False) (\<lambda>_. io_return None)
        else
     io_bind (answer (sa_order a)) (\<lambda>order.
     created order (\<lambda>oid.
       io_bind (answer (sa_retry a)) (\<lambda>retry.
       io_bind (check_io ''a retry with the same Idempotency-Key answers 200 with the same order''
         (so_status retry = 200 \<and> so_submitted_orderId retry = Some oid)) (\<lambda>_.
       io_bind (check_io ''the order passes all five services and ends with DeliveryBooked'' (sa_delivered a)) (\<lambda>_.
       io_bind (answer (sa_notification a)) (\<lambda>notification.
       io_bind (check_io ''Notification Service created a DeliveryBooked notification'' (notification \<noteq> None)) (\<lambda>_.
       io_bind (answer (sa_stock_after a)) (\<lambda>stockAfter.
       io_bind (check_io (''stock of '' @ product @ '' decreased by exactly 1 (the retry created no order)'')
         (map_get stockAfter product = Some (js_add available (Fin (- 1))))) (\<lambda>_.
       io_bind (answer (sa_timeline a)) (\<lambda>timeline.
       io_bind (answer (shows_replay timeline)) (\<lambda>shown.
       io_bind (check_io ''the Order Service timeline shows the completed workflow and the replayed retry'' shown) (\<lambda>_.
       io_return (Some oid)))))))))))) None)))"

text \<open>The entry with the least stock; of several, the first.\<close>

definition least_stock :: "(string, jsnum) jsmap \<Rightarrow> string \<times> jsnum" where
  "least_stock stock = (case stock of [] \<Rightarrow> (''dryer-01'', Fin 0)
     | e # es \<Rightarrow> foldl (\<lambda>best x. if js_less (snd x) (snd best) then x else best) e es)"

definition unavailableOrder :: "(rat \<Rightarrow> string) \<Rightarrow> unavailable_answers \<Rightarrow> ('s demo_state_scheme, unit) io" where
  "unavailableOrder num_text a =
     io_bind (heading_io ''3. An order that cannot be fulfilled'') (\<lambda>_.
     io_bind (answer (ua_stock_before a)) (\<lambda>stock.
     let (product, available) = least_stock stock
     in io_bind (answer (ua_order a)) (\<lambda>order.
     created order (\<lambda>oid.
       io_bind (check_io ''Inventory rejects the reservation (InventoryReservationFailed, no DeliveryBooked)''
         (ua_rejected a \<and> length (eventsOf (ua_messages a) oid ''DeliveryBooked'') = 0)) (\<lambda>_.
       io_bind (answer (ua_notification a)) (\<lambda>notification.
       io_bind (check_io ''the customer is notified about the failed reservation'' (notification \<noteq> None)) (\<lambda>_.
       io_bind (answer (ua_stock_after a)) (\<lambda>stockAfter.
       io_bind (check_io (''stock of '' @ product @ '' is unchanged ('' @ String_of num_text (JNum available) @ '')'')
         (map_get stockAfter product = Some available)) (\<lambda>_. io_return ())))))) ())))"

definition stock_text :: "(rat \<Rightarrow> string) \<Rightarrow> (string, jsnum) jsmap \<Rightarrow> string" where
  "stock_text num_text stock = json_text num_text (JObj (map (\<lambda>(p, n). (p, JNum n)) stock))"

definition duplicateEvent :: "(rat \<Rightarrow> string) \<Rightarrow> duplicate_answers \<Rightarrow> string \<Rightarrow> ('s demo_state_scheme, unit) io" where
  "duplicateEvent num_text a oid =
     io_bind (heading_io ''4. A duplicate PaymentAuthorized with a new event id'') (\<lambda>_.
     let original = (case eventsOf (da_messages a) oid ''PaymentAuthorized'' of [] \<Rightarrow> JUndefined | m # _ \<Rightarrow> obs_body m)
     in if \<not> (case original of JObj _ \<Rightarrow> True | JArr _ \<Rightarrow> True | _ \<Rightarrow> False) then
          io_bind (check_io ''the original PaymentAuthorized event was observed'' False) (\<lambda>_. io_return ())
        else
     io_bind (answer (da_stock_before a)) (\<lambda>stockBefore.
     io_bind (answer (da_published a)) (\<lambda>_.
     io_bind (answer (da_queue_polled a)) (\<lambda>_.
     io_bind (check_io ''Inventory ignores the duplicate: still exactly one InventoryReserved''
       (card (set (map (oe_eventId \<circ> obs_envelope) (eventsOf (da_messages_after a) oid ''InventoryReserved''))) = 1)) (\<lambda>_.
     io_bind (answer (da_stock_after a)) (\<lambda>stockAfter.
     io_bind (check_io ''stock is unchanged by the duplicate'' (stock_text num_text stockAfter = stock_text num_text stockBefore)) (\<lambda>_.
     io_return ())))))))"

definition invalidOrder :: "string \<Rightarrow> js_error + SubmittedOrder \<Rightarrow> ObservedMessage list \<Rightarrow> ('s demo_state_scheme, unit) io" where
  "invalidOrder correlation submitted messages =
     io_bind (heading_io ''5. An invalid order request'') (\<lambda>_.
     io_bind (answer submitted) (\<lambda>order.
     io_bind (check_io ''Order Service answers 400 Bad Request'' (so_status order = 400)) (\<lambda>_.
     io_bind (check_io ''no event is published for the rejected request''
       (\<not> list_ex (\<lambda>m. oe_correlationId (obs_envelope m) = correlation) messages)) (\<lambda>_. io_return ()))))"

definition demo_summary :: "nat \<Rightarrow> js option \<Rightarrow> js_error + QueueDepth list \<Rightarrow> ('s demo_state_scheme, unit) io" where
  "demo_summary deadLettersBefore outbox queues =
     io_bind (heading_io ''6. System state after the demo'') (\<lambda>_.
     io_bind (check_io ''the outbox has no pending events''
       (case outbox of None \<Rightarrow> False | Some v \<Rightarrow> js_get v ''pendingCount'' = JNum (Fin 0))) (\<lambda>_.
     io_bind (answer queues) (\<lambda>qs.
     io_bind (check_io ''no message was dead-lettered during the demo'' (countDeadLetters qs = deadLettersBefore)) (\<lambda>_. io_return ()))))"

definition demo_scenarios :: "(rat \<Rightarrow> string) \<Rightarrow> string \<Rightarrow> demo_answers \<Rightarrow> nat \<Rightarrow> ('s demo_state_scheme, unit) io" where
  "demo_scenarios num_text run_name a deadLettersBefore =
     io_bind (successfulOrder (dd_success a)) (\<lambda>placed.
     io_bind (unavailableOrder num_text (dd_unavailable a)) (\<lambda>_.
     io_bind (case placed of Some oid \<Rightarrow> duplicateEvent num_text (dd_duplicate a) oid | None \<Rightarrow> io_return ()) (\<lambda>_.
     io_bind (invalidOrder (''demo-'' @ run_name @ ''-invalid'') (dd_invalid a) (dd_messages a)) (\<lambda>_.
     demo_summary deadLettersBefore (dd_outbox a) (dd_queues_after a)))))"

text \<open>\<open>main\<close> with its \<open>catch\<close>: the exit code, and whether the tap is left open.\<close>

definition demo_main :: "(rat \<Rightarrow> string) \<Rightarrow> string \<Rightarrow> demo_answers \<Rightarrow> int \<times> demo_world" where
  "demo_main num_text run_name a =
     (let ready = list_all rd_ready (dd_readiness a);
          s0 = check ''all five services report /ready'' ready (heading ''1. System readiness'' new_world)
      in if \<not> ready then (1, s0)
         else case dd_queues_before a of
           Inl e \<Rightarrow> (1, s0)
         | Inr queues \<Rightarrow>
             (case dd_tap a of
                Some e \<Rightarrow> (1, s0)
              | None \<Rightarrow>
                  (let (r, s1) = demo_scenarios num_text run_name a (countDeadLetters queues) (s0 \<lparr>rd_tap_open := True\<rparr>);
                       s2 = s1 \<lparr>rd_tap_open := False\<rparr>
                   in case r of Inl e \<Rightarrow> (1, s2) | Inr _ \<Rightarrow> reportResult s2)))"


section \<open>What the exit code tells\<close>

lemma report_code: "fst (reportResult s) = (if list_all dc_passed (de_checks s) then 0 else 1)" "rd_tap_open (snd (reportResult t)) = rd_tap_open t"
  "de_checks (snd (reportResult s)) = de_checks s"
  by (auto simp: reportResult_def heading_def Let_def filter_empty_conv list_all_iff)

text \<open>The demo exits with 0 exactly when it ran to its end and every check it made passed; the tap is closed.\<close>

lemma demo_exit_code:
  "\<not> rd_tap_open (snd (demo_main num_text run_name a))
    \<and> (fst (demo_main num_text run_name a) = 1
      \<or> fst (demo_main num_text run_name a) = 0 \<and> list_all rd_ready (dd_readiness a) \<and> list_all dc_passed (de_checks (snd (demo_main num_text run_name a))))"
proof -
  define s0 where "s0 = check ''all five services report /ready'' (list_all rd_ready (dd_readiness a)) (heading ''1. System readiness'' new_world)"
  have tap: "\<not> rd_tap_open s0" by (simp add: s0_def check_def heading_def new_world_def)
  consider (no) "demo_main num_text run_name a = (1, s0)"
    | (ran) r s1 where "list_all rd_ready (dd_readiness a)"
      "demo_main num_text run_name a = (case r :: js_error + unit of Inl e \<Rightarrow> (1, s1 \<lparr>rd_tap_open := False\<rparr>) | Inr _ \<Rightarrow> reportResult (s1 \<lparr>rd_tap_open := False\<rparr>))"
  proof (cases "list_all rd_ready (dd_readiness a)"; cases "dd_queues_before a"; cases "dd_tap a")
    fix queues
    assume ok: "list_all rd_ready (dd_readiness a)" "dd_queues_before a = Inr queues" "dd_tap a = None"
    obtain r s1 where "demo_scenarios num_text run_name a (countDeadLetters queues) (s0 \<lparr>rd_tap_open := True\<rparr>) = (r, s1)" by fastforce
    with ok that(2) show thesis unfolding demo_main_def s0_def by (simp add: Let_def)
  qed (use that(1) in \<open>simp_all add: demo_main_def s0_def Let_def\<close>)
  then show ?thesis
  proof cases
    case no
    with tap show ?thesis by simp
  next
    case (ran r s1)
    then show ?thesis by (cases r) (simp_all add: report_code)
  qed
qed

text \<open>
  But a scenario that ends early need not leave a failed check: when orders are answered with 201 and no
  order id, the demo passes with all that follows an order unchecked.
\<close>

definition no_ids :: SubmittedOrder where
  "no_ids = \<lparr>so_status = 201, so_submitted_orderId = None, so_submittedAt = 0, so_idempotencyKey = ''k''\<rparr>"

definition answers_without_ids :: demo_answers where
  "answers_without_ids = \<lparr>dd_readiness = [], dd_queues_before = Inr [], dd_tap = None,
     dd_success = \<lparr>sa_stock_before = Inr [(''dryer-01'', Fin 3)], sa_order = Inr no_ids, sa_retry = Inr no_ids, sa_delivered = False,
       sa_notification = Inr None, sa_stock_after = Inr [], sa_timeline = Inr None\<rparr>,
     dd_unavailable = \<lparr>ua_stock_before = Inr [(''dryer-01'', Fin 3)], ua_order = Inr no_ids, ua_rejected = False, ua_messages = [],
       ua_notification = Inr None, ua_stock_after = Inr []\<rparr>,
     dd_duplicate = \<lparr>da_messages = [], da_stock_before = Inr [], da_published = Inr (), da_queue_polled = Inr (), da_messages_after = [],
       da_stock_after = Inr []\<rparr>,
     dd_invalid = Inr (no_ids \<lparr>so_status := 400\<rparr>), dd_messages = [], dd_outbox = Some (JObj [(''pendingCount'', JNum (Fin 0))]), dd_queues_after = Inr []\<rparr>"

lemma demo_passes_without_orders:
  "fst (demo_main (\<lambda>_. []) ''run'' answers_without_ids) = 0 \<and> length (de_checks (snd (demo_main (\<lambda>_. []) ''run'' answers_without_ids))) = 7"
  by (simp add: answers_without_ids_def no_ids_def demo_main_def demo_scenarios_def successfulOrder_def unavailableOrder_def created_def
      invalidOrder_def demo_summary_def io_bind_def io_return_def answer_def check_io_def heading_io_def check_def heading_def new_world_def
      most_stock_def least_stock_def reportResult_def countDeadLetters_def Let_def)

end
