(* ===== verification/AbortSignals.thy ===== *)
theory AbortSignals
  imports RabbitMqClient
begin

text \<open>
  The asynchronous helpers at the end of shared/messaging/src/rabbitMqClient.ts: \<open>sleep\<close>,
  \<open>waitForPromiseOrAbort\<close> and \<open>forwardAbortSignal\<close>, and the client's bookkeeping of deliveries in
  flight. Each call is a state that timers, signals and promises change, in any order; what is proved is
  that each settles once, by its first cause, and leaves no timer and no listener behind.
\<close>

section \<open>Waiting for a timer or a promise\<close>

text \<open>What has settled a call, and the listener on its signal and the timer that it still has.\<close>

record pending_wait =
  pw_result :: "(js_error + unit) option"
  pw_listening :: bool
  pw_timer :: bool

datatype wait_event = SignalAborts | TimerElapses | PromiseSettles "js_error + unit"

definition settled :: "js_error + unit \<Rightarrow> pending_wait" where
  "settled r = \<lparr>pw_result = Some r, pw_listening = False, pw_timer = False\<rparr>"

text \<open>\<open>sleep\<close>, by its signal: none, one that has aborted, or one that may. It never rejects.\<close>

fun sleep_start :: "bool option \<Rightarrow> pending_wait" where
  "sleep_start None = \<lparr>pw_result = None, pw_listening = False, pw_timer = True\<rparr>"
| "sleep_start (Some True) = settled (Inr ())"
| "sleep_start (Some False) = \<lparr>pw_result = None, pw_listening = True, pw_timer = True\<rparr>"

fun sleep_step :: "wait_event \<Rightarrow> pending_wait \<Rightarrow> pending_wait" where
  "sleep_step SignalAborts p = (if pw_listening p then settled (Inr ()) else p)"
| "sleep_step TimerElapses p = (if pw_timer p then settled (Inr ()) else p)"
| "sleep_step (PromiseSettles r) p = p"

text \<open>
  \<open>waitForPromiseOrAbort\<close>: without a signal it is the promise itself. The promise's handlers stay
  attached after an abort, and then have no effect.
\<close>

fun race_start :: "bool option \<Rightarrow> pending_wait" where
  "race_start None = \<lparr>pw_result = None, pw_listening = False, pw_timer = False\<rparr>"
| "race_start (Some True) = settled (Inl createAbortError)"
| "race_start (Some False) = \<lparr>pw_result = None, pw_listening = True, pw_timer = False\<rparr>"

fun race_step :: "wait_event \<Rightarrow> pending_wait \<Rightarrow> pending_wait" where
  "race_step SignalAborts p = (if pw_listening p then settled (Inl createAbortError) else p)"
| "race_step TimerElapses p = p"
| "race_step (PromiseSettles r) p = (if pw_result p = None then settled r else p)"

definition after :: "(wait_event \<Rightarrow> pending_wait \<Rightarrow> pending_wait) \<Rightarrow> wait_event list \<Rightarrow> pending_wait \<Rightarrow> pending_wait" where
  "after step es p = foldl (\<lambda>p e. step e p) p es"

lemma after_simps [simp]: "after step [] p = p" "after step (e # es) p = after step es (step e p)"
  by (simp_all add: after_def)

text \<open>A settled call has cleaned up, and nothing that happens later changes it.\<close>

lemma settled_for_good [simp]:
  "after sleep_step es (settled r) = settled r" "after race_step es (settled r) = settled r"
proof -
  have "sleep_step e (settled r) = settled r" "race_step e (settled r) = settled r" for e
    by (cases e; simp add: settled_def)+
  then show "after sleep_step es (settled r) = settled r" "after race_step es (settled r) = settled r"
    by (induction es) simp_all
qed

lemma sleep_outcome:
  "after sleep_step es (sleep_start signal) =
     (if signal = Some True \<or> TimerElapses \<in> set es \<or> signal = Some False \<and> SignalAborts \<in> set es
      then settled (Inr ()) else sleep_start signal)"
proof (induction es)
  case Nil
  show ?case by (cases "signal = Some True") auto
next
  case (Cons e es)
  then show ?case
    by (cases signal rule: sleep_start.cases; cases e) auto
qed

text \<open>
  The supervisor's \<open>sleep\<close> (rabbitMqSupervisor.ts) is the same with a signal that is always there: it
  ends with its timer or with the abort, whichever comes first, and at once after an abort.
\<close>

definition supervisor_sleep :: "bool \<Rightarrow> wait_event list \<Rightarrow> pending_wait" where
  "supervisor_sleep aborted es = after sleep_step es (sleep_start (Some aborted))"

lemma supervisor_sleep_ends:
  "pw_result (supervisor_sleep aborted es) \<noteq> None \<longleftrightarrow> aborted \<or> TimerElapses \<in> set es \<or> SignalAborts \<in> set es"
  by (cases aborted) (auto simp: supervisor_sleep_def sleep_outcome settled_def simp del: sleep_start.simps, simp_all)

text \<open>The first of the events that settles a race.\<close>

fun race_winner :: "wait_event list \<Rightarrow> (js_error + unit) option option" where
  "race_winner [] = None"
| "race_winner (SignalAborts # es) = Some None"
| "race_winner (PromiseSettles r # es) = Some (Some r)"
| "race_winner (TimerElapses # es) = race_winner es"

text \<open>
  The race that the client's model uses, a promise that settled or an abort before it, is what the
  listeners implement: whichever comes first decides, for good, and the listener is gone.
\<close>

lemma race_implements:
  "after race_step es (race_start (Some False)) =
     (case race_winner es of None \<Rightarrow> race_start (Some False) | Some w \<Rightarrow> settled (waitForPromiseOrAbort w))"
  by (induction es rule: race_winner.induct) (auto simp: waitForPromiseOrAbort_def split: option.split)

lemma race_without_signal:
  "pw_result (after race_step es (race_start None)) =
     (case List.map_filter (\<lambda>e. case e of PromiseSettles r \<Rightarrow> Some r | _ \<Rightarrow> None) es of [] \<Rightarrow> None | r # _ \<Rightarrow> Some r)"
proof (induction es)
  case (Cons e es)
  then show ?case by (cases e) (auto simp: settled_def [symmetric] List.map_filter_simps, simp add: settled_def)
qed (simp add: List.map_filter_simps)

section \<open>Forwarding an abort\<close>

text \<open>The target of the forwarding, and whether its source is listened to.\<close>

record forwarding =
  fw_target_aborted :: bool
  fw_listening :: bool

definition forwardAbortSignal :: "bool option \<Rightarrow> bool \<Rightarrow> forwarding" where
  "forwardAbortSignal source target_aborted =
     (case source of
        None \<Rightarrow> \<lparr>fw_target_aborted = target_aborted, fw_listening = False\<rparr>
      | Some aborted \<Rightarrow> if aborted then \<lparr>fw_target_aborted = True, fw_listening = False\<rparr>
          else \<lparr>fw_target_aborted = target_aborted, fw_listening = True\<rparr>)"

datatype forward_event = SourceAborts | ForwardingStopped

fun forward_step :: "forward_event \<Rightarrow> forwarding \<Rightarrow> forwarding" where
  "forward_step SourceAborts f = (if fw_listening f then \<lparr>fw_target_aborted = True, fw_listening = False\<rparr> else f)"
| "forward_step ForwardingStopped f = f \<lparr>fw_listening := False\<rparr>"

text \<open>The target is aborted by the source up to the call of the returned function, and not after it.\<close>

lemma forwards_until_stopped:
  "foldl (\<lambda>f e. forward_step e f) (forwardAbortSignal (Some False) False) es =
     (case es of [] \<Rightarrow> \<lparr>fw_target_aborted = False, fw_listening = True\<rparr>
      | e # _ \<Rightarrow> \<lparr>fw_target_aborted = (e = SourceAborts), fw_listening = False\<rparr>)"
proof -
  have stay: "foldl (\<lambda>f e. forward_step e f) \<lparr>fw_target_aborted = b, fw_listening = False\<rparr> es = \<lparr>fw_target_aborted = b, fw_listening = False\<rparr>"
    for b es
  proof (induction es)
    case (Cons e es)
    then show ?case by (cases e) simp_all
  qed simp
  show ?thesis
  proof (cases es)
    case (Cons e es')
    then show ?thesis by (cases e) (simp_all add: forwardAbortSignal_def stay)
  qed (simp add: forwardAbortSignal_def)
qed

section \<open>Deliveries in flight\<close>

record deliveries =
  dl_inFlight :: "nat list"
  dl_logs :: "log_call list"

definition track_start :: "nat \<Rightarrow> deliveries \<Rightarrow> deliveries" where
  "track_start i d = d \<lparr>dl_inFlight := dl_inFlight d @ [i]\<rparr>"

text \<open>What the delivery rejects with is logged, and it is no longer in flight either way.\<close>

definition track_end :: "nat \<Rightarrow> js_error + unit \<Rightarrow> deliveries \<Rightarrow> deliveries" where
  "track_end i result d =
     (let logs = (case result of Inl e \<Rightarrow> [LogError ''Unexpected failure while handling a message'' e []] | Inr _ \<Rightarrow> [])
      in \<lparr>dl_inFlight = removeAll i (dl_inFlight d), dl_logs = dl_logs d @ logs\<rparr>)"

lemma track_in_flight:
  "set (dl_inFlight (track_start i d)) = insert i (set (dl_inFlight d))"
  "set (dl_inFlight (track_end i result d)) = set (dl_inFlight d) - {i}"
  by (simp_all add: track_start_def track_end_def Let_def)

end
