(* ===== verification/AmqpConnection.thy ===== *)
theory AmqpConnection
  imports RabbitMqClient ConfirmedPublisher
begin

text \<open>
  shared/messaging/src/rabbitMqClient.ts, \<open>connectToRabbitMq\<close>: the connection and channels the client
  works with, on top of amqplib. Of amqplib, the objects are event emitters (an \<open>error\<close> event that
  nothing listens to is thrown and ends the process), and its methods are known by name and arguments.
\<close>

section \<open>Listeners\<close>

datatype amqp_listener = IgnoreError | PublisherReturns | CloseHandler nat

type_synonym emitter = "(string \<times> amqp_listener) list"

definition add_listener :: "string \<Rightarrow> amqp_listener \<Rightarrow> emitter \<Rightarrow> emitter" where
  "add_listener event_name l em = em @ [(event_name, l)]"

text \<open>The listeners an event runs, in order; \<open>None\<close> is an error that is thrown.\<close>

definition emit :: "string \<Rightarrow> emitter \<Rightarrow> amqp_listener list option" where
  "emit event_name em =
     (let ls = map snd (filter (\<lambda>(e, l). e = event_name) em)
      in if event_name = ''error'' \<and> ls = [] then None else Some ls)"

record amqp_channel =
  ac_emitter :: emitter
  ac_publisher :: ConfirmedPublisher

text \<open>What amqplib answers, and the object the client gets.\<close>

definition connectToRabbitMq :: "js_error + unit \<Rightarrow> js_error + emitter" where
  "connectToRabbitMq connected' = (case connected' of Inl e \<Rightarrow> Inl e | Inr _ \<Rightarrow> Inr (add_listener ''error'' IgnoreError []))"

definition createChannel :: "js_error + unit \<Rightarrow> js_error + amqp_channel" where
  "createChannel created =
     (case created of
        Inl e \<Rightarrow> Inl e
      | Inr _ \<Rightarrow> Inr \<lparr>ac_emitter = add_listener ''return'' PublisherReturns (add_listener ''error'' IgnoreError []),
                   ac_publisher = confirmedPublisher\<rparr>)"

definition connection_onClose :: "nat \<Rightarrow> emitter \<Rightarrow> emitter" where
  "connection_onClose handler = add_listener ''close'' (CloseHandler handler)"

definition channel_onClose :: "nat \<Rightarrow> amqp_channel \<Rightarrow> amqp_channel" where
  "channel_onClose handler ch = ch \<lparr>ac_emitter := add_listener ''close'' (CloseHandler handler) (ac_emitter ch)\<rparr>"

section \<open>Calls\<close>

datatype amqp_object = AmqpLibrary | AmqpConnectionObject | AmqpChannelObject

text \<open>
  The object, the method and the arguments a call of the client comes to (a consumer's callback aside).
\<close>

definition queue_options :: "bool \<Rightarrow> (string \<times> string) list \<Rightarrow> js" where
  "queue_options durable arguments = JObj ((''durable'', JBool durable) #
     (if arguments = [] then [] else [(''arguments'', JObj (map (\<lambda>(k, v). (k, JStr v)) arguments))]))"

fun adapter_call :: "string \<Rightarrow> broker_call \<Rightarrow> (amqp_object \<times> string \<times> js list) option" where
  "adapter_call url OpenConnection = Some (AmqpLibrary, ''connect'', [JStr url])"
| "adapter_call url OpenChannel = Some (AmqpConnectionObject, ''createConfirmChannel'', [])"
| "adapter_call url (AssertExchange name t durable) =
     Some (AmqpChannelObject, ''assertExchange'', [JStr name, JStr t, JObj [(''durable'', JBool durable)]])"
| "adapter_call url (AssertQueue name durable arguments) =
     Some (AmqpChannelObject, ''assertQueue'', [JStr name, queue_options durable arguments])"
| "adapter_call url (BindQueue queue exchange key) =
     Some (AmqpChannelObject, ''bindQueue'', [JStr queue, JStr exchange, JStr key])"
| "adapter_call url (Prefetch n) = Some (AmqpChannelObject, ''prefetch'', [int_js n])"
| "adapter_call url (Consume queue) = Some (AmqpChannelObject, ''consume'', [JStr queue])"
| "adapter_call url (CancelConsumer tag) = Some (AmqpChannelObject, ''cancel'', [JStr tag])"
| "adapter_call url CloseChannel = Some (AmqpChannelObject, ''close'', [])"
| "adapter_call url CloseConnection = Some (AmqpConnectionObject, ''close'', [])"
| "adapter_call url (Sleep n) = None"

text \<open>Settling a message, and the publication, which goes through the channel's own publisher.\<close>

definition adapter_ack :: "js \<Rightarrow> amqp_object \<times> string \<times> js list" where
  "adapter_ack message = (AmqpChannelObject, ''ack'', [message])"

definition adapter_nack :: "js \<Rightarrow> js \<Rightarrow> js \<Rightarrow> amqp_object \<times> string \<times> js list" where
  "adapter_nack message allUpTo requeue = (AmqpChannelObject, ''nack'', [message, allUpTo, requeue])"

definition adapter_publish ::
    "(string \<Rightarrow> string \<Rightarrow> string \<Rightarrow> ConfirmPublishOptions \<Rightarrow> js_error option) \<Rightarrow> string \<Rightarrow> string \<Rightarrow> string \<Rightarrow> string
      \<Rightarrow> PublicationOptions \<Rightarrow> amqp_channel \<Rightarrow> js_error option \<times> amqp_channel" where
  "adapter_publish channel_publish publicationId exchangeName routingKey content opts ch =
     (case cp_publish channel_publish publicationId exchangeName routingKey content opts (ac_publisher ch) of
        (r, p) \<Rightarrow> (r, ch \<lparr>ac_publisher := p\<rparr>))"

section \<open>Properties\<close>

lemma emit_add_other: "event_name \<noteq> e \<Longrightarrow> emit event_name (add_listener e l em) = emit event_name em"
  by (simp add: emit_def add_listener_def)

text \<open>
  From the moment the client has them, neither a connection nor a channel can end the process with
  an error event, and their close events run the client's handlers in the order it added them.
\<close>

lemma connection_handlers: "fold connection_onClose hs em = em @ map (\<lambda>h. (''close'', CloseHandler h)) hs"
  by (induction hs arbitrary: em) (simp_all add: connection_onClose_def add_listener_def)

lemma channel_handlers: "ac_emitter (fold channel_onClose hs ch) = ac_emitter ch @ map (\<lambda>h. (''close'', CloseHandler h)) hs"
  by (induction hs arbitrary: ch) (simp_all add: channel_onClose_def add_listener_def)

lemma emit_handlers:
  "emit ''error'' (em @ map (\<lambda>h. (''close'', CloseHandler h)) hs) = emit ''error'' em"
  "emit ''close'' (em @ map (\<lambda>h. (''close'', CloseHandler h)) hs) =
     map_option (\<lambda>ls. ls @ map CloseHandler hs) (emit ''close'' em)"
  by (simp_all add: emit_def Let_def filter_map comp_def)

lemma closes_run_handlers:
  "connectToRabbitMq r = Inr em \<Longrightarrow>
     emit ''error'' (fold connection_onClose hs em) = Some [IgnoreError]
     \<and> emit ''close'' (fold connection_onClose hs em) = Some (map CloseHandler hs)"
  "createChannel r = Inr ch \<Longrightarrow>
     emit ''error'' (ac_emitter (fold channel_onClose hs ch)) = Some [IgnoreError]
     \<and> emit ''close'' (ac_emitter (fold channel_onClose hs ch)) = Some (map CloseHandler hs)"
  unfolding connection_handlers channel_handlers emit_handlers
  by (auto simp: connectToRabbitMq_def createChannel_def add_listener_def emit_def split: sum.splits)

text \<open>Different calls of the client are different calls of amqplib: nothing is mixed up on the way.\<close>

lemma adapter_calls_apart:
  assumes "adapter_call url b = Some c" "adapter_call url b' = Some c"
  shows "b = b'"
proof -
  have args: "map (\<lambda>(k, v). (k, JStr v)) xs = map (\<lambda>(k, v). (k, JStr v)) ys \<Longrightarrow> xs = ys" for xs ys :: "(string \<times> string) list"
    by (rule map_injective) (auto simp: inj_def)
  show ?thesis
    using assms by (cases b; cases b') (auto simp: queue_options_def int_js_def split: if_splits dest: args)
qed

text \<open>Every call the client makes of the broker, its pauses apart, is one of amqplib.\<close>

lemma adapter_call_total: "adapter_call url b = None \<longleftrightarrow> (\<exists>n. b = Sleep n)"
  by (cases b) auto

text \<open>A publication that is not confirmed at once leaves the channel's listeners alone.\<close>

lemma publish_keeps_listeners: "ac_emitter (snd (adapter_publish f pid ex key content opts ch)) = ac_emitter ch"
  by (simp add: adapter_publish_def split: prod.split)

end
