(* ===== verification/TimelinePage.thy ===== *)
theory TimelinePage
  imports OrderApp
begin

text \<open>
  services/order-service/public/timeline.js: the page that submits orders and follows one in a
  timeline. The document is the part of it the script touches; an asynchronous function is its
  pieces between two awaits, and what a request comes to is chosen when it is answered. The
  answers are those of the Order API: orders and views as OrderStore and OrderTimeline have them.
  Fixed text outside Latin-1 is written as its UTF-8 bytes.
\<close>

section \<open>Elements\<close>

datatype page_action = OnSelectOrder string

datatype attr_value = AttrText string | AttrHandler page_action

text \<open>An element: its tag, class, attributes, listeners and children.\<close>

datatype node =
    TextNode string
  | Element string string "(string \<times> string) list" "(string \<times> page_action) list" "node list"

datatype child = ChildNode node | ChildText string | NoChild

fun apply_attribute :: "string \<times> attr_value \<Rightarrow> node \<Rightarrow> node" where
  "apply_attribute a (TextNode t) = TextNode t"
| "apply_attribute (name, AttrText v) (Element tag cls attrs ls cs) =
     (if name = ''class'' then Element tag v attrs ls cs else Element tag cls (map_set name v attrs) ls cs)"
| "apply_attribute (name, AttrHandler h) (Element tag cls attrs ls cs) =
     (if startsWith name ''on'' then Element tag cls attrs (ls @ [(drop 2 name, h)]) cs
      else Element tag cls attrs ls cs)"

text \<open>\<open>append\<close> makes a text node of what is not a node; null and undefined are skipped.\<close>

fun child_nodes :: "child \<Rightarrow> node list" where
  "child_nodes (ChildNode n) = [n]"
| "child_nodes (ChildText t) = [TextNode t]"
| "child_nodes NoChild = []"

fun append_children :: "child list \<Rightarrow> node \<Rightarrow> node" where
  "append_children cs (TextNode t) = TextNode t"
| "append_children cs (Element tag cls attrs ls ns) = Element tag cls attrs ls (ns @ concat (map child_nodes cs))"

definition el :: "string \<Rightarrow> (string \<times> attr_value) list \<Rightarrow> child list \<Rightarrow> node" where
  "el tag attributes children =
     append_children children (fold apply_attribute attributes (Element tag [] [] [] []))"

fun textContent :: "node \<Rightarrow> string" where
  "textContent (TextNode t) = t"
| "textContent (Element tag cls attrs ls ns) = concat (map textContent ns)"

fun descendants :: "node \<Rightarrow> node list" where
  "descendants (TextNode t) = []"
| "descendants (Element tag cls attrs ls ns) = concat (map (\<lambda>n. n # descendants n) ns)"

fun node_class :: "node \<Rightarrow> string" where
  "node_class (TextNode t) = []"
| "node_class (Element tag cls attrs ls ns) = cls"

fun node_listeners :: "node \<Rightarrow> (string \<times> page_action) list" where
  "node_listeners (TextNode t) = []"
| "node_listeners (Element tag cls attrs ls ns) = ls"

section \<open>Status, time and money as text\<close>

record page_libs =
  pl_number :: "string \<Rightarrow> jsnum"
  pl_num_text :: "rat \<Rightarrow> string"
  pl_date_parse :: "string \<Rightarrow> int option"
  pl_clock :: "int option \<Rightarrow> string"

record status_info =
  si_label :: string
  si_tone :: string
  si_icon :: string

definition STATUS :: "(string \<times> status_info) list" where
  "STATUS =
     [(''Created'', \<lparr>si_label = ''Created'', si_tone = ''info'', si_icon = [CHR 0xE2, CHR 0x97, CHR 0x8B]\<rparr>),
      (''PaymentAuthorized'',
        \<lparr>si_label = ''Payment authorized'', si_tone = ''warning'', si_icon = [CHR 0xE2, CHR 0x97, CHR 0x94]\<rparr>),
      (''InventoryReserved'',
        \<lparr>si_label = ''Stock reserved'', si_tone = ''warning'', si_icon = [CHR 0xE2, CHR 0x97, CHR 0x91]\<rparr>),
      (''DeliveryBooked'',
        \<lparr>si_label = ''Delivery booked'', si_tone = ''good'', si_icon = [CHR 0xE2, CHR 0x9C, CHR 0x93]\<rparr>),
      (''InventoryReservationFailed'',
        \<lparr>si_label = ''Reservation failed'', si_tone = ''critical'', si_icon = [CHR 0xE2, CHR 0x9C, CHR 0x95]\<rparr>)]"

fun ENTRY_TONE :: "EntryOutcome \<Rightarrow> string" where
  "ENTRY_TONE EntrySuccess = ''good''"
| "ENTRY_TONE EntryFailure = ''critical''"
| "ENTRY_TONE EntryWaiting = ''warning''"
| "ENTRY_TONE EntryInfo = ''info''"

definition statusChip :: "string \<Rightarrow> node" where
  "statusChip status =
     (let info = option_or \<lparr>si_label = status, si_tone = ''info'', si_icon = [CHR 0xE2, CHR 0x80, CHR 0xA2]\<rparr>
                   (map_of STATUS status)
      in el ''span'' [(''class'', AttrText (''chip '' @ si_tone info))] [ChildText (si_icon info @ '' '' @ si_label info)])"

text \<open>\<open>toLocaleTimeString\<close> depends on the browser's locale and zone and is a parameter.\<close>

definition page_time :: "page_libs \<Rightarrow> string \<Rightarrow> string" where
  "page_time L stamp =
     (let date = pl_date_parse L stamp;
          ms = (case date of None \<Rightarrow> ''NaN'' | Some t \<Rightarrow> int_text (t mod 1000))
      in pl_clock L date @ ''.'' @ replicate (3 - length ms) CHR ''0'' @ ms)"

definition middle_dot :: string where "middle_dot = [CHR '' '', CHR 0xB7, CHR '' '']"

section \<open>The state of the page\<close>

record page_request =
  pq_key :: string
  pq_customerId :: string
  pq_productId :: string
  pq_quantity :: jsnum
  pq_unitPrice :: jsnum

record page_form =
  fm_key :: string
  fm_customer :: string
  fm_product :: string
  fm_price :: string
  fm_quantity :: string

record page_view =
  pv_view :: OrderTimelineView
  pv_publication :: "OrderPublication option"

text \<open>
  The awaits of the script's functions: \<open>send\<close> and then \<open>refreshOrders\<close> within \<open>submit\<close>,
  \<open>refreshOrders\<close> and \<open>refreshReadiness\<close> by themselves, and the two awaits of \<open>loadTimeline\<close>,
  between which it looks at the state.
\<close>

datatype page_call =
    AwaitSend page_request
  | AwaitSubmitList string
  | AwaitList
  | AwaitReady
  | AwaitView string
  | AwaitViewBody string

datatype send_outcome = SendThrows string | SendAnswers nat bool js

datatype list_outcome = ListThrows string | ListNotOk | ListOrders "StoredOrder list"

datatype ready_outcome = ReadyThrows | ReadyAnswers bool "string option" "string option"

record page =
  pg_selectedOrderId :: "string option"
  pg_selectedStatus :: "string option"
  pg_lastRequest :: "page_request option"
  pg_timelineTimer :: "nat option"
  pg_armed :: "nat set"
  pg_nextTimer :: nat
  pg_calls :: "page_call list"
  pg_posts :: "page_request list"
  pg_form :: page_form
  pg_submit_disabled :: bool
  pg_retry_disabled :: bool
  pg_response :: "node list"
  pg_response_hidden :: bool
  pg_orders_empty_hidden :: bool
  pg_order_list :: "node list"
  pg_readiness :: "node list"
  pg_timeline_hidden :: bool
  pg_timeline_empty_hidden :: bool
  pg_summary :: "string \<times> string"
  pg_facts :: "node list"
  pg_entries :: "node list"
  pg_shown :: "page_view list"

text \<open>\<open>pg_posts\<close> is the requests sent so far, \<open>pg_shown\<close> the views rendered so far, the last first.\<close>

definition add_call :: "page_call \<Rightarrow> page \<Rightarrow> page" where
  "add_call c s = s\<lparr>pg_calls := pg_calls s @ [c]\<rparr>"

definition settle :: "page_call \<Rightarrow> page \<Rightarrow> page" where
  "settle c s = s\<lparr>pg_calls := remove1 c (pg_calls s)\<rparr>"

section \<open>Submitting\<close>

fun json_indented :: "(rat \<Rightarrow> string) \<Rightarrow> nat \<Rightarrow> js \<Rightarrow> string" where
  "json_indented num_text n (JArr vs) =
     (if vs = [] then ''[]''
      else ''['' @ [CHR 0x0A] @
        join ('','' @ [CHR 0x0A]) (map (\<lambda>v. replicate (n + 2) CHR '' '' @ json_indented num_text (n + 2) v) vs) @
        [CHR 0x0A] @ replicate n CHR '' '' @ '']'')"
| "json_indented num_text n (JObj fs) =
     (if filter (\<lambda>(k, v). v \<noteq> JUndefined) fs = [] then [CHR 0x7B, CHR 0x7D]
      else [CHR 0x7B, CHR 0x0A] @
        join ('','' @ [CHR 0x0A])
          (map (\<lambda>(k, v). replicate (n + 2) CHR '' '' @ quote_text k @ '': '' @ json_indented num_text (n + 2) v)
             (filter (\<lambda>(k, v). v \<noteq> JUndefined) fs)) @
        [CHR 0x0A] @ replicate n CHR '' '' @ [CHR 0x7D])"
| "json_indented num_text n v = json_text num_text v"

definition newKey :: "string \<Rightarrow> page \<Rightarrow> page" where
  "newKey uuid s = s\<lparr>pg_form := pg_form s\<lparr>fm_key := uuid\<rparr>, pg_lastRequest := None, pg_retry_disabled := True\<rparr>"

definition readForm :: "page_libs \<Rightarrow> page_form \<Rightarrow> page_request" where
  "readForm L f = \<lparr>pq_key = fm_key f, pq_customerId = trim (fm_customer f), pq_productId = fm_product f,
     pq_quantity = pl_number L (fm_quantity f), pq_unitPrice = pl_number L (fm_price f)\<rparr>"

definition request_body :: "page_request \<Rightarrow> js" where
  "request_body r = JObj
     [(''customerId'', JStr (pq_customerId r)),
      (''items'', JArr [JObj [(''productId'', JStr (pq_productId r)), (''quantity'', JNum (pq_quantity r)),
         (''unitPrice'', JNum (pq_unitPrice r))]])]"

text \<open>The HTTP request \<open>send\<close> makes: method, path, headers and body.\<close>

definition send_request :: "page_libs \<Rightarrow> page_request \<Rightarrow> string \<times> string \<times> (string \<times> string) list \<times> string" where
  "send_request L r = (''POST'', ''/orders'',
     [(''Content-Type'', ''application/json''), (''Idempotency-Key'', pq_key r)],
     json_text (pl_num_text L) (request_body r))"

definition submit :: "page_request \<Rightarrow> page \<Rightarrow> page" where
  "submit r s = add_call (AwaitSend r) (s\<lparr>pg_response_hidden := False,
     pg_response := [el ''span'' [(''class'', AttrText ''muted'')] [ChildText (''Sending'' @ [CHR 0xE2, CHR 0x80, CHR 0xA6])]],
     pg_submit_disabled := True, pg_retry_disabled := True, pg_posts := r # pg_posts s\<rparr>)"

definition meaning :: "nat \<Rightarrow> bool \<Rightarrow> string" where
  "meaning status replayed =
     (if status = 201 then ''Created: a new order was stored.''
      else if status = 200 then
        (if replayed then ''Replayed: same key and request, the original order was returned; nothing new was created.''
         else ''OK'')
      else if status = 400 then ''Rejected: invalid request or missing Idempotency-Key.''
      else if status = 422 then ''Rejected: this key was already used for a different order.''
      else if status = 503 then ''Not stored right now; retry with the same key.''
      else [])"

definition response_nodes :: "page_libs \<Rightarrow> nat \<Rightarrow> bool \<Rightarrow> js \<Rightarrow> node list" where
  "response_nodes L status replayed body =
     [el ''strong'' [] [ChildText (''HTTP '' @ nat_text status @ '' '')]] @
     (if replayed then [el ''span'' [(''class'', AttrText ''chip info'')] [ChildText ''Idempotent-Replayed: true'']] else []) @
     [el ''div'' [(''class'', AttrText ''muted'')] [ChildText (meaning status replayed)],
      el ''pre'' [] [ChildText (json_indented (pl_num_text L) 0 body)]]"

definition request_failed :: "string \<Rightarrow> page \<Rightarrow> page" where
  "request_failed message s = s\<lparr>pg_response :=
     [el ''strong'' [] [ChildText ''Request failed''], el ''div'' [(''class'', AttrText ''muted'')] [ChildText message]]\<rparr>"

definition submit_finally :: "page \<Rightarrow> page" where
  "submit_finally s = s\<lparr>pg_submit_disabled := False, pg_retry_disabled := pg_lastRequest s = None\<rparr>"

section \<open>The lists\<close>

definition order_item :: "page_libs \<Rightarrow> string option \<Rightarrow> StoredOrder \<Rightarrow> node" where
  "order_item L selected order =
     el ''li'' []
       [ChildNode (el ''button''
          [(''type'', AttrText ''button''),
           (''aria-current'', AttrText (if Some (so_orderId order) = selected then ''true'' else ''false'')),
           (''onclick'', AttrHandler (OnSelectOrder (so_orderId order)))]
          [ChildNode (el ''span'' [(''class'', AttrText ''id'')] [ChildText (take 8 (so_orderId order))]),
           ChildNode (statusChip (order_status_text (so_status order))),
           ChildNode (el ''span'' [(''class'', AttrText ''meta'')]
             [ChildText (so_customerId order @ middle_dot @ toFixed2_text (pl_num_text L) (so_totalAmount order))]),
           ChildNode (el ''span'' [(''class'', AttrText ''meta'')] [ChildText (page_time L (so_createdAt order))])])]"

definition show_orders :: "page_libs \<Rightarrow> StoredOrder list \<Rightarrow> page \<Rightarrow> page" where
  "show_orders L orders s = s\<lparr>pg_orders_empty_hidden := orders \<noteq> [],
     pg_order_list := map (order_item L (pg_selectedOrderId s)) orders\<rparr>"

text \<open>What \<open>refreshOrders\<close> does with its answer, and the message it throws.\<close>

definition refreshOrders :: "page_libs \<Rightarrow> list_outcome \<Rightarrow> page \<Rightarrow> string option \<times> page" where
  "refreshOrders L outcome s =
     (case outcome of
        ListThrows message \<Rightarrow> (Some message, s)
      | ListNotOk \<Rightarrow> (None, s)
      | ListOrders orders \<Rightarrow> (None, show_orders L orders s))"

definition refreshReadiness :: "ready_outcome \<Rightarrow> page \<Rightarrow> page" where
  "refreshReadiness outcome s =
     (case outcome of
        ReadyThrows \<Rightarrow> s\<lparr>pg_readiness := [el ''span'' [(''class'', AttrText ''chip critical'')]
          [ChildText ([CHR 0xE2, CHR 0x9C, CHR 0x95] @ '' Order Service unreachable'')]]\<rparr>
      | ReadyAnswers ok database rabbitMq \<Rightarrow> s\<lparr>pg_readiness :=
          [el ''span'' [(''class'', AttrText (''chip '' @ (if ok then ''good'' else ''critical'')))]
             [ChildText (if ok then [CHR 0xE2, CHR 0x9C, CHR 0x93] @ '' Ready''
                else [CHR 0xE2, CHR 0x9C, CHR 0x95] @ '' Not ready'')],
           TextNode ('' PostgreSQL '' @ option_or ''?'' database @ middle_dot @ ''RabbitMQ '' @ option_or ''?'' rabbitMq)]\<rparr>)"

section \<open>The timeline\<close>

text \<open>\<open>encodeURIComponent\<close>: what is not unreserved is written as the bytes of its UTF-8.\<close>

definition percent :: "nat \<Rightarrow> string" where
  "percent b = [CHR ''%'', ''0123456789ABCDEF'' ! (b div 16), ''0123456789ABCDEF'' ! (b mod 16)]"

definition unreserved :: "char \<Rightarrow> bool" where
  "unreserved c =
     (let n = (of_char c :: nat)
      in 48 \<le> n \<and> n \<le> 57 \<or> 65 \<le> n \<and> n \<le> 90 \<or> 97 \<le> n \<and> n \<le> 122
         \<or> n \<in> {45, 95, 46, 33, 126, 42, 39, 40, 41})"

definition encode_char :: "char \<Rightarrow> string" where
  "encode_char c =
     (let n = of_char c
      in if unreserved c then [c]
         else if n < 128 then percent n
         else percent (192 + n div 64) @ percent (128 + n mod 64))"

definition encodeURIComponent :: "string \<Rightarrow> string" where
  "encodeURIComponent s = concat (map encode_char s)"

definition view_path :: "string \<Rightarrow> string" where
  "view_path oid = ''/orders/'' @ encodeURIComponent oid"

fun mark_current :: "string \<Rightarrow> node \<Rightarrow> node" where
  "mark_current p (TextNode t) = TextNode t"
| "mark_current p (Element tag cls attrs ls ns) =
     (let marked = Element tag cls attrs ls (map (mark_current p) ns)
      in if tag = ''button'' then
           Element tag cls
             (map_set ''aria-current''
                (if map_option textContent (List.find (\<lambda>n. node_class n = ''id'') (descendants marked)) = Some p
                 then ''true'' else ''false'') attrs) ls (map (mark_current p) ns)
         else marked)"

text \<open>\<open>loadTimeline\<close> up to its first await.\<close>

definition loadTimeline :: "page \<Rightarrow> page" where
  "loadTimeline s =
     (let s' = s\<lparr>pg_armed := pg_armed s - set_option (pg_timelineTimer s)\<rparr>
      in case pg_selectedOrderId s of
           None \<Rightarrow> s'
         | Some oid \<Rightarrow> if oid = [] then s' else add_call (AwaitView oid) s')"

definition selectOrder :: "string \<Rightarrow> page \<Rightarrow> page" where
  "selectOrder oid s =
     loadTimeline (s\<lparr>pg_selectedOrderId := Some oid, pg_order_list := map (mark_current (take 8 oid)) (pg_order_list s)\<rparr>)"

definition fact_nodes :: "string \<Rightarrow> node \<Rightarrow> node list" where
  "fact_nodes name dd = [el ''dt'' [] [ChildText name], dd]"

definition page_item_text :: "page_libs \<Rightarrow> OrderItem \<Rightarrow> string" where
  "page_item_text L i = int_text (quantity i) @ [CHR '' '', CHR 0xD7, CHR '' ''] @ productId i @ '' @ '' @
     toFixed2_text (pl_num_text L) (unitPrice i)"

definition timeline_facts :: "page_libs \<Rightarrow> StoredOrder \<Rightarrow> node list" where
  "timeline_facts L order =
     fact_nodes ''Order'' (el ''dd'' [(''class'', AttrText ''mono'')] [ChildText (so_orderId order)]) @
     fact_nodes ''Status'' (el ''dd'' [] [ChildNode (statusChip (order_status_text (so_status order)))]) @
     fact_nodes ''Customer'' (el ''dd'' [] [ChildText (so_customerId order)]) @
     fact_nodes ''Items'' (el ''dd'' [] [ChildText (join '', '' (map (page_item_text L) (so_items order)))]) @
     fact_nodes ''Total'' (el ''dd'' [] [ChildText (toFixed2_text (pl_num_text L) (so_totalAmount order))]) @
     fact_nodes ''Correlation id'' (el ''dd'' [(''class'', AttrText ''mono'')] [ChildText (so_correlationId order)])"

definition badge :: "string \<Rightarrow> string \<Rightarrow> child" where
  "badge cls t = ChildNode (el ''span'' [(''class'', AttrText cls)] [ChildText t])"

definition badge_of :: "string option \<Rightarrow> (string \<Rightarrow> child) \<Rightarrow> child" where
  "badge_of x f = (case x of Some t \<Rightarrow> if t \<noteq> [] then f t else NoChild | None \<Rightarrow> NoChild)"

definition entry_badges :: "page_libs \<Rightarrow> TimelineEntry \<Rightarrow> child list" where
  "entry_badges L entry =
     [badge ''badge'' (te_service entry),
      badge_of (te_eventType entry) (badge ''badge''),
      if te_simulated entry then badge ''badge simulated'' ''simulated'' else NoChild,
      if 1 < te_deliveries entry then
        badge ''badge'' (''delivered '' @ int_text (te_deliveries entry) @ [CHR 0xD7] @ middle_dot @ ''recorded once'')
      else NoChild,
      badge_of (te_eventId entry) (\<lambda>t. badge ''badge mono'' (''event '' @ take 8 t)),
      badge_of (te_producerTime entry) (\<lambda>t. badge ''badge'' (''producer time '' @ page_time L t))]"

text \<open>\<open>Math.max(0, offset)\<close>, NaN where a time is not one.\<close>

definition offset_text :: "page_libs \<Rightarrow> StoredOrder \<Rightarrow> TimelineEntry \<Rightarrow> string" where
  "offset_text L order entry =
     (case (pl_date_parse L (te_at entry), pl_date_parse L (so_createdAt order)) of
        (Some at', Some accepted) \<Rightarrow> int_text (max 0 (at' - accepted))
      | _ \<Rightarrow> ''NaN'')"

definition entry_item :: "page_libs \<Rightarrow> StoredOrder \<Rightarrow> TimelineEntry \<Rightarrow> node" where
  "entry_item L order entry =
     el ''li'' [(''class'', AttrText (ENTRY_TONE (te_outcome entry)))]
       [ChildNode (el ''div'' [(''class'', AttrText ''entry-head'')]
          [ChildNode (el ''span'' [(''class'', AttrText ''entry-title'')] [ChildText (te_title entry)]),
           ChildNode (el ''span'' [(''class'', AttrText ''entry-time'')]
             [ChildText (page_time L (te_at entry) @ middle_dot @ ''+'' @ offset_text L order entry @ '' ms'')])]),
        ChildNode (el ''p'' [(''class'', AttrText ''entry-body'')] [ChildText (te_description entry)]),
        ChildNode (el ''div'' [(''class'', AttrText ''badges'')] (entry_badges L entry))]"

fun outcome_tone :: "OrderOutcome \<Rightarrow> string" where
  "outcome_tone Completed = ''good''"
| "outcome_tone Failed = ''critical''"
| "outcome_tone InProgress = ''warning''"

definition renderTimeline :: "page_libs \<Rightarrow> page_view \<Rightarrow> page \<Rightarrow> page" where
  "renderTimeline L v s =
     (let view = pv_view v; order = tv_order view
      in s\<lparr>pg_timeline_empty_hidden := True, pg_timeline_hidden := False,
           pg_summary := (''summary '' @ outcome_tone (tv_outcome view), tv_summary view),
           pg_facts := timeline_facts L order,
           pg_entries := map (entry_item L order) (tv_entries view),
           pg_shown := v # pg_shown s\<rparr>)"

definition unfinished :: "page_view \<Rightarrow> bool" where
  "unfinished v =
     (tv_outcome (pv_view v) = InProgress
      \<or> (case pv_publication v of None \<Rightarrow> False | Some p \<Rightarrow> op_publishedAt p = None))"

definition arm_timer :: "page \<Rightarrow> page" where
  "arm_timer s = s\<lparr>pg_timelineTimer := Some (pg_nextTimer s), pg_armed := insert (pg_nextTimer s) (pg_armed s),
     pg_nextTimer := Suc (pg_nextTimer s)\<rparr>"

text \<open>The rest of \<open>loadTimeline\<close>: after the response, and after its body.\<close>

definition view_answered :: "string \<Rightarrow> bool \<Rightarrow> page \<Rightarrow> page" where
  "view_answered oid ok s = (if \<not> ok \<or> Some oid \<noteq> pg_selectedOrderId s then s else add_call (AwaitViewBody oid) s)"

definition view_read :: "page_libs \<Rightarrow> page_view \<Rightarrow> page \<Rightarrow> page" where
  "view_read L v s =
     (let status = order_status_text (so_status (tv_order (pv_view v)));
          s1 = renderTimeline L v s;
          s2 = (if Some status \<noteq> pg_selectedStatus s1 then add_call AwaitList (s1\<lparr>pg_selectedStatus := Some status\<rparr>)
                else s1)
      in if unfinished v then arm_timer s2 else s2)"

section \<open>The page as a state machine\<close>

text \<open>The rest of \<open>submit\<close>: after the answer, and after the list it refreshed.\<close>

definition submit_answered :: "page_libs \<Rightarrow> page_request \<Rightarrow> send_outcome \<Rightarrow> page \<Rightarrow> page" where
  "submit_answered L r outcome s =
     (case outcome of
        SendThrows message \<Rightarrow> submit_finally (request_failed message s)
      | SendAnswers status replayed body \<Rightarrow>
          (let s' = s\<lparr>pg_response := response_nodes L status replayed body, pg_lastRequest := Some r\<rparr>
           in case js_get body ''orderId'' of
                JStr oid \<Rightarrow> if oid \<noteq> [] then add_call (AwaitSubmitList oid) s' else submit_finally s'
              | _ \<Rightarrow> submit_finally s'))"

definition submit_listed :: "page_libs \<Rightarrow> string \<Rightarrow> list_outcome \<Rightarrow> page \<Rightarrow> page" where
  "submit_listed L oid outcome s =
     submit_finally
       (case refreshOrders L outcome s of
          (Some message, s') \<Rightarrow> request_failed message s'
        | (None, s') \<Rightarrow> selectOrder oid s')"

definition on_submit :: "page_libs \<Rightarrow> page \<Rightarrow> page" where
  "on_submit L s = (if trim (fm_customer (pg_form s)) = [] then s else submit (readForm L (pg_form s)) s)"

definition on_retry :: "page \<Rightarrow> page" where
  "on_retry s = (case pg_lastRequest s of None \<Rightarrow> s | Some r \<Rightarrow> submit r s)"

text \<open>
  What can happen: the user edits the form (the key is read-only), presses a button that is enabled,
  or one of the order list; a request is answered; a timer or an interval fires.
\<close>

datatype page_event =
    Edits page_form
  | Submits
  | Retries
  | PressesNewKey string
  | Selects string
  | SendSettles page_request send_outcome
  | SubmitListSettles string list_outcome
  | ListSettles list_outcome
  | ReadySettles ready_outcome
  | ViewSettles string "bool option"
  | ViewBodySettles string "page_view option"
  | TimerFires nat
  | ListInterval
  | ReadyInterval

fun page_enabled :: "page_event \<Rightarrow> page \<Rightarrow> bool" where
  "page_enabled (Edits f) s = (fm_key f = fm_key (pg_form s))"
| "page_enabled Submits s = (\<not> pg_submit_disabled s)"
| "page_enabled Retries s = (\<not> pg_retry_disabled s)"
| "page_enabled (PressesNewKey uuid) s = True"
| "page_enabled (Selects oid) s =
     (\<exists>n \<in> set (concat (map descendants (pg_order_list s))). (''click'', OnSelectOrder oid) \<in> set (node_listeners n))"
| "page_enabled (SendSettles r _) s = (AwaitSend r \<in> set (pg_calls s))"
| "page_enabled (SubmitListSettles oid _) s = (AwaitSubmitList oid \<in> set (pg_calls s))"
| "page_enabled (ListSettles _) s = (AwaitList \<in> set (pg_calls s))"
| "page_enabled (ReadySettles _) s = (AwaitReady \<in> set (pg_calls s))"
| "page_enabled (ViewSettles oid _) s = (AwaitView oid \<in> set (pg_calls s))"
| "page_enabled (ViewBodySettles oid body) s =
     (AwaitViewBody oid \<in> set (pg_calls s) \<and> (\<forall>v \<in> set_option body. so_orderId (tv_order (pv_view v)) = oid))"
| "page_enabled (TimerFires n) s = (n \<in> pg_armed s)"
| "page_enabled ListInterval s = True"
| "page_enabled ReadyInterval s = True"

fun page_handle :: "page_libs \<Rightarrow> page_event \<Rightarrow> page \<Rightarrow> page" where
  "page_handle L (Edits f) s = s\<lparr>pg_form := f\<rparr>"
| "page_handle L Submits s = on_submit L s"
| "page_handle L Retries s = on_retry s"
| "page_handle L (PressesNewKey uuid) s = newKey uuid s"
| "page_handle L (Selects oid) s = selectOrder oid s"
| "page_handle L (SendSettles r outcome) s = submit_answered L r outcome (settle (AwaitSend r) s)"
| "page_handle L (SubmitListSettles oid outcome) s = submit_listed L oid outcome (settle (AwaitSubmitList oid) s)"
| "page_handle L (ListSettles outcome) s = snd (refreshOrders L outcome (settle AwaitList s))"
| "page_handle L (ReadySettles outcome) s = refreshReadiness outcome (settle AwaitReady s)"
| "page_handle L (ViewSettles oid answer) s =
     (case answer of None \<Rightarrow> settle (AwaitView oid) s | Some ok \<Rightarrow> view_answered oid ok (settle (AwaitView oid) s))"
| "page_handle L (ViewBodySettles oid body) s =
     (case body of None \<Rightarrow> settle (AwaitViewBody oid) s | Some v \<Rightarrow> view_read L v (settle (AwaitViewBody oid) s))"
| "page_handle L (TimerFires n) s = loadTimeline (s\<lparr>pg_armed := pg_armed s - {n}\<rparr>)"
| "page_handle L ListInterval s = add_call AwaitList s"
| "page_handle L ReadyInterval s = add_call AwaitReady s"

text \<open>The script as it is loaded: a first key, and both lists are asked for.\<close>

definition page_start :: "page_form \<Rightarrow> string \<Rightarrow> page" where
  "page_start form uuid = add_call AwaitList (add_call AwaitReady (newKey uuid
     \<lparr>pg_selectedOrderId = None, pg_selectedStatus = None, pg_lastRequest = None, pg_timelineTimer = None,
      pg_armed = {}, pg_nextTimer = 1, pg_calls = [], pg_posts = [], pg_form = form, pg_submit_disabled = False,
      pg_retry_disabled = True, pg_response = [], pg_response_hidden = True, pg_orders_empty_hidden = False,
      pg_order_list = [], pg_readiness = [], pg_timeline_hidden = True, pg_timeline_empty_hidden = False,
      pg_summary = ([], []), pg_facts = [], pg_entries = [], pg_shown = []\<rparr>))"

text \<open>The pages that events of the kind \<open>P\<close> can lead to.\<close>

inductive page_run :: "page_libs \<Rightarrow> (page_event \<Rightarrow> bool) \<Rightarrow> page \<Rightarrow> bool" for L P where
  start: "page_run L P (page_start form uuid)"
| step: "\<lbrakk>page_run L P s; page_enabled e s; P e\<rbrakk> \<Longrightarrow> page_run L P (page_handle L e s)"

section \<open>Submissions\<close>

named_theorems page_defs \<open>the operations of the page\<close>

lemmas page_operations [page_defs] =
  add_call_def settle_def newKey_def submit_def request_failed_def submit_finally_def show_orders_def
  loadTimeline_def selectOrder_def renderTimeline_def arm_timer_def view_answered_def view_read_def
  submit_answered_def submit_listed_def on_submit_def on_retry_def refreshOrders_def refreshReadiness_def Let_def

definition is_submission :: "page_call \<Rightarrow> bool" where
  "is_submission c = (case c of AwaitSend _ \<Rightarrow> True | AwaitSubmitList _ \<Rightarrow> True | _ \<Rightarrow> False)"

lemma is_submission_simps [simp]:
  "is_submission (AwaitSend r)" "is_submission (AwaitSubmitList oid)" "\<not> is_submission AwaitList"
  "\<not> is_submission AwaitReady" "\<not> is_submission (AwaitView oid)" "\<not> is_submission (AwaitViewBody oid)"
  by (simp_all add: is_submission_def)

definition submissions :: "page_call list \<Rightarrow> nat" where
  "submissions calls = length (filter is_submission calls)"

lemma submissions_simps [simp]:
  "submissions [] = 0"
  "submissions (xs @ ys) = submissions xs + submissions ys"
  "submissions (x # xs) = (if is_submission x then 1 else 0) + submissions xs"
  "submissions (remove1 x xs) = submissions xs - (if x \<in> set xs \<and> is_submission x then 1 else 0)"
  by (auto simp: submissions_def filter_remove1 length_remove1)

lemma submissions_pos: "\<lbrakk>c \<in> set calls; is_submission c\<rbrakk> \<Longrightarrow> 0 < submissions calls"
  by (metis filter_empty_conv length_greater_0_conv submissions_def)

definition submitting :: "page \<Rightarrow> bool" where
  "submitting s =
     (submissions (pg_calls s) = (if pg_submit_disabled s then 1 else 0)
      \<and> pg_retry_disabled s = (pg_submit_disabled s \<or> pg_lastRequest s = None)
      \<and> set_option (pg_lastRequest s) \<union> {r. AwaitSend r \<in> set (pg_calls s)} \<subseteq> set (pg_posts s))"

lemma submitting_step:
  assumes "submitting s" "page_enabled e s"
  shows "submitting (page_handle L e s)"
proof -
  have sub: "pg_submit_disabled s" if "c \<in> set (pg_calls s)" "is_submission c" for c
    using assms(1) submissions_pos [OF that] by (auto simp: submitting_def split: if_splits)
  note facts = assms sub [of "AwaitSend _"] sub [of "AwaitSubmitList _"]
  show ?thesis
    using facts
    by (cases e)
      (auto simp: submitting_def page_defs subset_iff dest: notin_set_remove1
        split: option.splits send_outcome.splits list_outcome.splits ready_outcome.splits js.splits if_splits)
qed

lemma submitting_run: "page_run L P s \<Longrightarrow> submitting s"
proof (induction rule: page_run.induct)
  case (start form uuid)
  show ?case by (simp add: page_start_def submitting_def page_defs)
qed (rule submitting_step)

text \<open>
  One submission at a time, and a retry sends a request, key and body, that was sent before: what the
  order service answers a repeated request with is the subject of \<open>OrderApp\<close>.
\<close>

lemma retry_repeats_a_request:
  assumes "page_run L P s"
  shows "submissions (pg_calls s) \<le> 1"
    and "page_enabled Retries s \<Longrightarrow> \<exists>r \<in> set (pg_posts s). pg_posts (page_handle L Retries s) = r # pg_posts s"
    and "page_enabled Submits s \<or> page_enabled Retries s \<Longrightarrow> submissions (pg_calls s) = 0"
  using submitting_run [OF assms] by (auto simp: submitting_def on_retry_def submit_def add_call_def)

section \<open>Markup\<close>

text \<open>Elements the script creates: of a few kinds, with harmless attributes and its own listeners.\<close>

definition page_tags :: "string list" where
  "page_tags = [''span'', ''strong'', ''div'', ''pre'', ''li'', ''button'', ''p'', ''dt'', ''dd'']"

fun harmless :: "node \<Rightarrow> bool" where
  "harmless (TextNode t) = True"
| "harmless (Element tag cls attrs ls ns) =
     (tag \<in> set page_tags \<and> set (map fst attrs) \<subseteq> {''type'', ''aria-current''} \<and> set (map fst ls) \<subseteq> {''click''}
      \<and> list_all harmless ns)"

fun harmless_attribute :: "string \<times> attr_value \<Rightarrow> bool" where
  "harmless_attribute (k, AttrText v) = (k \<in> {''class'', ''type'', ''aria-current''})"
| "harmless_attribute (k, AttrHandler h) = (k = ''onclick'')"

fun harmless_child :: "child \<Rightarrow> bool" where
  "harmless_child (ChildNode n) = harmless n"
| "harmless_child (ChildText t) = True"
| "harmless_child NoChild = True"

lemma keys_map_set: "fst ` set (map_set k v m) = insert k (fst ` set m)"
  using set_keys_map_set [of k v m] by simp

lemma harmless_apply: "\<lbrakk>harmless n; harmless_attribute a\<rbrakk> \<Longrightarrow> harmless (apply_attribute a n)"
  by (cases "(a, n)" rule: apply_attribute.cases) (auto simp: keys_map_set)

lemma harmless_fold: "\<lbrakk>list_all harmless_attribute as; harmless n\<rbrakk> \<Longrightarrow> harmless (fold apply_attribute as n)"
  by (induction as arbitrary: n) (auto intro: harmless_apply)

lemma harmless_append: "\<lbrakk>list_all harmless_child cs; harmless n\<rbrakk> \<Longrightarrow> harmless (append_children cs n)"
proof (cases n)
  case (Element tag cls attrs ls ns)
  have "list_all harmless (child_nodes c)" if "harmless_child c" for c using that by (cases c) auto
  then show "\<lbrakk>list_all harmless_child cs; harmless n\<rbrakk> \<Longrightarrow> harmless (append_children cs n)"
    by (auto simp: Element list_all_iff)
qed simp

lemma harmless_el:
  "\<lbrakk>tag \<in> set page_tags; list_all harmless_attribute as; list_all harmless_child cs\<rbrakk> \<Longrightarrow> harmless (el tag as cs)"
  by (simp add: el_def harmless_append harmless_fold)

lemma harmless_mark: "harmless n \<Longrightarrow> harmless (mark_current p n)"
  by (induction n rule: harmless.induct) (auto simp: Let_def list_all_iff keys_map_set)

lemmas harmless_simps = harmless_el page_tags_def startsWith_def

lemma harmless_chip: "harmless (statusChip status)"
  by (simp add: statusChip_def Let_def harmless_simps)

lemma harmless_item: "harmless (order_item L selected order)"
  by (simp add: order_item_def harmless_simps harmless_chip)

lemma harmless_badges: "list_all harmless_child (entry_badges L entry)"
  by (simp add: entry_badges_def badge_of_def badge_def harmless_simps split: option.split)

lemma harmless_entry: "harmless (entry_item L order entry)"
  by (simp add: entry_item_def harmless_simps harmless_badges)

lemma harmless_facts: "list_all harmless (timeline_facts L order)"
  by (simp add: timeline_facts_def fact_nodes_def harmless_simps harmless_chip)

lemma harmless_response: "list_all harmless (response_nodes L status replayed body)"
  by (simp add: response_nodes_def harmless_simps)

definition page_nodes :: "page \<Rightarrow> node list" where
  "page_nodes s = pg_response s @ pg_order_list s @ pg_readiness s @ pg_facts s @ pg_entries s"

lemma harmless_step: "list_all harmless (page_nodes s) \<Longrightarrow> list_all harmless (page_nodes (page_handle L e s))"
  by (cases e)
    (auto simp: page_nodes_def page_defs list.pred_map comp_def harmless_simps harmless_item harmless_entry
      harmless_facts harmless_response harmless_mark list.pred_True intro: list.pred_mono_strong
      split: option.split send_outcome.split list_outcome.split ready_outcome.split js.split)

text \<open>
  No text that came from the server, or from the user, becomes markup: whatever the answers say, the
  page consists of elements of the kinds it is written with, without script or link, and listens to
  clicks only.
\<close>

lemma answers_never_markup: "page_run L P s \<Longrightarrow> list_all harmless (page_nodes s)"
proof (induction rule: page_run.induct)
  case (start form uuid)
  show ?case by (simp add: page_start_def page_nodes_def page_defs)
qed (rule harmless_step)

lemma unreserved_chars: "unreserved c \<Longrightarrow> c \<notin> {CHR ''/'', CHR ''?'', CHR ''#'', CHR ''%''}"
  by (auto simp: unreserved_def Let_def)

lemma hex_not_slash: "i < 16 \<Longrightarrow> ''0123456789ABCDEF'' ! i \<notin> {CHR ''/'', CHR ''?'', CHR ''#''}"
  by (simp add: less_Suc_eq numeral_eq_Suc) auto

lemma percent_segment: "b < 256 \<Longrightarrow> set (percent b) \<inter> {CHR ''/'', CHR ''?'', CHR ''#''} = {}"
  using hex_not_slash [of "b div 16"] hex_not_slash [of "b mod 16"] by (simp add: percent_def)

text \<open>An order id stays within one segment of the path, whatever it is.\<close>

lemma encoded_in_segment: "set (encodeURIComponent oid) \<inter> {CHR ''/'', CHR ''?'', CHR ''#''} = {}"
proof -
  have "set (encode_char c) \<inter> {CHR ''/'', CHR ''?'', CHR ''#''} = {}" for c
  proof -
    have n: "m < 256 \<Longrightarrow> m div 64 < 64" "m mod 64 < 128" for m :: nat by (simp_all add: less_mult_imp_div_less)
    show ?thesis
      using n [of "of_char c"] unreserved_chars [of c] percent_segment [of "of_char c"]
        percent_segment [of "192 + of_char c div 64"] percent_segment [of "128 + of_char c mod 64"]
      by (auto simp: encode_char_def Let_def)
  qed
  then show ?thesis by (auto simp: encodeURIComponent_def)
qed

section \<open>Following an order\<close>

text \<open>A request for the timeline that failed, or was not answered with 2xx.\<close>

fun load_ok :: "page_event \<Rightarrow> bool" where
  "load_ok (ViewSettles oid answer) = (answer = Some True)"
| "load_ok (ViewBodySettles oid body) = (body \<noteq> None)"
| "load_ok _ = True"

definition loading :: "string \<Rightarrow> page \<Rightarrow> bool" where
  "loading oid s = (AwaitView oid \<in> set (pg_calls s) \<or> AwaitViewBody oid \<in> set (pg_calls s))"

definition shown_final :: "string \<Rightarrow> page \<Rightarrow> bool" where
  "shown_final oid s = (\<exists>v \<in> set (pg_shown s). so_orderId (tv_order (pv_view v)) = oid \<and> \<not> unfinished v)"

definition followed :: "page \<Rightarrow> bool" where
  "followed s =
     (\<forall>oid \<in> set_option (pg_selectedOrderId s). oid \<noteq> [] \<longrightarrow> shown_final oid s \<or> loading oid s \<or> pg_armed s \<noteq> {})"

lemma followed_step:
  assumes "followed s" "page_enabled e s" "load_ok e"
  shows "followed (page_handle L e s)"
  using assms
  by (cases e)
    (auto simp: followed_def shown_final_def loading_def page_defs dest: notin_set_remove1
      split: option.splits send_outcome.splits list_outcome.splits ready_outcome.splits js.splits if_splits)

text \<open>
  The page keeps following the selected order: unless a request of the timeline fails, it has shown
  the order in its final state, is loading it, or has a timer that will.
\<close>

lemma selected_order_followed:
  assumes "page_run L load_ok s" "pg_selectedOrderId s = Some oid" "oid \<noteq> []"
  shows "shown_final oid s \<or> loading oid s \<or> pg_armed s \<noteq> {}"
proof -
  have "followed s"
    using assms(1)
  proof (induction rule: page_run.induct)
    case (start form uuid)
    show ?case by (simp add: page_start_def followed_def page_defs)
  qed (rule followed_step)
  with assms(2,3) show ?thesis by (simp add: followed_def)
qed

text \<open>
  One request that fails ends it: no timer is set, and nothing but another selection loads the
  timeline again, however often the lists are refreshed.
\<close>

definition selecting :: "page_event \<Rightarrow> bool" where
  "selecting e = (case e of Selects _ \<Rightarrow> True | SubmitListSettles _ _ \<Rightarrow> True | _ \<Rightarrow> False)"

definition idle_timeline :: "page \<Rightarrow> bool" where
  "idle_timeline s = (pg_armed s = {} \<and> (\<forall>oid. \<not> loading oid s))"

inductive page_later :: "page_libs \<Rightarrow> (page_event \<Rightarrow> bool) \<Rightarrow> page \<Rightarrow> page \<Rightarrow> bool" for L P s where
  now: "page_later L P s s"
| later: "\<lbrakk>page_later L P s t; page_enabled e t; P e\<rbrakk> \<Longrightarrow> page_later L P s (page_handle L e t)"

lemma idle_step:
  assumes "idle_timeline s" "page_enabled e s" "\<not> selecting e"
  shows "idle_timeline (page_handle L e s) \<and> pg_entries (page_handle L e s) = pg_entries s"
  using assms
  by (cases e)
    (auto simp: idle_timeline_def loading_def selecting_def page_defs dest: notin_set_remove1
      split: option.splits send_outcome.splits list_outcome.splits ready_outcome.splits js.splits if_splits)

lemma failed_load_stops_following:
  assumes "pg_calls s = [AwaitView oid]" "pg_armed s = {}" "answer \<noteq> Some True"
    and "page_later L (\<lambda>e. \<not> selecting e) (page_handle L (ViewSettles oid answer) s) t"
  shows "pg_entries t = pg_entries s"
proof -
  let ?s = "page_handle L (ViewSettles oid answer) s"
  have "idle_timeline ?s \<and> pg_entries ?s = pg_entries s"
    using assms(1-3) by (auto simp: idle_timeline_def loading_def page_defs split: option.split)
  moreover from assms(4) this have "idle_timeline t \<and> pg_entries t = pg_entries ?s"
    by (induction rule: page_later.induct) (auto dest: idle_step)
  ultimately show ?thesis by simp
qed

text \<open>
  \<open>loadTimeline\<close> checks the selection before it reads the body, not after: a body that arrives once
  another order is selected replaces the timeline of that order, in its place from then on.
\<close>

lemma late_body_shows_other_order:
  assumes "AwaitViewBody oid \<in> set (pg_calls s)" "pg_selectedOrderId s = Some other" "other \<noteq> oid"
    and "so_orderId (tv_order (pv_view v)) = oid"
  shows "page_enabled (ViewBodySettles oid (Some v)) s"
    and "pg_selectedOrderId (page_handle L (ViewBodySettles oid (Some v)) s) = Some other"
    and "pg_facts (page_handle L (ViewBodySettles oid (Some v)) s) = timeline_facts L (tv_order (pv_view v))"
  using assms by (simp_all add: page_defs)

text \<open>
  An order that was stored is reported as failed when the refresh of the list after it fails, and is
  not selected; the request can be retried, which the service answers with the stored order.
\<close>

lemma stored_order_reported_failed:
  assumes "AwaitSubmitList oid \<in> set (pg_calls s)" "pg_lastRequest s = Some r"
  shows "map textContent (pg_response (page_handle L (SubmitListSettles oid (ListThrows m)) s)) = [''Request failed'', m]"
    and "pg_selectedOrderId (page_handle L (SubmitListSettles oid (ListThrows m)) s) = pg_selectedOrderId s"
    and "page_enabled Retries (page_handle L (SubmitListSettles oid (ListThrows m)) s)"
  using assms by (simp_all add: page_defs el_def startsWith_def)

text \<open>
  A submission that throws does not become the request that is retried: the button stays as it was,
  although the service may have stored the order. Submitting the form again with its key repeats it.
\<close>

lemma lost_answer_not_retried:
  "pg_lastRequest (page_handle L (SendSettles r (SendThrows m)) s) = pg_lastRequest s"
  "\<lbrakk>trim (fm_customer (pg_form s)) \<noteq> []; r = readForm L (pg_form s)\<rbrakk>
     \<Longrightarrow> hd (pg_posts (page_handle L Submits (page_handle L (SendSettles r (SendThrows m)) s))) = r"
  by (simp_all add: page_defs)

end
